(* ===== verification/Prelude.thy ===== *)
theory Prelude
  imports Main "HOL-Library.Sublist" "HOL-Library.Char_ord" "HOL-Library.List_Lexorder"
begin

text \<open>
  Shared vocabulary of the development: Go strings as byte lists (\<open>string\<close> is a list of
  8-bit characters, so a UTF-8 rune outside ASCII is several elements), the operations of
  Go's package \<^verbatim>\<open>strings\<close> that the servers call, results that carry an error message, and
  the loop with a \<open>seen\<close> set that the code base uses to remove duplicates.
  Everything here is executable.
\<close>

named_theorems go_defs \<open>definitions of the modelled operations\<close>
named_theorems router_defs \<open>definitions of the tenant routers\<close>

text \<open>A Go pair \<open>(value, error)\<close>: \<open>Inl\<close> is the error with its message, \<open>Inr\<close> the value.\<close>

type_synonym 'a result = "string + 'a"

text \<open>\<open>time.Time\<close> and \<open>time.Duration\<close> as integers counting nanoseconds.\<close>

type_synonym time = int

text \<open>Two's complement: the value an \<open>int64\<close> operation leaves when the exact one is \<open>x\<close>.\<close>

definition wrap64 :: "int \<Rightarrow> int" where
  "wrap64 x = (x + 2 ^ 63) mod 2 ^ 64 - 2 ^ 63"

lemma wrap64_id: "- (2 ^ 63) \<le> x \<Longrightarrow> x < 2 ^ 63 \<Longrightarrow> wrap64 x = x"
  by (simp add: wrap64_def)

section \<open>Results\<close>

fun is_ok :: "'a result \<Rightarrow> bool" where
  "is_ok (Inr _) = True"
| "is_ok (Inl _) = False"

lemma is_ok_iff: "is_ok r \<longleftrightarrow> (\<exists>x. r = Inr x)"
  by (cases r) auto

lemma not_is_ok_iff: "\<not> is_ok r \<longleftrightarrow> (\<exists>e. r = Inl e)"
  by (cases r) auto

section \<open>Prefixes and suffixes\<close>

definition HasPrefix :: "string \<Rightarrow> string \<Rightarrow> bool" where
  "HasPrefix s p \<longleftrightarrow> length p \<le> length s \<and> take (length p) s = p"

definition HasSuffix :: "string \<Rightarrow> string \<Rightarrow> bool" where
  "HasSuffix s p \<longleftrightarrow> length p \<le> length s \<and> drop (length s - length p) s = p"

definition TrimPrefix :: "string \<Rightarrow> string \<Rightarrow> string" where
  "TrimPrefix s p = (if HasPrefix s p then drop (length p) s else s)"

definition TrimSuffix :: "string \<Rightarrow> string \<Rightarrow> string" where
  "TrimSuffix s p = (if HasSuffix s p then take (length s - length p) s else s)"

lemma HasPrefix_iff: "HasPrefix s p \<longleftrightarrow> (\<exists>r. s = p @ r)"
  unfolding HasPrefix_def
  by (metis append_eq_conv_conj append_take_drop_id le_add1 length_append)

lemma HasPrefix_append [simp]: "HasPrefix (p @ r) p"
  by (auto simp: HasPrefix_iff)

lemma HasPrefix_Nil [simp]: "HasPrefix s []"
  by (simp add: HasPrefix_def)

lemma HasPrefix_take: "HasPrefix (take n s) p \<Longrightarrow> HasPrefix s p"
  by (metis HasPrefix_iff append_assoc append_take_drop_id)

lemma HasPrefix_ext: "HasPrefix s p \<Longrightarrow> HasPrefix (s @ r) p"
  by (auto simp: HasPrefix_iff)

lemma HasSuffix_iff: "HasSuffix s p \<longleftrightarrow> (\<exists>r. s = r @ p)"
  unfolding HasSuffix_def
  by (metis add_diff_cancel_right' append_eq_conv_conj append_take_drop_id le_add2 length_append)

lemma TrimPrefix_append [simp]: "TrimPrefix (p @ r) p = r"
  by (simp add: TrimPrefix_def)

lemma TrimSuffix_append [simp]: "TrimSuffix (r @ p) p = r"
  by (simp add: TrimSuffix_def HasSuffix_iff)

section \<open>Trimming white space\<close>

text \<open>
  \<open>strings.TrimSpace\<close> removes runes with the Unicode White Space property. These are their
  UTF-8 encodings; since each is a complete rune, a string starts (ends) with such a rune
  exactly if its bytes start (end) with one of them.
\<close>

definition space_runes :: "string list" where
  "space_runes =
     [[CHR 0x09], [CHR 0x0A], [CHR 0x0B], [CHR 0x0C], [CHR 0x0D], [CHR 0x20],
      [CHR 0xC2, CHR 0x85], [CHR 0xC2, CHR 0xA0], [CHR 0xE1, CHR 0x9A, CHR 0x80],
      [CHR 0xE2, CHR 0x80, CHR 0x80], [CHR 0xE2, CHR 0x80, CHR 0x81],
      [CHR 0xE2, CHR 0x80, CHR 0x82], [CHR 0xE2, CHR 0x80, CHR 0x83],
      [CHR 0xE2, CHR 0x80, CHR 0x84], [CHR 0xE2, CHR 0x80, CHR 0x85],
      [CHR 0xE2, CHR 0x80, CHR 0x86], [CHR 0xE2, CHR 0x80, CHR 0x87],
      [CHR 0xE2, CHR 0x80, CHR 0x88], [CHR 0xE2, CHR 0x80, CHR 0x89],
      [CHR 0xE2, CHR 0x80, CHR 0x8A], [CHR 0xE2, CHR 0x80, CHR 0xA8],
      [CHR 0xE2, CHR 0x80, CHR 0xA9], [CHR 0xE2, CHR 0x80, CHR 0xAF],
      [CHR 0xE2, CHR 0x81, CHR 0x9F], [CHR 0xE3, CHR 0x80, CHR 0x80]]"

definition leading :: "string list \<Rightarrow> string \<Rightarrow> nat" where
  "leading ws s = (case find (\<lambda>w. w \<noteq> [] \<and> HasPrefix s w) ws of None \<Rightarrow> 0 | Some w \<Rightarrow> length w)"

lemma leading_le: "leading ws s \<le> length s"
  by (auto simp: leading_def HasPrefix_def find_Some_iff split: option.splits)

function strip :: "string list \<Rightarrow> string \<Rightarrow> string" where
  "strip ws s = (if leading ws s = 0 then s else strip ws (drop (leading ws s) s))"
  by pat_completeness auto
termination
proof (relation "measure (\<lambda>(ws, s). length s)", goal_cases)
  case (2 ws s)
  then show ?case using leading_le[of ws s] by simp
qed simp

declare strip.simps [simp del]

definition trimLeft :: "string \<Rightarrow> string" where
  "trimLeft s = strip space_runes s"

definition trimRight :: "string \<Rightarrow> string" where
  "trimRight s = rev (strip (map rev space_runes) (rev s))"

definition TrimSpace :: "string \<Rightarrow> string" where
  "TrimSpace s = trimRight (trimLeft s)"

lemma leading_zero_iff: "leading ws s = 0 \<longleftrightarrow> (\<forall>w \<in> set ws. w \<noteq> [] \<longrightarrow> \<not> HasPrefix s w)"
  by (auto simp: leading_def find_None_iff find_Some_iff split: option.splits)

lemma leading_Nil [simp]: "leading ws [] = 0"
  by (auto simp: leading_zero_iff HasPrefix_def)

lemma strip_Nil [simp]: "strip ws [] = []"
  by (simp add: strip.simps[of ws "[]"])

lemma leading_strip [simp]: "leading ws (strip ws s) = 0"
proof (induction ws s rule: strip.induct)
  case (1 ws s)
  then show ?case by (cases "leading ws s = 0") (auto simp: strip.simps[of ws s])
qed

lemma strip_fixed: "leading ws s = 0 \<Longrightarrow> strip ws s = s"
  by (simp add: strip.simps[of ws s])

lemma strip_idem [simp]: "strip ws (strip ws s) = strip ws s"
  by (rule strip_fixed) simp

lemma strip_suffix: "\<exists>p. s = p @ strip ws s"
proof (induction ws s rule: strip.induct)
  case (1 ws s)
  show ?case
  proof (cases "leading ws s = 0")
    case True
    then show ?thesis by (simp add: strip.simps[of ws s])
  next
    case False
    with 1 obtain p where "drop (leading ws s) s = p @ strip ws (drop (leading ws s) s)"
      by blast
    then have "s = (take (leading ws s) s @ p) @ strip ws s"
      using False by (metis append_assoc append_take_drop_id strip.simps)
    then show ?thesis by blast
  qed
qed

lemma trimRight_prefix: "\<exists>r. s = trimRight s @ r"
proof -
  obtain p where "rev s = p @ strip (map rev space_runes) (rev s)"
    using strip_suffix by blast
  then have "s = rev (strip (map rev space_runes) (rev s)) @ rev p"
    by (metis rev_append rev_rev_ident)
  then show ?thesis by (auto simp: trimRight_def)
qed

lemma leading_append_zero: "leading ws (s @ r) = 0 \<Longrightarrow> leading ws s = 0"
  by (auto simp: leading_zero_iff dest: HasPrefix_ext)

lemma trimLeft_trimRight: "leading space_runes s = 0 \<Longrightarrow> leading space_runes (trimRight s) = 0"
  using trimRight_prefix[of s] by (metis leading_append_zero)

lemma trimRight_idem [simp]: "trimRight (trimRight s) = trimRight s"
  by (simp add: trimRight_def)

lemma TrimSpace_leading [simp]: "leading space_runes (TrimSpace s) = 0"
  by (simp add: TrimSpace_def trimLeft_def trimLeft_trimRight)

lemma TrimSpace_idem [simp]: "TrimSpace (TrimSpace s) = TrimSpace s"
proof -
  have "trimLeft (TrimSpace s) = TrimSpace s"
    by (simp add: trimLeft_def strip_fixed)
  then show ?thesis by (simp add: TrimSpace_def)
qed

lemma TrimSpace_Nil [simp]: "TrimSpace [] = []"
  by (simp add: TrimSpace_def trimLeft_def trimRight_def)

lemma TrimSpace_nonblank: "TrimSpace s \<noteq> [] \<Longrightarrow> s \<noteq> []"
  by auto

text \<open>A string whose first and last bytes are printable ASCII is its own trimming.\<close>

definition plain_char :: "char \<Rightarrow> bool" where
  "plain_char c \<longleftrightarrow> 0x20 < (of_char c :: nat) \<and> (of_char c :: nat) < 0x80"

lemma leading_plain_hd: "plain_char c \<Longrightarrow> leading space_runes (c # s) = 0"
  by (auto simp: leading_zero_iff HasPrefix_iff space_runes_def plain_char_def)

lemma leading_plain_last: "plain_char c \<Longrightarrow> leading (map rev space_runes) (c # s) = 0"
  by (auto simp: leading_zero_iff HasPrefix_iff space_runes_def plain_char_def)

lemma TrimSpace_plain:
  assumes "s = c # t" "plain_char c" "s = u @ [d]" "plain_char d"
  shows "TrimSpace s = s"
proof -
  have "trimLeft s = s"
    using assms(1,2) by (simp add: trimLeft_def strip_fixed leading_plain_hd)
  moreover have "trimRight s = s"
    using assms(3,4) by (simp add: trimRight_def strip_fixed leading_plain_last)
  ultimately show ?thesis by (simp add: TrimSpace_def)
qed

lemma TrimSpace_hd_last: "plain_char c \<Longrightarrow> plain_char (last (c # t)) \<Longrightarrow> TrimSpace (c # t) = c # t"
  by (rule TrimSpace_plain[of _ c t "butlast (c # t)" "last (c # t)"]) simp_all

lemmas TrimSpace_eval = TrimSpace_hd_last plain_char_def

section \<open>Lower case\<close>

text \<open>
  \<open>strings.ToLower\<close>. Every caller either compares the result with ASCII constants or has
  restricted its argument to ASCII letters, digits, underscore and Hangul before the call,
  so the model lower-cases the ASCII letters and the two other runes whose lower case is
  ASCII (U+0130 and U+212A) and leaves other runes alone: the result is ASCII exactly if
  Go's is, and then they are equal.
\<close>

definition lower_char :: "char \<Rightarrow> char" where
  "lower_char c = (let n = of_char c in
     if 0x41 \<le> n \<and> n \<le> (0x5A::nat) then char_of (n + 32) else c)"

fun ToLower :: "string \<Rightarrow> string" where
  "ToLower [] = []"
| "ToLower (c # s) =
     (if c = CHR 0xC4 \<and> HasPrefix s [CHR 0xB0] then CHR ''i'' # ToLower (drop 1 s)
      else if c = CHR 0xE2 \<and> HasPrefix s [CHR 0x84, CHR 0xAA] then CHR ''k'' # ToLower (drop 2 s)
      else lower_char c # ToLower s)"

definition ascii :: "string \<Rightarrow> bool" where
  "ascii s \<longleftrightarrow> (\<forall>c \<in> set s. (of_char c :: nat) < 0x80)"

lemma lower_char_idem [simp]: "lower_char (lower_char c) = lower_char c"
  by (auto simp: lower_char_def Let_def)

lemma ToLower_ascii: "ascii s \<Longrightarrow> ToLower s = map lower_char s"
  by (induction s rule: ToLower.induct) (auto simp: ascii_def)

section \<open>Removing duplicates with a seen set\<close>

text \<open>
  The loop shared by \<open>dedupeAndTrim\<close>, \<open>CSV\<close> and \<open>normalizeEndpoints\<close>: normalise an item,
  skip it if blank or seen, otherwise remember and append it. \<open>seen\<close> is the Go map with
  empty values, \<open>result\<close> the slice that is appended to.
\<close>

fun seen_loop :: "(string \<Rightarrow> string) \<Rightarrow> string list \<Rightarrow> string list \<Rightarrow> string list \<Rightarrow> string list" where
  "seen_loop norm result seen [] = result"
| "seen_loop norm result seen (item # items) =
     (let value = norm item in
      if value = '''' then seen_loop norm result seen items
      else if value \<in> set seen then seen_loop norm result seen items
      else seen_loop norm (result @ [value]) (value # seen) items)"

text \<open>The reference: the non-blank normal forms, the first of each kept.\<close>

fun firsts :: "'a list \<Rightarrow> 'a list" where
  "firsts [] = []"
| "firsts (x # xs) = x # filter (\<lambda>y. y \<noteq> x) (firsts xs)"

lemma set_firsts [simp]: "set (firsts xs) = set xs"
  by (induction xs) auto

lemma distinct_firsts [simp]: "distinct (firsts xs)"
  by (induction xs) auto

lemma filter_firsts: "filter P (firsts xs) = firsts (filter P xs)"
proof (induction xs)
  case (Cons x xs)
  have "filter P (filter (\<lambda>y. y \<noteq> x) (firsts xs)) = filter (\<lambda>y. y \<noteq> x) (firsts (filter P xs))"
    using Cons by (metis (no_types, lifting) filter_filter conj_commute filter_cong)
  moreover have "\<not> P x \<Longrightarrow> filter (\<lambda>y. y \<noteq> x) (firsts (filter P xs)) = firsts (filter P xs)"
    by (simp add: filter_id_conv) (metis)
  ultimately show ?case by simp
qed simp

lemma firsts_distinct: "distinct xs \<Longrightarrow> firsts xs = xs"
proof (induction xs)
  case (Cons x xs)
  then have "filter (\<lambda>y. y \<noteq> x) xs = xs" by (auto intro: filter_True)
  with Cons show ?case by simp
qed simp

lemma subseq_firsts: "subseq (firsts xs) xs"
proof (induction xs)
  case (Cons x xs)
  then show ?case
    by simp (meson subseq_filter_left subseq_order.order_trans)
qed simp

lemma seen_loop_firsts:
  "seen_loop norm result seen items =
     result @ filter (\<lambda>v. v \<notin> set seen) (firsts (filter (\<lambda>v. v \<noteq> '''') (map norm items)))"
proof (induction items arbitrary: result seen)
  case (Cons x xs)
  let ?L = "firsts (filter (\<lambda>v. v \<noteq> '''') (map norm xs))"
  have "filter (\<lambda>v. v \<notin> set seen) (filter (\<lambda>y. y \<noteq> norm x) ?L)
      = filter (\<lambda>v. v \<notin> set (norm x # seen)) ?L"
    by (auto intro: filter_cong)
  moreover have "norm x \<in> set seen \<Longrightarrow>
      filter (\<lambda>v. v \<notin> set (norm x # seen)) ?L = filter (\<lambda>v. v \<notin> set seen) ?L"
    by (simp add: insert_absorb)
  ultimately show ?case using Cons by (simp add: Let_def)
qed simp

corollary seen_loop_spec:
  "seen_loop norm [] [] items = firsts (filter (\<lambda>v. v \<noteq> '''') (map norm items))"
  by (simp add: seen_loop_firsts)

text \<open>
  The contract of an operation that keeps the first of each normal form: what its callers
  (endpoint lists, recipient lists) rely on.
\<close>

locale unique_normal =
  fixes norm :: "string \<Rightarrow> string" and op :: "string list \<Rightarrow> string list"
  assumes op_firsts: "op items = firsts (filter (\<lambda>v. v \<noteq> '''') (map norm items))"
begin

lemma op_distinct: "distinct (op items)"
  by (simp add: op_firsts)

lemma op_set: "set (op items) = {norm i | i. i \<in> set items \<and> norm i \<noteq> ''''}"
  by (auto simp: op_firsts)

lemma op_nonblank: "'''' \<notin> set (op items)"
  by (simp add: op_firsts)

lemma op_order: "subseq (op items) (map norm items)"
  by (metis op_firsts subseq_filter_left subseq_firsts subseq_order.order_trans)

lemma op_Nil_iff: "op items = [] \<longleftrightarrow> (\<forall>i \<in> set items. norm i = '''')"
proof -
  have "op items = [] \<longleftrightarrow> set (op items) = {}" by simp
  then show ?thesis unfolding op_set by auto
qed

end

locale unique_normal_idem = unique_normal +
  assumes norm_idem: "norm (norm s) = norm s"
begin

lemma norm_fixes_op: "v \<in> set (op items) \<Longrightarrow> norm v = v"
  by (auto simp: op_set norm_idem)

lemma op_idem: "op (op items) = op items"
proof -
  have "map norm (op items) = op items"
    by (simp add: map_idI norm_fixes_op)
  moreover have "filter (\<lambda>v. v \<noteq> '''') (op items) = op items"
    using op_nonblank by (simp add: filter_id_conv) blast
  ultimately show ?thesis
    by (metis op_distinct op_firsts firsts_distinct)
qed

end

section \<open>Page limits\<close>

text \<open>The clamp \<open>if limit <= 0 || limit > max { limit = default }\<close> of the list endpoints.\<close>

definition clampLimit :: "int \<Rightarrow> int \<Rightarrow> int \<Rightarrow> int" where
  "clampLimit hi dflt limit = (if limit \<le> 0 \<or> hi < limit then dflt else limit)"

lemma clampLimit_bounds: "0 < d \<Longrightarrow> d \<le> m \<Longrightarrow> 0 < clampLimit m d l \<and> clampLimit m d l \<le> m"
  by (auto simp: clampLimit_def)

lemma clampLimit_in_range: "0 < l \<Longrightarrow> l \<le> m \<Longrightarrow> clampLimit m d l = l"
  by (auto simp: clampLimit_def)

end
