(* ===== verification/RouterSpec.thy ===== *)
theory RouterSpec
  imports Prelude
begin

text \<open>
  What the four tenant routers of the servers (PostgreSQL pools, Redis clients, MinIO clients,
  AMQP publishers) promise, as an abstract router over two maps: tenant metadata with the time
  it was fetched, and the dedicated clients that have been opened. The locale \<open>tenant_router\<close>
  is the contract between a router and the services that use it; its lemmas are proved once
  and hold for every router by interpretation.
\<close>

record ('m, 'c) view =
  vcache :: "string \<rightharpoonup> 'm \<times> time"
  vclients :: "string \<rightharpoonup> 'c"

datatype ('m, 'c) placement = Unscoped | SharedBy string | Own 'm 'c

definition spec_load ::
  "time \<Rightarrow> time \<Rightarrow> 'm result \<Rightarrow> string \<Rightarrow> ('m, 'c) view \<Rightarrow> ('m, 'c) view \<times> 'm result" where
  "spec_load ttl now fetched t v =
     (case vcache v t of
        Some (m, at) \<Rightarrow>
          if now - at < ttl then (v, Inr m)
          else (case fetched of
                  Inl e \<Rightarrow> (v, Inl e)
                | Inr m' \<Rightarrow> (v\<lparr>vcache := (vcache v)(t \<mapsto> (m', now))\<rparr>, Inr m'))
      | None \<Rightarrow>
          (case fetched of
             Inl e \<Rightarrow> (v, Inl e)
           | Inr m' \<Rightarrow> (v\<lparr>vcache := (vcache v)(t \<mapsto> (m', now))\<rparr>, Inr m')))"

definition spec_open ::
  "('m \<Rightarrow> 'c result) \<Rightarrow> string \<Rightarrow> 'm \<Rightarrow> ('m, 'c) view \<Rightarrow> ('m, 'c) view \<times> ('m, 'c) placement result" where
  "spec_open opn t m v =
     (case vclients v t of
        Some c \<Rightarrow> (v, Inr (Own m c))
      | None \<Rightarrow>
          (case opn m of
             Inl e \<Rightarrow> (v, Inl e)
           | Inr c \<Rightarrow> (v\<lparr>vclients := (vclients v)(t \<mapsto> c)\<rparr>, Inr (Own m c))))"

definition spec_place ::
  "('m \<Rightarrow> bool) \<Rightarrow> ('m \<Rightarrow> bool) \<Rightarrow> ('m \<Rightarrow> 'c result) \<Rightarrow> string \<Rightarrow> 'm \<Rightarrow> ('m, 'c) view
   \<Rightarrow> ('m, 'c) view \<times> ('m, 'c) placement result" where
  "spec_place active dedicated opn t m v =
     (if \<not> active m then (v, Inl ''tenant is inactive'')
      else if \<not> dedicated m then (v, Inr (SharedBy t))
      else spec_open opn t m v)"

definition spec_route ::
  "time \<Rightarrow> ('m \<Rightarrow> bool) \<Rightarrow> ('m \<Rightarrow> bool) \<Rightarrow> time \<Rightarrow> 'm result \<Rightarrow> ('m \<Rightarrow> 'c result) \<Rightarrow> string
   \<Rightarrow> ('m, 'c) view \<Rightarrow> ('m, 'c) view \<times> ('m, 'c) placement result" where
  "spec_route ttl active dedicated now fetched opn t v =
     (if TrimSpace t = '''' then (v, Inr Unscoped)
      else let lm = spec_load ttl now fetched t v in
        case snd lm of
          Inl e \<Rightarrow> (fst lm, Inl e)
        | Inr m \<Rightarrow> spec_place active dedicated opn t m (fst lm))"

definition spec_invalidate :: "string \<Rightarrow> ('m, 'c) view \<Rightarrow> ('m, 'c) view" where
  "spec_invalidate t v =
     (let t = TrimSpace t in
      if t = '''' then v
      else v\<lparr>vcache := (vcache v)(t := None), vclients := (vclients v)(t := None)\<rparr>)"

lemmas spec_route_defs = spec_route_def spec_place_def spec_open_def spec_load_def Let_def

section \<open>Laws of the abstract router\<close>

text \<open>The metadata in force: the cached one while it is younger than the TTL, else a new fetch.\<close>

definition in_force :: "time \<Rightarrow> time \<Rightarrow> 'm result \<Rightarrow> string \<Rightarrow> ('m, 'c) view \<Rightarrow> 'm result" where
  "in_force ttl now fetched t v =
     (case vcache v t of
        Some (m, at) \<Rightarrow> if now - at < ttl then Inr m else fetched
      | None \<Rightarrow> fetched)"

lemma spec_load_in_force: "snd (spec_load ttl now fetched t v) = in_force ttl now fetched t v"
  by (auto simp: spec_load_def in_force_def split: option.splits sum.splits)

lemma spec_load_clients [simp]: "vclients (fst (spec_load ttl now fetched t v)) = vclients v"
  by (auto simp: spec_load_def split: option.splits sum.splits)

lemma spec_route_frame:
  "t' \<noteq> t \<Longrightarrow> vcache (fst (spec_route ttl active ded now fetched opn t v)) t' = vcache v t'
     \<and> vclients (fst (spec_route ttl active ded now fetched opn t v)) t' = vclients v t'"
  by (auto simp: spec_route_defs split: option.splits sum.splits)

lemma spec_route_sticky:
  "vclients v t' = Some c \<Longrightarrow> vclients (fst (spec_route ttl active ded now fetched opn t v)) t' = Some c"
  by (auto simp: spec_route_defs split: option.splits sum.splits)

lemma spec_route_new_client:
  "vclients (fst (spec_route ttl active ded now fetched opn t v)) t' = Some c \<Longrightarrow> vclients v t' = None \<Longrightarrow>
     t' = t \<and> (\<exists>m. in_force ttl now fetched t v = Inr m \<and> active m \<and> ded m \<and> opn m = Inr c)"
  by (auto simp: spec_route_def Let_def spec_place_def spec_open_def spec_load_in_force[symmetric]
      split: option.splits sum.splits if_splits)

lemma spec_route_cache:
  "vcache (fst (spec_route ttl active ded now fetched opn t v)) t' = Some (m, at) \<Longrightarrow>
     vcache v t' = Some (m, at) \<or> t' = t \<and> at = now \<and> fetched = Inr m"
  by (auto simp: spec_route_defs split: option.splits sum.splits if_splits)

lemma spec_route_Own:
  assumes "snd (spec_route ttl active ded now fetched opn t v) = Inr (Own m c)"
  shows "vclients (fst (spec_route ttl active ded now fetched opn t v)) t = Some c
    \<and> active m \<and> ded m \<and> TrimSpace t \<noteq> ''''"
  using assms by (auto simp: spec_route_defs split: option.splits sum.splits if_splits)

lemma spec_route_result:
  "TrimSpace t \<noteq> '''' \<Longrightarrow> snd (spec_route ttl active ded now fetched opn t v) =
     (case in_force ttl now fetched t v of
        Inl e \<Rightarrow> Inl e
      | Inr m \<Rightarrow>
          if \<not> active m then Inl ''tenant is inactive''
          else if \<not> ded m then Inr (SharedBy t)
          else (case vclients v t of
                  Some c \<Rightarrow> Inr (Own m c)
                | None \<Rightarrow> (case opn m of Inl e \<Rightarrow> Inl e | Inr c \<Rightarrow> Inr (Own m c))))"
  by (auto simp: spec_route_def Let_def spec_load_in_force spec_place_def spec_open_def
      split: sum.splits option.splits)

lemma in_force_again:
  "0 < ttl \<Longrightarrow> in_force ttl now fetched t v = Inr m \<Longrightarrow> vcache v' t = vcache (fst (spec_load ttl now fetched t v)) t \<Longrightarrow>
     in_force ttl now fetched t v' = Inr m"
  by (cases "vcache v t"; cases fetched) (auto simp: in_force_def spec_load_def split: if_splits)

lemma spec_place_cache [simp]: "vcache (fst (spec_place active ded opn t m v)) = vcache v"
  by (auto simp: spec_place_def spec_open_def split: option.splits sum.splits)

lemma spec_place_again:
  "snd (spec_place active ded opn t m v) = Inr x \<Longrightarrow> vclients v' t = vclients (fst (spec_place active ded opn t m v)) t \<Longrightarrow>
     snd (spec_place active ded opn t m v') = Inr x"
  by (cases "vclients v t"; cases "opn m") (simp_all add: spec_place_def spec_open_def split: if_splits)

lemma spec_route_repeat:
  assumes "0 < ttl" "snd (spec_route ttl active ded now fetched opn t v) = Inr x"
  shows "snd (spec_route ttl active ded now fetched opn t (fst (spec_route ttl active ded now fetched opn t v))) = Inr x"
proof (cases "TrimSpace t = ''''")
  case False
  let ?v1 = "fst (spec_load ttl now fetched t v)"
  obtain m where m: "in_force ttl now fetched t v = Inr m"
    using assms(2) False by (cases "in_force ttl now fetched t v") (simp_all add: spec_route_def Let_def spec_load_in_force)
  then have run: "spec_route ttl active ded now fetched opn t v = spec_place active ded opn t m ?v1"
    using False by (simp add: spec_route_def Let_def spec_load_in_force)
  let ?v2 = "fst (spec_place active ded opn t m ?v1)"
  have again: "in_force ttl now fetched t ?v2 = Inr m" by (rule in_force_again[OF assms(1) m]) simp
  have x: "snd (spec_place active ded opn t m ?v1) = Inr x" using assms(2) unfolding run .
  have "snd (spec_place active ded opn t m (fst (spec_load ttl now fetched t ?v2))) = Inr x"
    by (rule spec_place_again[OF x]) (simp only: spec_load_clients)
  then show ?thesis
    unfolding run unfolding spec_route_def Let_def spec_load_in_force again using False by (simp only: if_False sum.case)
qed (use assms in \<open>simp add: spec_route_def\<close>)

section \<open>Histories\<close>

text \<open>A history of one router: its calls in order, each with its surroundings.\<close>

datatype 'e router_event = Route string 'e | Invalidate string

fun router_event_step ::
  "('r \<Rightarrow> string \<Rightarrow> 'e \<Rightarrow> 'r \<times> 'a) \<Rightarrow> ('r \<Rightarrow> string \<Rightarrow> 'r) \<Rightarrow> 'r \<Rightarrow> 'e router_event \<Rightarrow> 'r" where
  "router_event_step route invalidate r (Route t e) = fst (route r t e)"
| "router_event_step route invalidate r (Invalidate t) = invalidate r t"

definition run_router ::
  "('r \<Rightarrow> string \<Rightarrow> 'e \<Rightarrow> 'r \<times> 'a) \<Rightarrow> ('r \<Rightarrow> string \<Rightarrow> 'r) \<Rightarrow> 'r \<Rightarrow> 'e router_event list \<Rightarrow> 'r" where
  "run_router route invalidate r evs = foldl (router_event_step route invalidate) r evs"

lemma run_router_Nil [simp]: "run_router route invalidate r [] = r"
  by (simp add: run_router_def)

lemma run_router_snoc [simp]:
  "run_router route invalidate r (evs @ [ev]) =
     router_event_step route invalidate (run_router route invalidate r evs) ev"
  by (simp add: run_router_def)

section \<open>The contract\<close>

locale tenant_router =
  fixes view :: "'r \<Rightarrow> ('m, 'c) view"
    and route :: "'r \<Rightarrow> string \<Rightarrow> 'e \<Rightarrow> 'r \<times> 'a result"
    and invalidate :: "'r \<Rightarrow> string \<Rightarrow> 'r"
    and render :: "'r \<Rightarrow> ('m, 'c) placement \<Rightarrow> 'a"
    and ttl :: "'r \<Rightarrow> time"
    and active :: "'m \<Rightarrow> bool"
    and dedicated :: "'m \<Rightarrow> bool"
    and now :: "'e \<Rightarrow> time"
    and fetch :: "'r \<Rightarrow> 'e \<Rightarrow> string \<Rightarrow> 'm result"
    and opn :: "'e \<Rightarrow> 'm \<Rightarrow> 'c result"
  assumes route_view:
      "view (fst (route r t e)) =
         fst (spec_route (ttl r) active dedicated (now e) (fetch r e t) (opn e) t (view r))"
    and route_answer:
      "snd (route r t e) =
         map_sum id (render r)
           (snd (spec_route (ttl r) active dedicated (now e) (fetch r e t) (opn e) t (view r)))"
    and invalidate_view: "view (invalidate r t) = spec_invalidate t (view r)"
    and route_config: "ttl (fst (route r t e)) = ttl r" "fetch (fst (route r t e)) = fetch r"
      "render (fst (route r t e)) = render r"
    and invalidate_config: "ttl (invalidate r t) = ttl r" "fetch (invalidate r t) = fetch r"
      "render (invalidate r t) = render r"
begin

lemma step_config:
  "ttl (router_event_step route invalidate r ev) = ttl r
   \<and> fetch (router_event_step route invalidate r ev) = fetch r
   \<and> render (router_event_step route invalidate r ev) = render r"
  by (cases ev) (simp_all add: route_config invalidate_config)

lemma run_config:
  "ttl (run_router route invalidate r evs) = ttl r \<and> fetch (run_router route invalidate r evs) = fetch r
   \<and> render (run_router route invalidate r evs) = render r"
  by (induction evs rule: rev_induct) (simp_all add: step_config)

lemma blank_shared: "TrimSpace t = '''' \<Longrightarrow> route r t e = (fst (route r t e), Inr (render r Unscoped))"
  by (rule prod_eqI) (simp_all add: route_answer spec_route_def)

lemma isolation:
  "t' \<noteq> t \<Longrightarrow> vcache (view (fst (route r t e))) t' = vcache (view r) t'
     \<and> vclients (view (fst (route r t e))) t' = vclients (view r) t'"
  by (simp add: route_view spec_route_frame)

lemma sticky: "vclients (view r) t' = Some c \<Longrightarrow> vclients (view (fst (route r t e))) t' = Some c"
  by (simp add: route_view spec_route_sticky)

lemma answer:
  assumes "TrimSpace t \<noteq> ''''"
  shows "snd (route r t e) =
     (case in_force (ttl r) (now e) (fetch r e t) t (view r) of
        Inl x \<Rightarrow> Inl x
      | Inr m \<Rightarrow>
          if \<not> active m then Inl ''tenant is inactive''
          else if \<not> dedicated m then Inr (render r (SharedBy t))
          else (case vclients (view r) t of
                  Some c \<Rightarrow> Inr (render r (Own m c))
                | None \<Rightarrow> (case opn e m of Inl x \<Rightarrow> Inl x | Inr c \<Rightarrow> Inr (render r (Own m c)))))"
  unfolding route_answer spec_route_result[OF assms] by (auto split: sum.splits option.splits)

text \<open>After an invalidation the next call fetches the metadata and opens a client anew.\<close>

text \<open>At the same time, a second call for the same tenant gives the same client.\<close>

lemma again:
  assumes "0 < ttl r" "is_ok (snd (route r t e))"
  shows "snd (route (fst (route r t e)) t e) = snd (route r t e)"
proof -
  obtain x where x: "snd (spec_route (ttl r) active dedicated (now e) (fetch r e t) (opn e) t (view r)) = Inr x"
    using assms(2) by (cases "snd (spec_route (ttl r) active dedicated (now e) (fetch r e t) (opn e) t (view r))") (simp_all add: route_answer)
  show ?thesis
    using spec_route_repeat[OF assms(1) x] x by (simp add: route_answer route_view route_config)
qed

lemma invalidate_refetch:
  assumes "TrimSpace t = t" "t \<noteq> ''''"
  shows "vcache (view (invalidate r t)) t = None \<and> vclients (view (invalidate r t)) t = None"
  using assms by (simp add: invalidate_view spec_invalidate_def)

lemma invalidate_frame:
  "t' \<noteq> TrimSpace t \<Longrightarrow> vcache (view (invalidate r t)) t' = vcache (view r) t'
     \<and> vclients (view (invalidate r t)) t' = vclients (view r) t'"
  by (simp add: invalidate_view spec_invalidate_def Let_def)

text \<open>
  Revocation: once the provider reports a tenant inactive (or fails) from time \<open>d\<close> on, no
  cached metadata fetched since then is active.
\<close>

lemma cache_revoked:
  assumes "\<And>m at. vcache (view r) t = Some (m, at) \<Longrightarrow> at \<ge> d \<Longrightarrow> \<not> active m"
    and "\<And>e m. Route t e \<in> set evs \<Longrightarrow> now e \<ge> d \<Longrightarrow> fetch r e t = Inr m \<Longrightarrow> \<not> active m"
    and "vcache (view (run_router route invalidate r evs)) t = Some (m, at)" and "at \<ge> d"
  shows "\<not> active m"
  using assms(2,3,4)
proof (induction evs arbitrary: m at rule: rev_induct)
  case Nil
  then show ?case using assms(1) by simp
next
  case (snoc ev evs)
  let ?r = "run_router route invalidate r evs"
  have old: "\<not> active m" if "vcache (view ?r) t = Some (m, at)"
    by (rule snoc.IH[OF _ that snoc.prems(3)]) (rule snoc.prems(1), auto)
  show ?case
  proof (cases ev)
    case (Route t' e)
    then show ?thesis
      using snoc.prems old spec_route_cache[of "ttl ?r" active dedicated "now e" "fetch ?r e t'" "opn e" t' "view ?r" t m at]
      by (auto simp: route_view run_config)
  next
    case (Invalidate t')
    then show ?thesis
      using snoc.prems old by (auto simp: invalidate_view spec_invalidate_def Let_def split: if_splits)
  qed
qed

lemma revoked:
  assumes "vcache (view r) t = None" "TrimSpace t \<noteq> ''''"
    and "\<And>e m. Route t e \<in> set evs \<Longrightarrow> now e \<ge> d \<Longrightarrow> fetch r e t = Inr m \<Longrightarrow> \<not> active m"
    and "\<And>m. fetch r e t = Inr m \<Longrightarrow> \<not> active m"
    and "now e \<ge> d + ttl r"
  shows "\<not> is_ok (snd (route (run_router route invalidate r evs) t e))"
proof -
  let ?r = "run_router route invalidate r evs"
  have "\<not> active m" if "in_force (ttl ?r) (now e) (fetch ?r e t) t (view ?r) = Inr m" for m
  proof (cases "\<exists>at. vcache (view ?r) t = Some (m, at) \<and> now e - at < ttl ?r")
    case True
    then obtain at where at: "vcache (view ?r) t = Some (m, at)" "now e - at < ttl ?r" by blast
    have "at \<ge> d" using at(2) assms(5) run_config[of r evs] by simp
    then show ?thesis using cache_revoked[of r t d evs m at] assms(1,3) at(1) by simp
  next
    case False
    then have "fetch r e t = Inr m"
      using that run_config[of r evs] by (auto simp: in_force_def split: option.splits if_splits)
    then show ?thesis by (rule assms(4))
  qed
  then show ?thesis
    using answer[OF assms(2), of ?r e] by (auto split: sum.splits)
qed

lemma new_client_event:
  assumes "vclients (view r) t \<noteq> Some c"
    and "vclients (view (run_router route invalidate r0 (evs @ [ev]))) t = Some c"
    and "r = run_router route invalidate r0 evs"
  obtains e where "ev = Route t e" "vclients (view r) t = None"
proof (cases ev)
  case (Route t' e)
  have "vclients (view r) t = None"
  proof (rule ccontr)
    assume "vclients (view r) t \<noteq> None"
    then obtain c' where "vclients (view r) t = Some c'" by auto
    with assms Route show False using sticky[of r t c' t' e] by simp
  qed
  moreover have "t' = t"
    using assms Route isolation[of t t' r e] by auto
  ultimately show ?thesis using Route that by blast
next
  case (Invalidate t')
  then show ?thesis
    using assms by (auto simp: invalidate_view spec_invalidate_def Let_def split: if_splits)
qed

lemma new_client_meta:
  assumes "vclients (view r) t = None" "vclients (view (fst (route r t e))) t = Some c"
  shows "\<exists>m. in_force (ttl r) (now e) (fetch r e t) t (view r) = Inr m
    \<and> active m \<and> dedicated m \<and> opn e m = Inr c"
  using assms spec_route_new_client[of "ttl r" active dedicated "now e" "fetch r e t" "opn e" t "view r" t c]
  by (simp add: route_view)

text \<open>
  Provenance: a dedicated client of a tenant was opened by a call for this tenant, from metadata
  that the provider reported for this tenant.
\<close>

lemma cache_provenance:
  assumes "vcache (view (run_router route invalidate r evs)) t = Some (m, at)"
    and "vcache (view r) t = None"
  shows "\<exists>e. Route t e \<in> set evs \<and> fetch r e t = Inr m"
  using assms
proof (induction evs rule: rev_induct)
  case (snoc ev evs)
  let ?r = "run_router route invalidate r evs"
  show ?case
  proof (cases "vcache (view ?r) t = Some (m, at)")
    case True
    then show ?thesis using snoc by auto
  next
    case False
    then show ?thesis
      using snoc.prems(1) run_config[of r evs]
      by (cases ev) (auto simp: route_view invalidate_view spec_invalidate_def Let_def split: if_splits
          dest!: spec_route_cache)
  qed
qed simp

lemma in_force_provenance:
  assumes "in_force (ttl r) (now e) (fetch r e t) t (view (run_router route invalidate r evs)) = Inr m"
    and "vcache (view r) t = None"
  shows "\<exists>e'. Route t e' \<in> set (evs @ [Route t e]) \<and> fetch r e' t = Inr m"
proof (cases "vcache (view (run_router route invalidate r evs)) t = None \<or> fetch r e t = Inr m")
  case True
  then show ?thesis using assms(1) by (auto simp: in_force_def)
next
  case False
  then obtain at where "vcache (view (run_router route invalidate r evs)) t = Some (m, at)"
    using assms(1) by (auto simp: in_force_def split: if_splits)
  then show ?thesis using cache_provenance[of r evs t m at] assms(2) by auto
qed

lemma provenance:
  assumes "vclients (view (run_router route invalidate r evs)) t = Some c"
    and "vclients (view r) t = None" and "vcache (view r) t = None"
  shows "\<exists>e e' m. Route t e \<in> set evs \<and> Route t e' \<in> set evs \<and> fetch r e' t = Inr m
    \<and> active m \<and> dedicated m \<and> opn e m = Inr c"
  using assms
proof (induction evs rule: rev_induct)
  case (snoc ev evs)
  let ?r = "run_router route invalidate r evs"
  show ?case
  proof (cases "vclients (view ?r) t = Some c")
    case True
    then have "\<exists>e e' m. Route t e \<in> set evs \<and> Route t e' \<in> set evs \<and> fetch r e' t = Inr m
        \<and> active m \<and> dedicated m \<and> opn e m = Inr c"
      using snoc.IH snoc.prems by blast
    then show ?thesis by auto
  next
    case new: False
    obtain e where ev: "ev = Route t e" and none: "vclients (view ?r) t = None"
      by (rule new_client_event[OF new snoc.prems(1) refl])
    from new_client_meta[OF none snoc.prems(1)[unfolded ev run_router_snoc router_event_step.simps]]
    obtain m where m: "in_force (ttl r) (now e) (fetch r e t) t (view ?r) = Inr m"
        "active m" "dedicated m" "opn e m = Inr c"
      using run_config[of r evs] by auto
    with in_force_provenance[OF m(1) snoc.prems(3)] show ?thesis
      unfolding ev by (metis in_set_conv_decomp)
  qed
qed simp

end

end
