(* ===== verification/Encoding.thy ===== *)
theory Encoding
  imports Prelude
begin

text \<open>
  The encodings of Go's standard library that the servers use on the wire: decimal numbers
  (\<open>fmt\<close>'s \<open>%d\<close>, \<open>strconv.Atoi\<close> and \<open>ParseInt\<close> with their 64-bit range checks), base64 with
  the URL alphabet and no padding (\<open>base64.RawURLEncoding\<close>) and \<open>strings.SplitN(s, sep, 2)\<close>.
  Each printer is proved to be undone by its parser.
\<close>

section \<open>Decimal numbers\<close>

definition digit_char :: "nat \<Rightarrow> char" where
  "digit_char d = char_of (48 + d)"

definition digit_val :: "char \<Rightarrow> nat option" where
  "digit_val c = (let n = of_char c in if 48 \<le> n \<and> n \<le> (57::nat) then Some (n - 48) else None)"

fun show_nat :: "nat \<Rightarrow> string" where
  "show_nat n = (if n < 10 then [digit_char n] else show_nat (n div 10) @ [digit_char (n mod 10)])"

declare show_nat.simps [simp del]

definition show_int :: "int \<Rightarrow> string" where
  "show_int i = (if i < 0 then ''-'' @ show_nat (nat (- i)) else show_nat (nat i))"

datatype num_error = ErrSyntax | ErrRange

abbreviation max_uint64 :: nat where "max_uint64 \<equiv> 2 ^ 64 - 1"

text \<open>The digit loop of \<open>strconv.ParseUint\<close>; the cut-off test comes before the multiplication.\<close>

fun parseUintLoop :: "nat \<Rightarrow> string \<Rightarrow> nat \<times> num_error option" where
  "parseUintLoop n [] = (n, None)"
| "parseUintLoop n (c # cs) =
     (case digit_val c of
        None \<Rightarrow> (0, Some ErrSyntax)
      | Some d \<Rightarrow>
          if max_uint64 div 10 + 1 \<le> n then (max_uint64, Some ErrRange)
          else if max_uint64 < n * 10 + d then (max_uint64, Some ErrRange)
          else parseUintLoop (n * 10 + d) cs)"

definition ParseUint :: "string \<Rightarrow> nat \<times> num_error option" where
  "ParseUint s = (if s = [] then (0, Some ErrSyntax) else parseUintLoop 0 s)"

text \<open>
  \<open>strconv.ParseInt(s, 10, 64)\<close>, which \<open>Atoi\<close> agrees with on a 64-bit platform: the value
  returned beside the error is 0 for a syntax error and the nearest bound for a range error.
\<close>

definition ParseInt :: "string \<Rightarrow> int \<times> num_error option" where
  "ParseInt s =
     (if s = [] then (0, Some ErrSyntax)
      else let neg = (hd s = CHR ''-'');
               body = (if hd s = CHR ''-'' \<or> hd s = CHR ''+'' then tl s else s) in
        case ParseUint body of
          (_, Some ErrSyntax) \<Rightarrow> (0, Some ErrSyntax)
        | (un, _) \<Rightarrow>
            if \<not> neg \<and> 2 ^ 63 \<le> un then (2 ^ 63 - 1, Some ErrRange)
            else if neg \<and> 2 ^ 63 < un then (- (2 ^ 63), Some ErrRange)
            else (if neg then - int un else int un, None))"

definition Atoi :: "string \<Rightarrow> int \<times> num_error option" where
  "Atoi s = ParseInt s"

lemma digit_val_char [simp]: "d < 10 \<Longrightarrow> digit_val (digit_char d) = Some d"
  by (simp add: digit_val_def digit_char_def Let_def)

lemma digit_char_sign: "d < 10 \<Longrightarrow> digit_char d \<noteq> CHR ''-'' \<and> digit_char d \<noteq> CHR ''+''"
  by (auto simp: digit_char_def dest!: arg_cong[where f = "of_char :: char \<Rightarrow> nat"])

lemma digit_char_colon: "d < 10 \<Longrightarrow> digit_char d \<noteq> CHR '':''"
  by (auto simp: digit_char_def dest!: arg_cong[where f = "of_char :: char \<Rightarrow> nat"])

lemma show_nat_Nil [simp]: "show_nat n \<noteq> []"
  by (subst show_nat.simps) simp

lemma show_nat_digits: "c \<in> set (show_nat n) \<Longrightarrow> \<exists>d < 10. c = digit_char d"
proof (induction n rule: show_nat.induct)
  case (1 n)
  have "\<exists>d < 10. digit_char (n mod 10) = digit_char d"
    by (rule exI[of _ "n mod 10"]) simp
  with 1 show ?case
    by (cases "n < 10") (auto simp: show_nat.simps[of n])
qed

lemma parseUintLoop_append:
  "parseUintLoop n xs = (m, None) \<Longrightarrow> parseUintLoop n (xs @ ys) = parseUintLoop m ys"
  by (induction xs arbitrary: n) (auto split: option.splits if_splits)

lemma parseUintLoop_show: "n \<le> max_uint64 \<Longrightarrow> parseUintLoop 0 (show_nat n) = (n, None)"
proof (induction n rule: show_nat.induct)
  case (1 n)
  show ?case
  proof (cases "n < 10")
    case True
    then show ?thesis by (simp add: show_nat.simps[of n])
  next
    case False
    have "n div 10 \<le> max_uint64 div 10" using "1.prems" by (rule div_le_mono)
    moreover have "parseUintLoop 0 (show_nat (n div 10)) = (n div 10, None)"
      using 1 False by simp
    moreover have "n div 10 * 10 + n mod 10 = n" by simp
    ultimately show ?thesis
      using False "1.prems" by (simp add: show_nat.simps[of n] parseUintLoop_append)
  qed
qed

lemma ParseUint_show: "n \<le> max_uint64 \<Longrightarrow> ParseUint (show_nat n) = (n, None)"
  by (simp add: ParseUint_def parseUintLoop_show)

lemma hd_show_nat: "hd (show_nat n) \<noteq> CHR ''-'' \<and> hd (show_nat n) \<noteq> CHR ''+''"
  using show_nat_digits[of "hd (show_nat n)" n] digit_char_sign by (metis hd_in_set show_nat_Nil)

definition in_int64 :: "int \<Rightarrow> bool" where
  "in_int64 i \<longleftrightarrow> - (2 ^ 63) \<le> i \<and> i < 2 ^ 63"

lemma ParseInt_show:
  assumes "in_int64 i"
  shows "ParseInt (show_int i) = (i, None)"
proof (cases "i < 0")
  case True
  have "ParseUint (show_nat (nat (- i))) = (nat (- i), None)"
    using assms by (intro ParseUint_show) (simp add: in_int64_def nat_le_iff)
  moreover have "\<not> 2 ^ 63 < nat (- i)"
    using assms by (simp add: in_int64_def not_less nat_le_iff)
  ultimately show ?thesis using True by (simp add: ParseInt_def show_int_def)
next
  case False
  have "ParseUint (show_nat (nat i)) = (nat i, None)"
    using assms by (intro ParseUint_show) (simp add: in_int64_def nat_le_iff)
  moreover have "\<not> 2 ^ 63 \<le> nat i"
    using assms False by (simp add: in_int64_def not_le nat_less_iff)
  ultimately show ?thesis
    using False hd_show_nat[of "nat i"] by (simp add: ParseInt_def show_int_def Let_def)
qed

lemma colon_notin_show_int: "CHR '':'' \<notin> set (show_int i)"
  using show_nat_digits digit_char_colon by (auto simp: show_int_def) metis+

lemma ParseInt_in_int64: "in_int64 (fst (ParseInt s))"
  by (auto simp: ParseInt_def in_int64_def Let_def split: prod.splits option.splits num_error.splits)

section \<open>Splitting at the first separator\<close>

text \<open>\<open>strings.SplitN(s, string(sep), 2)\<close> for a one-byte separator.\<close>

fun splitFirst :: "char \<Rightarrow> string \<Rightarrow> (string \<times> string) option" where
  "splitFirst sep [] = None"
| "splitFirst sep (c # s) =
     (if c = sep then Some ([], s) else map_option (\<lambda>(a, b). (c # a, b)) (splitFirst sep s))"

definition SplitN2 :: "string \<Rightarrow> char \<Rightarrow> string list" where
  "SplitN2 s sep = (case splitFirst sep s of None \<Rightarrow> [s] | Some (a, b) \<Rightarrow> [a, b])"

lemma splitFirst_append: "sep \<notin> set a \<Longrightarrow> splitFirst sep (a @ sep # b) = Some (a, b)"
  by (induction a) auto

lemma sep_unique:
  assumes "(sep :: char) \<notin> set a" "sep \<notin> set b"
  shows "a @ sep # x = b @ sep # y \<longleftrightarrow> a = b \<and> x = y"
proof
  assume "a @ sep # x = b @ sep # y"
  from arg_cong[OF this, of "splitFirst sep"] show "a = b \<and> x = y"
    by (simp add: splitFirst_append assms)
qed simp

lemma SplitN2_append: "sep \<notin> set a \<Longrightarrow> SplitN2 (a @ sep # b) sep = [a, b]"
  by (simp add: SplitN2_def splitFirst_append)

text \<open>\<open>strings.Split(s, string(sep))\<close>: all fields.\<close>

fun Split :: "string \<Rightarrow> char \<Rightarrow> string list" where
  "Split [] sep = [[]]"
| "Split (c # s) sep =
     (if c = sep then [] # Split s sep
      else case Split s sep of [] \<Rightarrow> [[c]] | f # fs \<Rightarrow> (c # f) # fs)"

lemma Split_nonempty: "Split s sep \<noteq> []"
  by (cases s) (auto split: list.splits)

section \<open>Base64, URL alphabet, no padding\<close>

text \<open>The alphabet \<open>A..Z a..z 0..9 - _\<close> by character codes.\<close>

definition b64_char :: "nat \<Rightarrow> char" where
  "b64_char k = char_of
     (if k < 26 then k + 65 else if k < 52 then k + 71 else if k < 62 then k - 4
      else if k = 62 then 45 else (95::nat))"

definition b64_val :: "char \<Rightarrow> nat option" where
  "b64_val c = (let n = of_char c in
     if 65 \<le> n \<and> n \<le> 90 then Some (n - 65)
     else if 97 \<le> n \<and> n \<le> 122 then Some (n - 71)
     else if 48 \<le> n \<and> n \<le> 57 then Some (n + 4)
     else if n = 45 then Some 62
     else if n = (95::nat) then Some 63
     else None)"

abbreviation byte :: "char \<Rightarrow> nat" where "byte \<equiv> of_char"

fun EncodeToString :: "string \<Rightarrow> string" where
  "EncodeToString [] = []"
| "EncodeToString [a] =
     [b64_char (byte a div 4), b64_char (byte a mod 4 * 16)]"
| "EncodeToString [a, b] =
     [b64_char (byte a div 4), b64_char (byte a mod 4 * 16 + byte b div 16),
      b64_char (byte b mod 16 * 4)]"
| "EncodeToString (a # b # c # s) =
     [b64_char (byte a div 4), b64_char (byte a mod 4 * 16 + byte b div 16),
      b64_char (byte b mod 16 * 4 + byte c div 64), b64_char (byte c mod 64)] @ EncodeToString s"

text \<open>The decoder on 6-bit values; the unused low bits of a short last group are ignored.\<close>

fun b64_groups :: "nat list \<Rightarrow> string option" where
  "b64_groups [] = Some []"
| "b64_groups [p] = None"
| "b64_groups [p, q] = Some [char_of (p * 4 + q div 16)]"
| "b64_groups [p, q, r] = Some [char_of (p * 4 + q div 16), char_of (q mod 16 * 16 + r div 4)]"
| "b64_groups (p # q # r # t # vs) =
     map_option (\<lambda>s. [char_of (p * 4 + q div 16), char_of (q mod 16 * 16 + r div 4),
                      char_of (r mod 4 * 64 + t)] @ s) (b64_groups vs)"

text \<open>\<open>DecodeString\<close> skips carriage returns and line feeds and rejects every other foreign byte.\<close>

definition DecodeString :: "string \<Rightarrow> string option" where
  "DecodeString s =
     (let body = filter (\<lambda>c. c \<noteq> CHR 0x0A \<and> c \<noteq> CHR 0x0D) s in
      case those (map b64_val body) of None \<Rightarrow> None | Some vs \<Rightarrow> b64_groups vs)"

lemma b64_val_char [simp]: "k < 64 \<Longrightarrow> b64_val (b64_char k) = Some k"
  unfolding b64_val_def b64_char_def Let_def
  by (cases "k < 26"; cases "k < 52"; cases "k < 62"; cases "k = 62") auto

lemma b64_char_no_newline [simp]: "b64_char k \<noteq> CHR 0x0A \<and> b64_char k \<noteq> CHR 0x0D"
  by (auto simp: b64_char_def split: if_splits dest!: arg_cong[where f = "of_char :: char \<Rightarrow> nat"])

fun b64_sextets :: "string \<Rightarrow> nat list" where
  "b64_sextets [] = []"
| "b64_sextets [a] = [byte a div 4, byte a mod 4 * 16]"
| "b64_sextets [a, b] = [byte a div 4, byte a mod 4 * 16 + byte b div 16, byte b mod 16 * 4]"
| "b64_sextets (a # b # c # s) =
     [byte a div 4, byte a mod 4 * 16 + byte b div 16, byte b mod 16 * 4 + byte c div 64,
      byte c mod 64] @ b64_sextets s"

lemma EncodeToString_sextets: "EncodeToString s = map b64_char (b64_sextets s)"
  by (induction s rule: EncodeToString.induct) auto

lemma byte_div [simp]:
  "byte c div 4 < 64" "byte c div 16 < 16" "byte c div 64 < 4"
  by (simp_all add: less_mult_imp_div_less)

lemma byte_div_div [simp]:
  "byte c div 16 div 16 = 0" "byte c div 64 div 4 = 0"
  "byte c div 16 mod 16 = byte c div 16" "byte c div 64 mod 4 = byte c div 64"
  by (simp_all del: div_eq_0_iff add: div_less)

lemma b64_parts:
  "byte a mod 4 * 16 + byte b div 16 < 64" "byte b mod 16 * 4 + byte c div 64 < 64"
proof -
  have "byte a mod 4 < 4" "byte b div 16 < 16" "byte b mod 16 < 16" "byte c div 64 < 4"
    by simp_all
  then show "byte a mod 4 * 16 + byte b div 16 < 64" "byte b mod 16 * 4 + byte c div 64 < 64"
    by linarith+
qed

lemma b64_sextets_bound: "v \<in> set (b64_sextets s) \<Longrightarrow> v < 64"
proof (induction s rule: b64_sextets.induct)
  case (2 a)
  then show ?case using b64_parts(1)[of a "CHR 0x00"] by auto
next
  case (3 a b)
  then show ?case using b64_parts(1)[of a b] b64_parts(2)[of b "CHR 0x00"] by auto
next
  case (4 a b c s)
  then show ?case using b64_parts(1)[of a b] b64_parts(2)[of b c] by auto
qed simp

lemma b64_groups_sextets: "b64_groups (b64_sextets s) = Some s"
  by (induction s rule: b64_sextets.induct) simp_all

lemma those_map_Some: "(\<And>x. x \<in> set xs \<Longrightarrow> f x = Some (g x)) \<Longrightarrow> those (map f xs) = Some (map g xs)"
  by (induction xs) auto

theorem DecodeString_EncodeToString: "DecodeString (EncodeToString s) = Some s"
proof -
  have "filter (\<lambda>c. c \<noteq> CHR 0x0A \<and> c \<noteq> CHR 0x0D) (EncodeToString s) = EncodeToString s"
    by (auto simp: EncodeToString_sextets intro!: filter_True)
  moreover have "those (map b64_val (EncodeToString s)) = Some (map id (b64_sextets s))"
    unfolding EncodeToString_sextets map_map
    by (rule those_map_Some) (auto dest: b64_sextets_bound)
  ultimately show ?thesis by (simp add: DecodeString_def b64_groups_sextets)
qed

lemma EncodeToString_inj: "EncodeToString s = EncodeToString t \<longleftrightarrow> s = t"
  by (metis DecodeString_EncodeToString option.inject)

end
