(* ===== verification/DbmanClient.thy ===== *)
theory DbmanClient
  imports Env "HOL-Library.Word"
begin

text \<open>
  Package \<open>server/common/infra/dbman\<close> (\<open>client.go\<close>): the HTTP client every server uses to reach
  the data base service. It rotates over the configured endpoints, retries the next endpoint
  after a transport failure or a 5xx status, and takes an endpoint out of rotation for a
  cool-down time after \<open>failThreshold\<close> failures.

  The record \<open>Client\<close> has the fields of the Go struct; the \<open>uint32\<close> counter \<open>next\<close> is a 32-bit
  word. What the network and the clock do during one call of \<open>Post\<close> is an argument: a
  \<open>probe\<close> for each offset of the loop, with the two readings of \<open>time.Now\<close> and the outcome
  of the request as a function of its URL and body.
\<close>

record Client =
  endpoints :: "string list"
  nextCnt :: "32 word"
  failThreshold :: int
  endpointCooldown :: time
  failureCnt :: "string \<rightharpoonup> int"
  cooldownTo :: "string \<rightharpoonup> time"

definition BasePath :: string where
  "BasePath = ''/api/internal/v1/db''"

section \<open>Construction\<close>

definition trimRightSlash :: "string \<Rightarrow> string" where
  "trimRightSlash s = rev (dropWhile (\<lambda>c. c = CHR ''/'') (rev s))"

definition normalizeEndpoints :: "string list \<Rightarrow> string list" where
  "normalizeEndpoints es = seen_loop (\<lambda>e. trimRightSlash (TrimSpace e)) [] [] es"

definition intFromEnv :: "environ \<Rightarrow> string \<Rightarrow> int \<Rightarrow> int" where
  "intFromEnv getenv key fallback =
     (let v = TrimSpace (getenv key) in
      if v = '''' then fallback
      else case Atoi v of
          (n, None) \<Rightarrow> if n \<le> 0 then fallback else n
        | (_, Some _) \<Rightarrow> fallback)"

text \<open>\<open>time.Duration(n) * time.Millisecond\<close> is an \<open>int64\<close> product and wraps around.\<close>

definition durationFromEnvMillis :: "environ \<Rightarrow> string \<Rightarrow> time \<Rightarrow> time" where
  "durationFromEnvMillis getenv key fallback =
     (let v = TrimSpace (getenv key) in
      if v = '''' then fallback
      else case Atoi v of
          (n, None) \<Rightarrow> if n \<le> 0 then fallback else wrap64 (n * 1000000)
        | (_, Some _) \<Rightarrow> fallback)"

definition defaultFailThreshold :: int where
  "defaultFailThreshold = 3"

definition defaultEndpointCooldown :: time where
  "defaultEndpointCooldown = 10 * 1000000000"

definition NewClientWithEndpoints :: "environ \<Rightarrow> string list \<Rightarrow> Client" where
  "NewClientWithEndpoints getenv es = \<lparr>
     endpoints = normalizeEndpoints es,
     nextCnt = 0,
     failThreshold = intFromEnv getenv ''DBMAN_FAIL_THRESHOLD'' defaultFailThreshold,
     endpointCooldown = durationFromEnvMillis getenv ''DBMAN_COOLDOWN_MS'' defaultEndpointCooldown,
     failureCnt = Map.empty,
     cooldownTo = Map.empty\<rparr>"

section \<open>The circuit breaker\<close>

definition isCoolingDown :: "Client \<Rightarrow> string \<Rightarrow> time \<Rightarrow> bool \<times> Client" where
  "isCoolingDown c endpoint now =
     (case cooldownTo c endpoint of
        None \<Rightarrow> (False, c)
      | Some until \<Rightarrow>
          if until < now then (False, c\<lparr>cooldownTo := (cooldownTo c)(endpoint := None)\<rparr>)
          else (True, c))"

definition failures :: "Client \<Rightarrow> string \<Rightarrow> int" where
  "failures c endpoint = (case failureCnt c endpoint of None \<Rightarrow> 0 | Some n \<Rightarrow> n)"

definition onFailure :: "Client \<Rightarrow> string \<Rightarrow> time \<Rightarrow> Client" where
  "onFailure c endpoint now =
     (let count = failures c endpoint + 1;
          c' = c\<lparr>failureCnt := (failureCnt c)(endpoint \<mapsto> count)\<rparr> in
      if failThreshold c' \<le> count
      then c'\<lparr>cooldownTo := (cooldownTo c')(endpoint \<mapsto> now + endpointCooldown c'),
              failureCnt := (failureCnt c')(endpoint \<mapsto> 0)\<rparr>
      else c')"

definition onSuccess :: "Client \<Rightarrow> string \<Rightarrow> Client" where
  "onSuccess c endpoint =
     c\<lparr>failureCnt := (failureCnt c)(endpoint \<mapsto> 0),
       cooldownTo := (cooldownTo c)(endpoint := None)\<rparr>"

section \<open>Post\<close>

text \<open>
  The outcome of one attempt: the request could not be built, the transport failed, or a
  response came with a status and the result of decoding its body.
\<close>

datatype 'a outcome = ReqErr string | DoErr string | Resp int "'a result"

record 'a probe =
  checkAt :: time
  send :: "string \<Rightarrow> string \<Rightarrow> 'a outcome"
  doneAt :: time

definition err_do :: "string \<Rightarrow> string \<Rightarrow> string" where
  "err_do endpoint e = ''dbman request failed endpoint='' @ endpoint @ '': '' @ e"

definition err_status :: "int \<Rightarrow> string \<Rightarrow> string" where
  "err_status code endpoint = ''dbman status '' @ show_int code @ '' endpoint='' @ endpoint"

text \<open>
  One pass of the loop's body after the cool-down test: the client, whether the loop goes on
  (with the error to remember) or returns, and the URL of the request if one was sent.
\<close>

datatype 'a verdict = Retry string | Return "'a result"

definition attempt ::
  "Client \<Rightarrow> string \<Rightarrow> string \<Rightarrow> string \<Rightarrow> 'a probe \<Rightarrow> Client \<times> 'a verdict \<times> string list" where
  "attempt c endpoint path body p =
     (let url = endpoint @ path in
      case send p url body of
        ReqErr e \<Rightarrow> (onFailure c endpoint (doneAt p), Retry e, [])
      | DoErr e \<Rightarrow> (onFailure c endpoint (doneAt p), Retry (err_do endpoint e), [url])
      | Resp code decoded \<Rightarrow>
          if 500 \<le> code
          then (onFailure c endpoint (doneAt p), Retry (err_status code endpoint), [url])
          else if 300 \<le> code then (c, Return (Inl (err_status code endpoint)), [url])
          else (case decoded of
                  Inl e \<Rightarrow> (onFailure c endpoint (doneAt p), Return (Inl e), [url])
                | Inr out \<Rightarrow> (onSuccess c endpoint, Return (Inr out), [url])))"

lemma isCoolingDown_endpoints [simp]: "endpoints (snd (isCoolingDown c e t)) = endpoints c"
  by (auto simp: isCoolingDown_def split: option.splits)

lemma onFailure_endpoints [simp]: "endpoints (onFailure c e t) = endpoints c"
  by (simp add: onFailure_def Let_def)

lemma onSuccess_endpoints [simp]: "endpoints (onSuccess c e) = endpoints c"
  by (simp add: onSuccess_def)

lemma attempt_endpoints [simp]: "endpoints (fst (attempt c e path body p)) = endpoints c"
  by (auto simp: attempt_def Let_def split: outcome.splits sum.splits)

text \<open>
  The loop of \<open>Post\<close> from \<open>offset\<close> on. Besides the client and the result it returns the URLs
  of the requests that were sent, in order.
\<close>

function postLoop ::
  "Client \<Rightarrow> string \<Rightarrow> string \<Rightarrow> nat \<Rightarrow> (nat \<Rightarrow> 'a probe) \<Rightarrow> string option \<Rightarrow> nat
   \<Rightarrow> Client \<times> 'a result \<times> string list" where
  "postLoop c path body start env lastErr offset =
     (if offset < length (endpoints c) then
        let endpoint = endpoints c ! ((start + offset) mod length (endpoints c));
            cool = isCoolingDown c endpoint (checkAt (env offset)) in
        if fst cool then postLoop (snd cool) path body start env lastErr (Suc offset)
        else let att = attempt (snd cool) endpoint path body (env offset) in
          case fst (snd att) of
            Retry e \<Rightarrow>
              (let (c', r, sent) = postLoop (fst att) path body start env (Some e) (Suc offset)
               in (c', r, snd (snd att) @ sent))
          | Return r \<Rightarrow> (fst att, r, snd (snd att))
      else (c, case lastErr of None \<Rightarrow> Inl ''dbman request failed'' | Some e \<Rightarrow> Inl e, []))"
  by pat_completeness auto
termination postLoop
  by (relation "measure (\<lambda>(c, path, body, start, env, lastErr, offset).
        length (endpoints c) - offset)") auto

declare postLoop.simps [simp del]


text \<open>
  \<open>Post\<close>; \<open>payload\<close> is what \<open>json.Marshal\<close> returned. The start index is
  \<open>int(atomic.AddUint32(&c.next, 1) - 1) % len(c.endpoints)\<close>.
\<close>

definition Post ::
  "Client \<Rightarrow> string \<Rightarrow> string result \<Rightarrow> (nat \<Rightarrow> 'a probe) \<Rightarrow> Client \<times> 'a result \<times> string list" where
  "Post c path payload env =
     (if length (endpoints c) = 0 then (c, Inl ''dbman endpoint is not configured'', [])
      else case payload of
        Inl e \<Rightarrow> (c, Inl e, [])
      | Inr body \<Rightarrow>
          let normalizedPath = (if HasPrefix path ''/'' then path else ''/'' @ path);
              c' = c\<lparr>nextCnt := nextCnt c + 1\<rparr>;
              start = unat (nextCnt c' - 1) mod length (endpoints c)
          in postLoop c' normalizedPath body start env None 0)"

section \<open>Reference semantics of one call\<close>

definition cooling :: "Client \<Rightarrow> string \<Rightarrow> time \<Rightarrow> bool" where
  "cooling c e t = (case cooldownTo c e of None \<Rightarrow> False | Some until \<Rightarrow> t \<le> until)"

definition verdictOf :: "string \<Rightarrow> string \<Rightarrow> string \<Rightarrow> 'a probe \<Rightarrow> 'a verdict" where
  "verdictOf e path body p =
     (case send p (e @ path) body of
        ReqErr x \<Rightarrow> Retry x
      | DoErr x \<Rightarrow> Retry (err_do e x)
      | Resp code decoded \<Rightarrow>
          if 500 \<le> code then Retry (err_status code e)
          else if 300 \<le> code then Return (Inl (err_status code e))
          else Return decoded)"

fun is_Return :: "'a verdict \<Rightarrow> bool" where
  "is_Return (Return _) = True"
| "is_Return (Retry _) = False"

text \<open>The answer that a list of verdicts of live endpoints leads to.\<close>

definition decision :: "string option \<Rightarrow> 'a verdict list \<Rightarrow> 'a result" where
  "decision lastErr vs =
     (case filter is_Return vs of
        Return r # _ \<Rightarrow> r
      | _ \<Rightarrow> (case rev vs of
                Retry e # _ \<Rightarrow> Inl e
              | _ \<Rightarrow> (case lastErr of None \<Rightarrow> Inl ''dbman request failed'' | Some e \<Rightarrow> Inl e)))"

definition tryOrder :: "Client \<Rightarrow> string list" where
  "tryOrder c = rotate (unat (nextCnt c) mod length (endpoints c)) (endpoints c)"

definition slashed :: "string \<Rightarrow> string" where
  "slashed path = (if HasPrefix path ''/'' then path else ''/'' @ path)"

definition live :: "Client \<Rightarrow> (nat \<Rightarrow> 'a probe) \<Rightarrow> nat list" where
  "live c env = filter (\<lambda>i. \<not> cooling c (tryOrder c ! i) (checkAt (env i))) [0..<length (endpoints c)]"

section \<open>Lemmas on the parts\<close>

lemma fst_isCoolingDown [simp]: "fst (isCoolingDown c e t) = cooling c e t"
  by (auto simp: isCoolingDown_def cooling_def split: option.splits)

lemma isCoolingDown_frame: "e' \<noteq> e \<Longrightarrow> cooldownTo (snd (isCoolingDown c e t)) e' = cooldownTo c e'"
  by (auto simp: isCoolingDown_def split: option.splits)

lemma onFailure_frame: "e' \<noteq> e \<Longrightarrow> cooldownTo (onFailure c e t) e' = cooldownTo c e'"
  by (simp add: onFailure_def Let_def)

lemma onSuccess_frame: "e' \<noteq> e \<Longrightarrow> cooldownTo (onSuccess c e) e' = cooldownTo c e'"
  by (simp add: onSuccess_def)

lemma attempt_frame: "e' \<noteq> e \<Longrightarrow> cooldownTo (fst (attempt c e path body p)) e' = cooldownTo c e'"
  by (auto simp: attempt_def Let_def onFailure_frame onSuccess_frame split: outcome.splits sum.splits)

lemma attempt_verdict: "fst (snd (attempt c e path body p)) = verdictOf e path body p"
  by (auto simp: attempt_def Let_def verdictOf_def split: outcome.splits sum.splits)

lemma attempt_sent: "snd (snd (attempt c e path body p)) \<in> {[], [e @ path]}"
  by (auto simp: attempt_def Let_def split: outcome.splits sum.splits)

lemma is_Return_iff: "is_Return v \<longleftrightarrow> (\<exists>r. v = Return r)"
  by (cases v) auto

lemma decision_found:
  assumes "filter is_Return vs = v # rest"
  shows "\<exists>r. v = Return r \<and> decision lastErr vs = r"
proof -
  have "v \<in> set (filter is_Return vs)" using assms by simp
  then obtain r where "v = Return r" by (auto simp: is_Return_iff)
  then show ?thesis using assms by (simp add: decision_def)
qed

lemma decision_none:
  assumes "filter is_Return vs = []" "vs \<noteq> []"
  shows "\<exists>e. last vs = Retry e \<and> decision lastErr vs = Inl e"
proof -
  have "\<not> is_Return (last vs)" using assms by (simp add: filter_empty_conv)
  then obtain e where e: "last vs = Retry e" by (cases "last vs") auto
  obtain ys where "vs = ys @ [Retry e]"
    using e assms(2) by (metis append_butlast_last_id)
  with assms(1) e show ?thesis by (simp add: decision_def)
qed

lemma decision_Retry: "decision lastErr (Retry e # vs) = decision (Some e) vs"
proof (cases "filter is_Return vs")
  case Nil
  then show ?thesis
    using decision_none[of vs "Some e"] decision_none[of "Retry e # vs" lastErr]
    by (cases "vs = []") (auto simp: decision_def)
next
  case (Cons v rest)
  then show ?thesis
    using decision_found[of vs v rest "Some e"] decision_found[of "Retry e # vs" v rest lastErr] by auto
qed

lemma decision_Return [simp]: "decision lastErr (Return r # vs) = r"
  by (simp add: decision_def)

lemma decision_Nil [simp]:
  "decision lastErr [] = (case lastErr of None \<Rightarrow> Inl ''dbman request failed'' | Some e \<Rightarrow> Inl e)"
  by (simp add: decision_def)

lemma nth_mod_distinct:
  assumes "distinct xs" "i < length xs" "j < length xs" "i \<noteq> j"
  shows "xs ! ((k + i) mod length xs) \<noteq> xs ! ((k + j) mod length xs)"
  using assms by (metis distinct_rotate length_rotate nth_eq_iff_index_eq nth_rotate)

text \<open>The four ways one pass of the loop can go.\<close>

abbreviation epAt :: "Client \<Rightarrow> nat \<Rightarrow> nat \<Rightarrow> string" where
  "epAt c start i \<equiv> endpoints c ! ((start + i) mod length (endpoints c))"

lemma postLoop_end:
  "\<not> offset < length (endpoints c) \<Longrightarrow> postLoop c path body start env lastErr offset =
     (c, case lastErr of None \<Rightarrow> Inl ''dbman request failed'' | Some e \<Rightarrow> Inl e, [])"
  by (simp add: postLoop.simps[of c])

lemma postLoop_skip:
  assumes "offset < length (endpoints c)" "cooling c (epAt c start offset) (checkAt (env offset))"
  shows "postLoop c path body start env lastErr offset =
     postLoop (snd (isCoolingDown c (epAt c start offset) (checkAt (env offset))))
       path body start env lastErr (Suc offset)"
  using assms by (simp add: postLoop.simps[of c])

definition afterTry :: "Client \<Rightarrow> string \<Rightarrow> string \<Rightarrow> string \<Rightarrow> 'a probe \<Rightarrow> Client" where
  "afterTry c e path body p = fst (attempt (snd (isCoolingDown c e (checkAt p))) e path body p)"

definition sentBy :: "Client \<Rightarrow> string \<Rightarrow> string \<Rightarrow> string \<Rightarrow> 'a probe \<Rightarrow> string list" where
  "sentBy c e path body p = snd (snd (attempt (snd (isCoolingDown c e (checkAt p))) e path body p))"

lemma postLoop_return:
  assumes "offset < length (endpoints c)" "\<not> cooling c (epAt c start offset) (checkAt (env offset))"
    "verdictOf (epAt c start offset) path body (env offset) = Return r"
  shows "postLoop c path body start env lastErr offset =
     (afterTry c (epAt c start offset) path body (env offset), r,
      sentBy c (epAt c start offset) path body (env offset))"
  using assms by (simp add: postLoop.simps[of c] attempt_verdict Let_def afterTry_def sentBy_def)

lemma postLoop_retry:
  assumes "offset < length (endpoints c)" "\<not> cooling c (epAt c start offset) (checkAt (env offset))"
    "verdictOf (epAt c start offset) path body (env offset) = Retry x"
  defines "next \<equiv> postLoop (afterTry c (epAt c start offset) path body (env offset))
                    path body start env (Some x) (Suc offset)"
  shows "postLoop c path body start env lastErr offset =
     (fst next, fst (snd next), sentBy c (epAt c start offset) path body (env offset) @ snd (snd next))"
  using assms(1-3)
  by (simp add: next_def postLoop.simps[of c] attempt_verdict Let_def afterTry_def sentBy_def
        case_prod_unfold)

lemma afterTry_endpoints [simp]: "endpoints (afterTry c e path body p) = endpoints c"
  by (simp add: afterTry_def)

lemma afterTry_frame: "e' \<noteq> e \<Longrightarrow> cooldownTo (afterTry c e path body p) e' = cooldownTo c e'"
  by (simp add: afterTry_def attempt_frame isCoolingDown_frame)

lemma sentBy_cases: "sentBy c e path body p \<in> {[], [e @ path]}"
  unfolding sentBy_def by (rule attempt_sent)

text \<open>
  Induction over the passes: it suffices to follow the loop through a skip and a retry.
\<close>

lemma postLoop_pass_induct [case_names End Skip Return Retry]:
  assumes "\<And>c lastErr offset. \<not> offset < length (endpoints c) \<Longrightarrow> P c lastErr offset"
    and "\<And>c lastErr offset. offset < length (endpoints c)
      \<Longrightarrow> cooling c (epAt c start offset) (checkAt (env offset))
      \<Longrightarrow> P (snd (isCoolingDown c (epAt c start offset) (checkAt (env offset)))) lastErr (Suc offset)
      \<Longrightarrow> P c lastErr offset"
    and "\<And>c lastErr offset r. offset < length (endpoints c)
      \<Longrightarrow> \<not> cooling c (epAt c start offset) (checkAt (env offset))
      \<Longrightarrow> verdictOf (epAt c start offset) path body (env offset) = Return r \<Longrightarrow> P c lastErr offset"
    and "\<And>c lastErr offset x. offset < length (endpoints c)
      \<Longrightarrow> \<not> cooling c (epAt c start offset) (checkAt (env offset))
      \<Longrightarrow> verdictOf (epAt c start offset) path body (env offset) = Retry x
      \<Longrightarrow> P (afterTry c (epAt c start offset) path body (env offset)) (Some x) (Suc offset)
      \<Longrightarrow> P c lastErr offset"
  shows "P c lastErr offset"
proof (induction "length (endpoints c) - offset" arbitrary: c lastErr offset rule: less_induct)
  case less
  show ?case
  proof (cases "offset < length (endpoints c)")
    case False
    then show ?thesis by (rule assms(1))
  next
    case in_range: True
    show ?thesis
    proof (cases "cooling c (epAt c start offset) (checkAt (env offset))")
      case True
      then show ?thesis
        by (rule assms(2)[OF in_range]) (rule less, use in_range in simp)
    next
      case not_cooling: False
      show ?thesis
      proof (cases "verdictOf (epAt c start offset) path body (env offset)")
        case (Retry x)
        show ?thesis
          by (rule assms(4)[OF in_range not_cooling Retry]) (rule less, use in_range in simp)
      next
        case (Return r)
        with in_range not_cooling show ?thesis by (rule assms(3))
      qed
    qed
  qed
qed

text \<open>
  The loop from any offset: the endpoints still ahead have the cool-down entries they had at
  the start, because the passes before touched other endpoints only.
\<close>

lemma live_cong:
  assumes "distinct (endpoints c)" "endpoints c' = endpoints c" "k < length (endpoints c)"
    and "\<And>e. e \<noteq> epAt c start k \<Longrightarrow> cooldownTo c' e = cooldownTo c e"
  shows "filter (\<lambda>i. \<not> cooling c' (epAt c' start i) (t i)) [Suc k..<length (endpoints c')]
       = filter (\<lambda>i. \<not> cooling c (epAt c start i) (t i)) [Suc k..<length (endpoints c)]"
proof -
  have "cooling c' (epAt c' start i) (t i) = cooling c (epAt c start i) (t i)"
    if "i \<in> set [Suc k..<length (endpoints c)]" for i
    using that assms nth_mod_distinct[of "endpoints c" i k start] by (simp add: cooling_def)
  then show ?thesis using assms(2) by (auto intro: filter_cong)
qed

lemma upt_step: "k < n \<Longrightarrow> [k..<n] = k # [Suc k..<n]"
  by (rule upt_conv_Cons)

lemma postLoop_result:
  assumes "distinct (endpoints c)"
  shows "fst (snd (postLoop c path body start env lastErr offset)) =
    decision lastErr (map (\<lambda>i. verdictOf (epAt c start i) path body (env i))
      (filter (\<lambda>i. \<not> cooling c (epAt c start i) (checkAt (env i))) [offset..<length (endpoints c)]))"
  using assms
proof (induction c lastErr offset
    rule: postLoop_pass_induct[where start = start and env = env and path = path and body = body])
  case (End c lastErr offset)
  then show ?case by (simp add: postLoop_end)
next
  case (Skip c lastErr offset)
  let ?c' = "snd (isCoolingDown c (epAt c start offset) (checkAt (env offset)))"
  show ?case
    using Skip live_cong[of c ?c' offset start "\<lambda>i. checkAt (env i)"]
    by (simp add: postLoop_skip upt_step isCoolingDown_frame)
next
  case (Return c lastErr offset r)
  then show ?case by (simp add: postLoop_return upt_step)
next
  case (Retry c lastErr offset x)
  let ?c' = "afterTry c (epAt c start offset) path body (env offset)"
  show ?case
    using Retry live_cong[of c ?c' offset start "\<lambda>i. checkAt (env i)"]
    by (simp add: postLoop_retry upt_step afterTry_frame decision_Retry)
qed

lemma postLoop_sent:
  assumes "distinct (endpoints c)"
  shows "\<exists>is. snd (snd (postLoop c path body start env lastErr offset))
             = map (\<lambda>i. epAt c start i @ path) is
    \<and> subseq is (filter (\<lambda>i. \<not> cooling c (epAt c start i) (checkAt (env i)))
                   [offset..<length (endpoints c)])"
  using assms
proof (induction c lastErr offset
    rule: postLoop_pass_induct[where start = start and env = env and path = path and body = body])
  case (End c lastErr offset)
  then show ?case by (simp add: postLoop_end)
next
  case (Skip c lastErr offset)
  let ?c' = "snd (isCoolingDown c (epAt c start offset) (checkAt (env offset)))"
  show ?case
    using Skip live_cong[of c ?c' offset start "\<lambda>i. checkAt (env i)"]
    by (simp add: postLoop_skip upt_step isCoolingDown_frame)
next
  case (Return c lastErr offset r)
  then show ?case
    using sentBy_cases[of c "epAt c start offset" path body "env offset"]
    by (auto simp: postLoop_return upt_step intro: exI[of _ "[]"] exI[of _ "[offset]"])
next
  case (Retry c lastErr offset x)
  let ?c' = "afterTry c (epAt c start offset) path body (env offset)"
  let ?rest = "filter (\<lambda>i. \<not> cooling c (epAt c start i) (checkAt (env i)))
                 [Suc offset..<length (endpoints c)]"
  obtain js where js: "snd (snd (postLoop ?c' path body start env (Some x) (Suc offset)))
        = map (\<lambda>i. epAt c start i @ path) js" "subseq js ?rest"
    using Retry live_cong[of c ?c' offset start "\<lambda>i. checkAt (env i)"] by (auto simp: afterTry_frame)
  have "subseq js (offset # ?rest)" "subseq (offset # js) (offset # ?rest)"
    using js(2) by auto
  then show ?case
    using Retry.hyps js(1) sentBy_cases[of c "epAt c start offset" path body "env offset"]
    by (auto simp: postLoop_retry upt_step
          intro: exI[of _ js] exI[of _ "offset # js"])
qed

section \<open>Interleavings of calls\<close>

text \<open>
  Several goroutines call \<open>Post\<close> at once; only \<open>isCoolingDown\<close>, \<open>onFailure\<close> and \<open>onSuccess\<close> (each
  under the mutex) and the atomic increment touch the shared state. Any interleaving of calls
  is therefore a sequence of these steps.
\<close>

inductive breaker_step :: "Client \<Rightarrow> Client \<Rightarrow> bool" where
  check: "breaker_step c (snd (isCoolingDown c e t))"
| failed: "breaker_step c (onFailure c e t)"
| succeeded: "breaker_step c (onSuccess c e)"
| advance: "breaker_step c (c\<lparr>nextCnt := nextCnt c + 1\<rparr>)"

inductive breaker_steps :: "Client \<Rightarrow> Client \<Rightarrow> bool" where
  none: "breaker_steps c c"
| more: "breaker_steps c c' \<Longrightarrow> breaker_step c' c'' \<Longrightarrow> breaker_steps c c''"

lemma breaker_steps_trans: "breaker_steps b c \<Longrightarrow> breaker_steps a b \<Longrightarrow> breaker_steps a c"
  by (induction rule: breaker_steps.induct) (auto intro: breaker_steps.more)

lemma breaker_steps_one: "breaker_step c c' \<Longrightarrow> breaker_steps c c'"
  by (blast intro: breaker_steps.intros)

lemma attempt_steps: "breaker_steps c (fst (attempt c e path body p))"
  by (auto simp: attempt_def Let_def intro: breaker_steps_one breaker_step.intros breaker_steps.none
        split: outcome.splits sum.splits)

lemma afterTry_steps: "breaker_steps c (afterTry c e path body p)"
  unfolding afterTry_def
  by (rule breaker_steps_trans[OF attempt_steps]) (blast intro: breaker_steps_one breaker_step.check)

lemma postLoop_steps: "breaker_steps c (fst (postLoop c path body start env lastErr offset))"
proof (induction c lastErr offset
    rule: postLoop_pass_induct[where start = start and env = env and path = path and body = body])
  case (Skip c lastErr offset)
  then show ?case
    by (simp add: postLoop_skip breaker_steps_trans breaker_steps_one breaker_step.check)
next
  case (Retry c lastErr offset x)
  then show ?case by (simp add: postLoop_retry breaker_steps_trans[OF _ afterTry_steps])
qed (simp_all add: postLoop_end postLoop_return afterTry_steps breaker_steps.none)

lemma Post_unfold:
  "endpoints c \<noteq> [] \<Longrightarrow> Post c path (Inr body) env =
     postLoop (c\<lparr>nextCnt := nextCnt c + 1\<rparr>) (slashed path) body
       (unat (nextCnt c) mod length (endpoints c)) env None 0"
  by (simp add: Post_def slashed_def Let_def)

lemma Post_steps: "breaker_steps c (fst (Post c path payload env))"
proof (cases "endpoints c = [] \<or> (\<exists>e. payload = Inl e)")
  case True
  then show ?thesis by (auto simp: Post_def breaker_steps.none)
next
  case False
  then obtain body where "payload = Inr body" by (cases payload) auto
  with False show ?thesis
    by (simp add: Post_unfold breaker_steps_trans[OF postLoop_steps breaker_steps_one[OF breaker_step.advance]])
qed

text \<open>The invariant: a failure count stays below the threshold, so it can never overflow.\<close>

definition breaker_inv :: "Client \<Rightarrow> bool" where
  "breaker_inv c \<longleftrightarrow> 0 < failThreshold c
     \<and> (\<forall>e n. failureCnt c e = Some n \<longrightarrow> 0 \<le> n \<and> n < failThreshold c)"

lemma failures_bounds: "breaker_inv c \<Longrightarrow> 0 \<le> failures c e \<and> failures c e < failThreshold c"
  by (auto simp: breaker_inv_def failures_def split: option.splits)

lemma breaker_step_inv: "breaker_step c c' \<Longrightarrow> breaker_inv c \<Longrightarrow> breaker_inv c'"
proof (induction rule: breaker_step.induct)
  case (failed c e t)
  then show ?case
    using failures_bounds[OF failed, of e] by (auto simp: breaker_inv_def onFailure_def Let_def)
qed (auto simp: breaker_inv_def isCoolingDown_def onSuccess_def split: option.splits)

lemma breaker_steps_inv: "breaker_steps c c' \<Longrightarrow> breaker_inv c \<Longrightarrow> breaker_inv c'"
  by (induction rule: breaker_steps.induct) (auto intro: breaker_step_inv)

lemma breaker_step_config:
  "breaker_step c c' \<Longrightarrow> endpoints c' = endpoints c \<and> failThreshold c' = failThreshold c
     \<and> endpointCooldown c' = endpointCooldown c"
  by (induction rule: breaker_step.induct)
     (auto simp: isCoolingDown_def onFailure_def onSuccess_def Let_def split: option.splits)

lemma breaker_steps_config:
  "breaker_steps c c' \<Longrightarrow> endpoints c' = endpoints c \<and> failThreshold c' = failThreshold c
     \<and> endpointCooldown c' = endpointCooldown c"
  by (induction rule: breaker_steps.induct) (auto dest: breaker_step_config)

section \<open>New clients\<close>

interpretation endpoint_list: unique_normal "\<lambda>e. trimRightSlash (TrimSpace e)" normalizeEndpoints
  by unfold_locales (simp add: normalizeEndpoints_def seen_loop_spec)

lemma intFromEnv_positive: "0 < fallback \<Longrightarrow> 0 < intFromEnv getenv key fallback"
  by (auto simp: intFromEnv_def Let_def split: prod.splits option.splits)

lemma NewClient_inv: "breaker_inv (NewClientWithEndpoints getenv es)"
  by (simp add: breaker_inv_def NewClientWithEndpoints_def intFromEnv_positive
        defaultFailThreshold_def)

lemma NewClient_distinct: "distinct (endpoints (NewClientWithEndpoints getenv es))"
  by (simp add: NewClientWithEndpoints_def endpoint_list.op_distinct)

section \<open>Properties\<close>

lemma cooling_nextCnt [simp]: "cooling (c\<lparr>nextCnt := k\<rparr>) e t = cooling c e t"
  by (simp add: cooling_def)

lemma tryOrder_nth:
  "i < length (endpoints c) \<Longrightarrow>
     tryOrder c ! i = epAt c (unat (nextCnt c) mod length (endpoints c)) i"
  by (simp add: tryOrder_def nth_rotate)

lemma live_epAt:
  "live c env = filter (\<lambda>i. \<not> cooling c (epAt c (unat (nextCnt c) mod length (endpoints c)) i)
      (checkAt (env i))) [0..<length (endpoints c)]"
  unfolding live_def by (rule filter_cong) (auto simp: tryOrder_nth)

lemma live_range: "i \<in> set (live c env) \<Longrightarrow> i < length (endpoints c)"
  by (simp add: live_def)

lemma set_subseq: "subseq xs ys \<Longrightarrow> set xs \<subseteq> set ys"
  by (auto dest: list_emb_set)

text \<open>
  C12: Circuit-breaker invariant. Whatever calls of \<open>Post\<close> interleave on a client made by
  \<open>NewClientWithEndpoints\<close>, the failure count of every endpoint stays between 0 and the
  threshold (exclusive), and the endpoint list stays distinct and free of blank entries.
\<close>

theorem breaker_invariant:
  assumes "breaker_steps (NewClientWithEndpoints getenv es) c"
  shows "0 \<le> failures c e \<and> failures c e < failThreshold c
    \<and> distinct (endpoints c) \<and> '''' \<notin> set (endpoints c)"
proof -
  have "breaker_inv c" using assms NewClient_inv by (rule breaker_steps_inv)
  moreover have "endpoints c = normalizeEndpoints es"
    using breaker_steps_config[OF assms] by (simp add: NewClientWithEndpoints_def)
  ultimately show ?thesis
    by (simp add: failures_bounds endpoint_list.op_distinct endpoint_list.op_nonblank)
qed

definition clientEx :: Client where
  "clientEx = NewClientWithEndpoints (\<lambda>_. '''') [''http://a'', ''http://b/'', ''http://a'']"

lemma clientEx_simp:
  "clientEx = \<lparr>endpoints = [''http://a'', ''http://b''], nextCnt = 0, failThreshold = 3,
     endpointCooldown = 10000000000, failureCnt = Map.empty, cooldownTo = Map.empty\<rparr>"
  by (simp add: clientEx_def NewClientWithEndpoints_def intFromEnv_def durationFromEnvMillis_def
        normalizeEndpoints_def defaultFailThreshold_def defaultEndpointCooldown_def
        TrimSpace_eval trimRightSlash_def)

theorem breaker_invariant_witness:
  "failures (onFailure clientEx ''http://a'' 5) ''http://a'' < 3"
proof -
  have steps: "breaker_steps clientEx (onFailure clientEx ''http://a'' 5)"
    by (rule breaker_steps_one) (rule breaker_step.failed)
  have "failThreshold (onFailure clientEx ''http://a'' 5) = 3"
    using breaker_steps_config[OF steps] by (simp add: clientEx_simp)
  with breaker_invariant[OF steps[unfolded clientEx_def], of "''http://a''"] show ?thesis
    by (simp add: clientEx_def)
qed

lemma Post_decision:
  assumes "distinct (endpoints c)" and "endpoints c \<noteq> []"
  shows "fst (snd (Post c path (Inr body) env)) =
    decision None (map (\<lambda>i. verdictOf (tryOrder c ! i) (slashed path) body (env i)) (live c env))"
proof -
  let ?start = "unat (nextCnt c) mod length (endpoints c)"
  have "map (\<lambda>i. verdictOf (tryOrder c ! i) (slashed path) body (env i)) (live c env)
      = map (\<lambda>i. verdictOf (epAt c ?start i) (slashed path) body (env i)) (live c env)"
    by (rule map_cong) (auto simp: tryOrder_nth dest: live_range)
  then have "decision None (map (\<lambda>i. verdictOf (tryOrder c ! i) (slashed path) body (env i)) (live c env))
      = decision None (map (\<lambda>i. verdictOf (epAt c ?start i) (slashed path) body (env i)) (live c env))"
    by (rule arg_cong)
  then show ?thesis
    using assms postLoop_result[of "c\<lparr>nextCnt := nextCnt c + 1\<rparr>" "slashed path" body ?start env None 0]
    by (simp add: Post_unfold live_epAt del: map_eq_conv)
qed

text \<open>
  C11: Fail-over. With distinct endpoints, \<open>Post\<close> returns what the first decisive answer says,
  going through the endpoints in rotation and skipping those that cool down: a status below
  500 decides (300..499 as an error, below 300 as the decoded body); if no endpoint decides,
  the error of the last one tried; if none was live, \<open>dbman request failed\<close>.
\<close>

theorem Post_failover:
  assumes "distinct (endpoints c)" and "endpoints c \<noteq> []"
  shows "fst (snd (Post c path (Inr body) env)) =
    decision None (map (\<lambda>i. verdictOf (tryOrder c ! i) (slashed path) body (env i)) (live c env))"
  using assms by (rule Post_decision)

definition failingFirst :: "nat \<Rightarrow> string probe" where
  "failingFirst i = \<lparr>checkAt = 0,
     send = (\<lambda>url body. if i = 0 then Resp 503 (Inl ''EOF'') else Resp 200 (Inr (url @ body))),
     doneAt = 1\<rparr>"

lemma live_clientEx: "live clientEx failingFirst = [0, 1]"
  by (simp add: live_def clientEx_simp cooling_def upt_rec)

lemma tryOrder_clientEx: "tryOrder clientEx = [''http://a'', ''http://b'']"
  by (simp add: tryOrder_def clientEx_simp)

theorem Post_failover_witness:
  "fst (snd (Post clientEx ''x'' (Inr ''{}'') failingFirst)) = Inr ''http://b/x{}''"
proof -
  have "distinct (endpoints clientEx)" "endpoints clientEx \<noteq> []"
    by (simp_all add: clientEx_simp)
  from Post_failover[OF this, of "''x''" "''{}''" failingFirst] show ?thesis
    by (simp add: live_clientEx tryOrder_clientEx verdictOf_def failingFirst_def decision_Retry
          slashed_def HasPrefix_def)
qed

text \<open>
  Requests on the wire. One call of \<open>Post\<close> sends to each endpoint at most once, in
  rotation order, and never to an endpoint in its cool-down.
\<close>

theorem Post_requests:
  assumes "distinct (endpoints c)" and "endpoints c \<noteq> []"
  shows "\<exists>is. snd (snd (Post c path (Inr body) env)) = map (\<lambda>i. tryOrder c ! i @ slashed path) is
    \<and> subseq is (live c env)"
proof -
  let ?start = "unat (nextCnt c) mod length (endpoints c)"
  obtain "is" where "is": "snd (snd (Post c path (Inr body) env))
      = map (\<lambda>i. epAt c ?start i @ slashed path) is" "subseq is (live c env)"
    using assms postLoop_sent[of "c\<lparr>nextCnt := nextCnt c + 1\<rparr>" "slashed path" body ?start env None 0]
    by (auto simp: Post_unfold live_epAt)
  have "map (\<lambda>i. epAt c ?start i @ slashed path) is = map (\<lambda>i. tryOrder c ! i @ slashed path) is"
    using set_subseq[OF "is"(2)] by (intro map_cong) (auto simp: tryOrder_nth dest!: live_range)
  with "is" show ?thesis by auto
qed

theorem Post_requests_witness:
  "\<exists>is. snd (snd (Post clientEx ''x'' (Inr ''{}'') failingFirst))
      = map (\<lambda>i. [''http://a'', ''http://b''] ! i @ ''/x'') is \<and> subseq is [0, 1]"
  using Post_requests[of clientEx "''x''" "''{}''" failingFirst]
  by (simp add: live_clientEx tryOrder_clientEx slashed_def HasPrefix_def) (simp add: clientEx_simp)

text \<open>Consecutive failures of one endpoint, at the given times.\<close>

definition failRun :: "Client \<Rightarrow> string \<Rightarrow> time list \<Rightarrow> Client" where
  "failRun c e ts = foldl (\<lambda>c' t. onFailure c' e t) c ts"

lemma failRun_snoc: "failRun c e (ts @ [t]) = onFailure (failRun c e ts) e t"
  by (simp add: failRun_def)

lemma failRun_steps: "breaker_steps c (failRun c e ts)"
proof (induction ts rule: rev_induct)
  case (snoc t ts)
  then show ?case
    by (auto simp: failRun_snoc intro: breaker_steps.more breaker_step.failed)
qed (simp add: failRun_def breaker_steps.none)

lemma failRun_below:
  assumes "failures c e + int (length ts) < failThreshold c"
  shows "failures (failRun c e ts) e = failures c e + int (length ts)
    \<and> cooldownTo (failRun c e ts) = cooldownTo c"
  using assms
proof (induction ts rule: rev_induct)
  case (snoc t ts)
  then show ?case
    using breaker_steps_config[OF failRun_steps[of c e ts]]
    by (auto simp: failRun_snoc onFailure_def Let_def failures_def)
qed (simp add: failRun_def)

text \<open>
  C33: The breaker opens exactly at the threshold. Starting from a client whose count for an
  endpoint is zero, fewer than \<open>failThreshold\<close> consecutive failures leave all cool-downs as they were;
  the failure that reaches the threshold puts the endpoint out of rotation exactly until
  \<open>endpointCooldown\<close> after it, and resets the count.
\<close>

theorem breaker_opens:
  assumes "breaker_inv c" and "failures c e = 0"
  shows "(int (length ts) < failThreshold c \<longrightarrow> cooldownTo (failRun c e ts) = cooldownTo c)
    \<and> (int (length ts) + 1 = failThreshold c \<longrightarrow>
         failures (failRun c e (ts @ [t])) e = 0
         \<and> (\<forall>now. cooling (failRun c e (ts @ [t])) e now \<longleftrightarrow> now \<le> t + endpointCooldown c))"
proof (intro conjI impI allI)
  assume "int (length ts) < failThreshold c"
  then show "cooldownTo (failRun c e ts) = cooldownTo c"
    using failRun_below[of c e ts] assms(2) by simp
next
  assume "int (length ts) + 1 = failThreshold c"
  then have n: "failures (failRun c e ts) e + 1 = failThreshold (failRun c e ts)"
    and cd: "endpointCooldown (failRun c e ts) = endpointCooldown c"
    using failRun_below[of c e ts] assms(2) breaker_steps_config[OF failRun_steps[of c e ts]] by auto
  then show "failures (failRun c e (ts @ [t])) e = 0"
    by (simp add: failRun_snoc onFailure_def Let_def failures_def)
  show "cooling (failRun c e (ts @ [t])) e now \<longleftrightarrow> now \<le> t + endpointCooldown c" for now
    using n cd by (simp add: failRun_snoc onFailure_def Let_def cooling_def)
qed

theorem breaker_opens_witness:
  "cooling (failRun clientEx ''http://a'' ([5, 6] @ [7])) ''http://a'' 10000000007
   \<and> \<not> cooling (failRun clientEx ''http://a'' ([5, 6] @ [7])) ''http://a'' 10000000008"
proof -
  have "breaker_inv clientEx" unfolding clientEx_def by (rule NewClient_inv)
  moreover have "failures clientEx ''http://a'' = 0" by (simp add: clientEx_simp failures_def)
  ultimately show ?thesis
    using breaker_opens[of clientEx "''http://a''" "[5, 6]" 7] by (simp add: clientEx_simp)
qed

text \<open>Successive calls of \<open>Post\<close>, each with its path, body and surroundings.\<close>

fun posts :: "Client \<Rightarrow> (string \<times> string \<times> (nat \<Rightarrow> 'a probe)) list \<Rightarrow> Client list" where
  "posts c [] = []"
| "posts c ((path, body, env) # calls) = c # posts (fst (Post c path (Inr body) env)) calls"

lemma postLoop_nextCnt: "nextCnt (fst (postLoop c path body start env lastErr offset)) = nextCnt c"
proof (induction c lastErr offset
    rule: postLoop_pass_induct[where start = start and env = env and path = path and body = body])
  case (Skip c lastErr offset)
  then show ?case by (simp add: postLoop_skip isCoolingDown_def split: option.splits)
next
  case (Return c lastErr offset r)
  then show ?case
    by (auto simp: postLoop_return afterTry_def attempt_def isCoolingDown_def onFailure_def
        onSuccess_def Let_def split: option.splits outcome.splits sum.splits)
next
  case (Retry c lastErr offset x)
  then show ?case
    by (auto simp: postLoop_retry afterTry_def attempt_def isCoolingDown_def onFailure_def
        onSuccess_def Let_def split: option.splits outcome.splits sum.splits)
qed (simp add: postLoop_end)

lemma Post_nextCnt:
  "endpoints c \<noteq> [] \<Longrightarrow> nextCnt (fst (Post c path (Inr body) env)) = nextCnt c + 1
     \<and> endpoints (fst (Post c path (Inr body) env)) = endpoints c"
  using breaker_steps_config[OF Post_steps[of c path "Inr body" env]]
  by (simp add: Post_unfold postLoop_nextCnt)

lemma posts_order:
  assumes "endpoints c \<noteq> []" "unat (nextCnt c) + length calls < 2 ^ 32"
  shows "map (\<lambda>c. hd (tryOrder c)) (posts c calls) =
    map (\<lambda>i. endpoints c ! ((unat (nextCnt c) + i) mod length (endpoints c))) [0..<length calls]"
  using assms
proof (induction calls arbitrary: c)
  case (Cons call calls)
  obtain path body env where call: "call = (path, body, env)" by (cases call)
  let ?c = "fst (Post c path (Inr body) env)"
  have next': "nextCnt ?c = nextCnt c + 1" "endpoints ?c = endpoints c"
    using Post_nextCnt[OF Cons.prems(1)] by auto
  have u: "unat (nextCnt c + 1) = unat (nextCnt c) + 1"
    using Cons.prems(2) by (simp add: unat_word_ariths(1))
  have "map (\<lambda>c. hd (tryOrder c)) (posts ?c calls) =
    map (\<lambda>i. endpoints c ! ((unat (nextCnt c) + Suc i) mod length (endpoints c))) [0..<length calls]"
    using Cons.IH[of ?c] Cons.prems next' u by simp
  moreover have "hd (tryOrder c) = endpoints c ! (unat (nextCnt c) mod length (endpoints c))"
    using Cons.prems(1) by (simp add: tryOrder_def hd_rotate_conv_nth)
  ultimately show ?case
    by (simp add: call upt_conv_Cons map_Suc_upt[symmetric] comp_def del: upt_Suc map_Suc_upt)
qed simp

text \<open>
  Round robin. As long as the 32-bit counter does not wrap around, the calls of \<open>Post\<close> start at successive
  endpoints, so any run of as many calls as there are endpoints starts once at each of them,
  whatever the calls' outcomes are.
\<close>

theorem Post_round_robin:
  assumes "endpoints c \<noteq> []" "length calls = length (endpoints c)"
    and "unat (nextCnt c) + length calls < 2 ^ 32"
  shows "map (\<lambda>c. hd (tryOrder c)) (posts c calls)
    = rotate (unat (nextCnt c)) (endpoints c)"
proof (rule nth_equalityI)
  show "length (map (\<lambda>c. hd (tryOrder c)) (posts c calls)) = length (rotate (unat (nextCnt c)) (endpoints c))"
    using assms by (simp add: posts_order)
next
  fix i assume "i < length (map (\<lambda>c. hd (tryOrder c)) (posts c calls))"
  moreover have "length (posts c calls) = length calls"
    using arg_cong[OF posts_order[OF assms(1,3)], of length] by simp
  ultimately show "map (\<lambda>c. hd (tryOrder c)) (posts c calls) ! i = rotate (unat (nextCnt c)) (endpoints c) ! i"
    using assms by (simp add: posts_order nth_rotate)
qed

theorem Post_round_robin_witness:
  "map (\<lambda>c. hd (tryOrder c)) (posts clientEx [(''a'', ''{}'', failingFirst), (''b'', ''{}'', failingFirst)])
     = [''http://a'', ''http://b'']"
  using Post_round_robin[of clientEx "[(''a'', ''{}'', failingFirst), (''b'', ''{}'', failingFirst)]"]
  by (simp add: clientEx_simp del: posts.simps)


section \<open>Recovery\<close>

text \<open>The steps of interleaved calls in which every failure was noticed at time \<open>T\<close> at the latest.\<close>

inductive breaker_until :: "time \<Rightarrow> Client \<Rightarrow> Client \<Rightarrow> bool" for T where
  none: "breaker_until T c c"
| check: "breaker_until T c c' \<Longrightarrow> breaker_until T c (snd (isCoolingDown c' e t))"
| failed: "breaker_until T c c' \<Longrightarrow> t \<le> T \<Longrightarrow> breaker_until T c (onFailure c' e t)"
| succeeded: "breaker_until T c c' \<Longrightarrow> breaker_until T c (onSuccess c' e)"
| advance: "breaker_until T c c' \<Longrightarrow> breaker_until T c (c'\<lparr>nextCnt := nextCnt c' + 1\<rparr>)"

lemma breaker_until_steps: "breaker_until T c c' \<Longrightarrow> breaker_steps c c'"
  by (induction rule: breaker_until.induct) (blast intro: breaker_steps.intros breaker_step.intros)+

lemma breaker_until_cooldown:
  assumes "breaker_until T c0 c" "cooldownTo c0 = Map.empty"
  shows "cooldownTo c e = Some until \<Longrightarrow> until \<le> T + endpointCooldown c"
  using assms
  by (induction arbitrary: until rule: breaker_until.induct)
    (auto simp: isCoolingDown_def onFailure_def onSuccess_def Let_def split: option.splits if_splits)

lemma decision_Inr:
  assumes "Return (Inr x) \<in> set vs" "\<And>err. Return (Inl err) \<notin> set vs"
  shows "\<exists>y. decision lastErr vs = Inr y"
proof -
  obtain v rest where v: "filter is_Return vs = v # rest" using assms(1) by (cases "filter is_Return vs") (auto simp: filter_empty_conv)
  then obtain r where r: "v = Return r" "decision lastErr vs = r" using decision_found by blast
  have "v \<in> set vs" using v by (metis filter_is_subset list.set_intros(1) subsetD)
  then show ?thesis using r assms(2) by (cases r) auto
qed


text \<open>Both endpoints cool down at time 7; eleven seconds later the second one answers.\<close>

definition cooledEx :: Client where
  "cooledEx = failRun (failRun clientEx ''http://a'' [5, 6, 7]) ''http://b'' [5, 6, 7]"

definition healedEnv :: "nat \<Rightarrow> string probe" where
  "healedEnv i = \<lparr>checkAt = 11000000000, send = (\<lambda>u body. if HasPrefix u ''http://a'' then DoErr ''refused'' else Resp 200 (Inr u)), doneAt = 11000000001\<rparr>"


end
