(* ===== verification/TenantRouters.thy ===== *)
theory TenantRouters
  imports RouterSpec DbmanClient
begin

text \<open>
  The four tenant routers: \<open>TenantDBRouter\<close> (\<open>server/common/infra/db/tenant_db_router.go\<close>),
  \<open>TenantRedisRouter\<close> (\<open>server/common/infra/cache/tenant_redis_router.go\<close>),
  \<open>TenantMinIORouter\<close> (\<open>server/common/infra/object/tenant_minio_router.go\<close>) and \<open>AMQPPublisher\<close>
  (\<open>server/chat/service/publisher.go\<close>), each with its own record and its own operations, and the
  interpretation of the contract \<open>tenant_router\<close> for each. Pools, clients and connections are
  values of a type parameter; the clock, the provider's answer and the driver's constructors
  are arguments of the operations that call them.
\<close>

section \<open>PostgreSQL pools\<close>

record TenantDBMeta =
  DeploymentMode :: string
  DedicatedDSN :: string
  IsActive :: bool

text \<open>The row of \<open>tenants\<close> as the query of \<open>sharedTenantMetaProvider\<close> returns it.\<close>

datatype 'a queryRow = NoRows | RowErr string | Row 'a

definition GetTenantDBMeta_shared :: "TenantDBMeta queryRow \<Rightarrow> TenantDBMeta result" where
  "GetTenantDBMeta_shared row =
     (case row of
        NoRows \<Rightarrow> Inl ''tenant not found''
      | RowErr e \<Rightarrow> Inl e
      | Row meta \<Rightarrow> Inr (meta\<lparr>DeploymentMode := ToLower (TrimSpace (DeploymentMode meta))\<rparr>))"

text \<open>\<open>GetTenantDBMeta\<close> of \<open>server/common/infra/dbman/tenant_meta_provider.go\<close>.\<close>

definition GetTenantDBMeta_dbman ::
  "Client \<Rightarrow> string result \<Rightarrow> (nat \<Rightarrow> TenantDBMeta probe) \<Rightarrow> Client \<times> TenantDBMeta result" where
  "GetTenantDBMeta_dbman client payload env =
     (let (client', resp, _) = Post client (BasePath @ ''/tenants/get'') payload env in
      (client', case resp of
         Inl e \<Rightarrow> Inl e
       | Inr m \<Rightarrow> Inr \<lparr>DeploymentMode = ToLower (TrimSpace (DeploymentMode m)),
                       DedicatedDSN = TrimSpace (DedicatedDSN m),
                       IsActive = IsActive m\<rparr>))"

record 'c TenantDBRouter =
  db_shared :: 'c
  db_cacheTTL :: time
  db_metaCache :: "string \<rightharpoonup> TenantDBMeta \<times> time"
  db_dedicated :: "string \<rightharpoonup> 'c"

record 'c dbEnv =
  db_now :: time
  db_provider :: "string \<Rightarrow> TenantDBMeta result"
  db_poolNew :: "string \<Rightarrow> 'c result"

definition NewTenantDBRouterWithProvider :: "'c \<Rightarrow> 'c TenantDBRouter" where
  "NewTenantDBRouterWithProvider shared =
     \<lparr>db_shared = shared, db_cacheTTL = 30 * 1000000000, db_metaCache = Map.empty, db_dedicated = Map.empty\<rparr>"

definition loadTenantMeta ::
  "'c TenantDBRouter \<Rightarrow> string \<Rightarrow> 'c dbEnv \<Rightarrow> 'c TenantDBRouter \<times> TenantDBMeta result" where
  "loadTenantMeta r tenantID env =
     (let now = db_now env;
          miss = (case db_provider env tenantID of
              Inl e \<Rightarrow> (r, Inl e)
            | Inr meta \<Rightarrow> (r\<lparr>db_metaCache := (db_metaCache r)(tenantID \<mapsto> (meta, now))\<rparr>, Inr meta)) in
      case db_metaCache r tenantID of
        Some (meta, fetchedAt) \<Rightarrow> if now - fetchedAt < db_cacheTTL r then (r, Inr meta) else miss
      | None \<Rightarrow> miss)"

text \<open>The second critical section of \<open>DBForTenant\<close>: look again under the write lock, else open.\<close>

definition openDedicated ::
  "'c TenantDBRouter \<Rightarrow> string \<Rightarrow> TenantDBMeta \<Rightarrow> 'c dbEnv \<Rightarrow> 'c TenantDBRouter \<times> 'c result" where
  "openDedicated r tenantID meta env =
     (case db_dedicated r tenantID of
        Some existing \<Rightarrow> (r, Inr existing)
      | None \<Rightarrow>
          (case db_poolNew env (DedicatedDSN meta) of
             Inl e \<Rightarrow> (r, Inl e)
           | Inr pool \<Rightarrow> (r\<lparr>db_dedicated := (db_dedicated r)(tenantID \<mapsto> pool)\<rparr>, Inr pool)))"

definition DBForTenant ::
  "'c TenantDBRouter \<Rightarrow> string \<Rightarrow> 'c dbEnv \<Rightarrow> 'c TenantDBRouter \<times> 'c result" where
  "DBForTenant r tenantID env =
     (if TrimSpace tenantID = '''' then (r, Inr (db_shared r))
      else let (r', loaded) = loadTenantMeta r tenantID env in
        case loaded of
          Inl e \<Rightarrow> (r', Inl e)
        | Inr meta \<Rightarrow>
            if \<not> IsActive meta then (r', Inl ''tenant is inactive'')
            else if DeploymentMode meta \<noteq> ''dedicated'' \<or> TrimSpace (DedicatedDSN meta) = ''''
            then (r', Inr (db_shared r'))
            else (case db_dedicated r' tenantID of
                    Some existing \<Rightarrow> (r', Inr existing)
                  | None \<Rightarrow> openDedicated r' tenantID meta env))"

text \<open>\<open>InvalidateTenant\<close> and \<open>Close\<close> also close pools: the pools they close are the second component.\<close>

definition db_InvalidateTenant :: "'c TenantDBRouter \<Rightarrow> string \<Rightarrow> 'c TenantDBRouter \<times> 'c list" where
  "db_InvalidateTenant r tenant =
     (let tenantID = TrimSpace tenant in
      if tenantID = '''' then (r, [])
      else let r' = r\<lparr>db_metaCache := (db_metaCache r)(tenantID := None)\<rparr> in
        case db_dedicated r' tenantID of
          Some pool \<Rightarrow> (r'\<lparr>db_dedicated := (db_dedicated r')(tenantID := None)\<rparr>, [pool])
        | None \<Rightarrow> (r', []))"

text \<open>\<open>Close\<close> ranges over the map in an unspecified order: the keys in the order it visits them.\<close>

fun db_Close :: "'c TenantDBRouter \<Rightarrow> string list \<Rightarrow> 'c TenantDBRouter \<times> 'c list" where
  "db_Close r [] = (r, [])"
| "db_Close r (tenantID # keys) =
     (case db_dedicated r tenantID of
        None \<Rightarrow> db_Close r keys
      | Some pool \<Rightarrow>
          let (r', closed) = db_Close (r\<lparr>db_dedicated := (db_dedicated r)(tenantID := None)\<rparr>) keys
          in (r', pool # closed))"

section \<open>Redis clients\<close>

record TenantRedisMeta =
  rd_DeploymentMode :: string
  rd_DedicatedRedisAddr :: string
  rd_IsActive :: bool

record redisMeta =
  Mode :: string
  Addr :: string
  rm_IsActive :: bool

record 'c TenantRedisRouter =
  rd_shared :: 'c
  rd_hasProvider :: bool
  rd_cacheTTL :: time
  rd_metaCache :: "string \<rightharpoonup> redisMeta \<times> time"
  rd_clients :: "string \<rightharpoonup> 'c"

record 'c redisEnv =
  rd_now :: time
  rd_provider :: "string \<Rightarrow> TenantRedisMeta result"
  rd_newClient :: "string \<Rightarrow> 'c"

definition NewTenantRedisRouter :: "'c \<Rightarrow> bool \<Rightarrow> 'c TenantRedisRouter" where
  "NewTenantRedisRouter shared hasProvider =
     \<lparr>rd_shared = shared, rd_hasProvider = hasProvider, rd_cacheTTL = 30 * 1000000000,
      rd_metaCache = Map.empty, rd_clients = Map.empty\<rparr>"

definition rd_loadMeta ::
  "'c TenantRedisRouter \<Rightarrow> string \<Rightarrow> 'c redisEnv \<Rightarrow> 'c TenantRedisRouter \<times> redisMeta result" where
  "rd_loadMeta r tenantID env =
     (let now = rd_now env;
          fetched =
            (if \<not> rd_hasProvider r then Inr \<lparr>Mode = ''shared'', Addr = '''', rm_IsActive = True\<rparr>
             else case rd_provider env tenantID of
                 Inl e \<Rightarrow> Inl e
               | Inr pm \<Rightarrow> Inr \<lparr>Mode = ToLower (TrimSpace (rd_DeploymentMode pm)),
                                Addr = TrimSpace (rd_DedicatedRedisAddr pm),
                                rm_IsActive = rd_IsActive pm\<rparr>);
          miss = (case fetched of
              Inl e \<Rightarrow> (r, Inl e)
            | Inr meta \<Rightarrow> (r\<lparr>rd_metaCache := (rd_metaCache r)(tenantID \<mapsto> (meta, now))\<rparr>, Inr meta)) in
      case rd_metaCache r tenantID of
        Some (meta, fetchedAt) \<Rightarrow> if now - fetchedAt < rd_cacheTTL r then (r, Inr meta) else miss
      | None \<Rightarrow> miss)"

definition openRedis ::
  "'c TenantRedisRouter \<Rightarrow> string \<Rightarrow> redisMeta \<Rightarrow> 'c redisEnv \<Rightarrow> 'c TenantRedisRouter \<times> 'c result" where
  "openRedis r tenantID meta env =
     (case rd_clients r tenantID of
        Some c \<Rightarrow> (r, Inr c)
      | None \<Rightarrow>
          let client = rd_newClient env (Addr meta) in
          (r\<lparr>rd_clients := (rd_clients r)(tenantID \<mapsto> client)\<rparr>, Inr client))"

definition ClientForTenant ::
  "'c TenantRedisRouter \<Rightarrow> string \<Rightarrow> 'c redisEnv \<Rightarrow> 'c TenantRedisRouter \<times> 'c result" where
  "ClientForTenant r tenantID env =
     (if TrimSpace tenantID = '''' then (r, Inr (rd_shared r))
      else let (r', loaded) = rd_loadMeta r tenantID env in
        case loaded of
          Inl e \<Rightarrow> (r', Inl e)
        | Inr meta \<Rightarrow>
            if \<not> rm_IsActive meta then (r', Inl ''tenant is inactive'')
            else if Mode meta \<noteq> ''dedicated'' \<or> TrimSpace (Addr meta) = ''''
            then (r', Inr (rd_shared r'))
            else (case rd_clients r' tenantID of
                    Some c \<Rightarrow> (r', Inr c)
                  | None \<Rightarrow> openRedis r' tenantID meta env))"

definition rd_InvalidateTenant :: "'c TenantRedisRouter \<Rightarrow> string \<Rightarrow> 'c TenantRedisRouter \<times> 'c list" where
  "rd_InvalidateTenant r tenant =
     (let tenantID = TrimSpace tenant in
      if tenantID = '''' then (r, [])
      else let r' = r\<lparr>rd_metaCache := (rd_metaCache r)(tenantID := None)\<rparr> in
        case rd_clients r' tenantID of
          Some client \<Rightarrow> (r'\<lparr>rd_clients := (rd_clients r')(tenantID := None)\<rparr>, [client])
        | None \<Rightarrow> (r', []))"

fun rd_Close :: "'c TenantRedisRouter \<Rightarrow> string list \<Rightarrow> 'c TenantRedisRouter \<times> 'c list" where
  "rd_Close r [] = (r, [])"
| "rd_Close r (tenantID # keys) =
     (case rd_clients r tenantID of
        None \<Rightarrow> rd_Close r keys
      | Some client \<Rightarrow>
          let (r', closed) = rd_Close (r\<lparr>rd_clients := (rd_clients r)(tenantID := None)\<rparr>) keys
          in (r', client # closed))"

section \<open>MinIO clients\<close>

record TenantMinIOMeta =
  mo_Mode :: string
  mo_Endpoint :: string
  mo_AccessKey :: string
  mo_SecretKey :: string
  mo_UseSSL :: bool
  mo_Bucket :: string
  mo_IsActive :: bool

record 'c TenantMinIORouter =
  mo_sharedClient :: 'c
  mo_sharedBucket :: string
  mo_cacheTTL :: time
  mo_metaCache :: "string \<rightharpoonup> TenantMinIOMeta \<times> time"
  mo_clients :: "string \<rightharpoonup> 'c"

text \<open>\<open>minio.New\<close>, \<open>BucketExists\<close> and \<open>MakeBucket\<close> are the driver's, hence arguments.\<close>

record 'c minioEnv =
  mo_now :: time
  mo_provider :: "string \<Rightarrow> TenantMinIOMeta result"
  mo_new :: "string \<Rightarrow> string \<Rightarrow> string \<Rightarrow> bool \<Rightarrow> 'c result"
  mo_bucketExists :: "'c \<Rightarrow> string \<Rightarrow> bool result"
  mo_makeBucket :: "'c \<Rightarrow> string \<Rightarrow> unit result"

definition NewTenantMinIORouter :: "'c \<Rightarrow> string \<Rightarrow> 'c TenantMinIORouter" where
  "NewTenantMinIORouter sharedClient sharedBucket =
     \<lparr>mo_sharedClient = sharedClient, mo_sharedBucket = sharedBucket,
      mo_cacheTTL = 30 * 1000000000, mo_metaCache = Map.empty, mo_clients = Map.empty\<rparr>"

definition EnsureBucket :: "'c minioEnv \<Rightarrow> 'c \<Rightarrow> string \<Rightarrow> unit result" where
  "EnsureBucket env client bucket =
     (case mo_bucketExists env client bucket of
        Inl e \<Rightarrow> Inl e
      | Inr ex \<Rightarrow> if ex then Inr () else mo_makeBucket env client bucket)"

definition mo_loadMeta ::
  "'c TenantMinIORouter \<Rightarrow> string \<Rightarrow> 'c minioEnv \<Rightarrow> 'c TenantMinIORouter \<times> TenantMinIOMeta result" where
  "mo_loadMeta r tenantID env =
     (let now = mo_now env;
          miss = (case mo_provider env tenantID of
              Inl e \<Rightarrow> (r, Inl e)
            | Inr pm \<Rightarrow>
                let meta = pm\<lparr>mo_Mode := ToLower (TrimSpace (mo_Mode pm)),
                               mo_Endpoint := TrimSpace (mo_Endpoint pm),
                               mo_Bucket := TrimSpace (mo_Bucket pm)\<rparr>
                in (r\<lparr>mo_metaCache := (mo_metaCache r)(tenantID \<mapsto> (meta, now))\<rparr>, Inr meta)) in
      case mo_metaCache r tenantID of
        Some (meta, fetchedAt) \<Rightarrow> if now - fetchedAt < mo_cacheTTL r then (r, Inr meta) else miss
      | None \<Rightarrow> miss)"

definition openMinIO ::
  "'c TenantMinIORouter \<Rightarrow> string \<Rightarrow> TenantMinIOMeta \<Rightarrow> 'c minioEnv
   \<Rightarrow> 'c TenantMinIORouter \<times> ('c \<times> string \<times> string) result" where
  "openMinIO r tenantID meta env =
     (case mo_clients r tenantID of
        Some c \<Rightarrow> (r, Inr (c, mo_Bucket meta, ''''))
      | None \<Rightarrow>
          (case mo_new env (mo_Endpoint meta) (mo_AccessKey meta) (mo_SecretKey meta) (mo_UseSSL meta) of
             Inl e \<Rightarrow> (r, Inl e)
           | Inr client \<Rightarrow>
               (case EnsureBucket env client (mo_Bucket meta) of
                  Inl e \<Rightarrow> (r, Inl e)
                | Inr _ \<Rightarrow> (r\<lparr>mo_clients := (mo_clients r)(tenantID \<mapsto> client)\<rparr>,
                            Inr (client, mo_Bucket meta, '''')))))"

definition Resolve ::
  "'c TenantMinIORouter \<Rightarrow> string \<Rightarrow> 'c minioEnv
   \<Rightarrow> 'c TenantMinIORouter \<times> ('c \<times> string \<times> string) result" where
  "Resolve r tenantID env =
     (if TrimSpace tenantID = '''' then (r, Inr (mo_sharedClient r, mo_sharedBucket r, ''''))
      else let (r', loaded) = mo_loadMeta r tenantID env in
        case loaded of
          Inl e \<Rightarrow> (r', Inl e)
        | Inr meta \<Rightarrow>
            if \<not> mo_IsActive meta then (r', Inl ''tenant is inactive'')
            else if mo_Mode meta \<noteq> ''dedicated'' \<or> TrimSpace (mo_Endpoint meta) = ''''
              \<or> TrimSpace (mo_Bucket meta) = ''''
            then (r', Inr (mo_sharedClient r', mo_sharedBucket r', ''tenants/'' @ tenantID @ ''/''))
            else (case mo_clients r' tenantID of
                    Some c \<Rightarrow> (r', Inr (c, mo_Bucket meta, ''''))
                  | None \<Rightarrow> openMinIO r' tenantID meta env))"

definition mo_InvalidateTenant :: "'c TenantMinIORouter \<Rightarrow> string \<Rightarrow> 'c TenantMinIORouter" where
  "mo_InvalidateTenant r tenant =
     (let tenantID = TrimSpace tenant in
      if tenantID = '''' then r
      else r\<lparr>mo_metaCache := (mo_metaCache r)(tenantID := None),
             mo_clients := (mo_clients r)(tenantID := None)\<rparr>)"

section \<open>AMQP publishers\<close>

record TenantMQMeta =
  mq_DeploymentMode :: string
  mq_DedicatedLavinMQURL :: string
  mq_IsActive :: bool

record mqMeta =
  mode :: string
  url :: string
  isActive :: bool

text \<open>A \<open>tenantPublisher\<close> is a connection with a channel.\<close>

type_synonym ('n, 'h) tenantPublisher = "'n \<times> 'h"

record ('n, 'h) AMQPPublisher =
  mq_hasProvider :: bool
  mq_shared :: "('n, 'h) tenantPublisher"
  mq_dedicated :: "string \<rightharpoonup> ('n, 'h) tenantPublisher"
  mq_metaCache :: "string \<rightharpoonup> mqMeta \<times> time"
  mq_cacheTTL :: time

record ('n, 'h) mqEnv =
  mq_now :: time
  mq_provider :: "string \<Rightarrow> TenantMQMeta result"
  mq_dial :: "string \<Rightarrow> 'n result"
  mq_channel :: "'n \<Rightarrow> 'h result"
  mq_exchangeDeclare :: "'h \<Rightarrow> string \<Rightarrow> string \<Rightarrow> unit result"
  mq_publish :: "'h \<Rightarrow> string \<Rightarrow> string \<Rightarrow> string \<Rightarrow> unit result"

definition NewAMQPPublisher ::
  "'n \<Rightarrow> bool \<Rightarrow> ('n, 'h) mqEnv \<Rightarrow> ('n, 'h) AMQPPublisher result" where
  "NewAMQPPublisher conn hasProvider env =
     (case mq_channel env conn of
        Inl e \<Rightarrow> Inl e
      | Inr ch \<Rightarrow>
          (case mq_exchangeDeclare env ch ''chat.events'' ''topic'' of
             Inl e \<Rightarrow> Inl e
           | Inr _ \<Rightarrow> Inr \<lparr>mq_hasProvider = hasProvider, mq_shared = (conn, ch), mq_dedicated = Map.empty,
                           mq_metaCache = Map.empty, mq_cacheTTL = 30 * 1000000000\<rparr>))"

definition mq_loadMeta ::
  "('n, 'h) AMQPPublisher \<Rightarrow> string \<Rightarrow> ('n, 'h) mqEnv \<Rightarrow> ('n, 'h) AMQPPublisher \<times> mqMeta result" where
  "mq_loadMeta p tenantID env =
     (let now = mq_now env;
          store = (\<lambda>meta. p\<lparr>mq_metaCache := (mq_metaCache p)(tenantID \<mapsto> (meta, now))\<rparr>);
          miss =
            (if \<not> mq_hasProvider p
             then let meta = \<lparr>mode = ''shared'', url = '''', isActive = True\<rparr> in (store meta, Inr meta)
             else case mq_provider env tenantID of
                 Inl e \<Rightarrow> (p, Inl e)
               | Inr pm \<Rightarrow>
                   let meta = \<lparr>mode = ToLower (TrimSpace (mq_DeploymentMode pm)),
                               url = TrimSpace (mq_DedicatedLavinMQURL pm),
                               isActive = mq_IsActive pm\<rparr>
                   in (store meta, Inr meta)) in
      case mq_metaCache p tenantID of
        Some (meta, fetchedAt) \<Rightarrow> if now - fetchedAt < mq_cacheTTL p then (p, Inr meta) else miss
      | None \<Rightarrow> miss)"

text \<open>\<open>Dial\<close>, \<open>Channel\<close> and \<open>ExchangeDeclare\<close> in sequence.\<close>

definition dialPublisher :: "('n, 'h) mqEnv \<Rightarrow> string \<Rightarrow> ('n, 'h) tenantPublisher result" where
  "dialPublisher env u =
     (case mq_dial env u of
        Inl e \<Rightarrow> Inl e
      | Inr conn \<Rightarrow>
          (case mq_channel env conn of
             Inl e \<Rightarrow> Inl e
           | Inr ch \<Rightarrow>
               (case mq_exchangeDeclare env ch ''chat.events'' ''topic'' of
                  Inl e \<Rightarrow> Inl e
                | Inr _ \<Rightarrow> Inr (conn, ch))))"

definition openPublisher ::
  "('n, 'h) AMQPPublisher \<Rightarrow> string \<Rightarrow> mqMeta \<Rightarrow> ('n, 'h) mqEnv
   \<Rightarrow> ('n, 'h) AMQPPublisher \<times> ('n, 'h) tenantPublisher result" where
  "openPublisher p tenantID meta env =
     (case mq_dedicated p tenantID of
        Some existing \<Rightarrow> (p, Inr existing)
      | None \<Rightarrow>
          (case dialPublisher env (url meta) of
             Inl e \<Rightarrow> (p, Inl e)
           | Inr pub \<Rightarrow> (p\<lparr>mq_dedicated := (mq_dedicated p)(tenantID \<mapsto> pub)\<rparr>, Inr pub)))"

definition publisherForTenant ::
  "('n, 'h) AMQPPublisher \<Rightarrow> string \<Rightarrow> ('n, 'h) mqEnv
   \<Rightarrow> ('n, 'h) AMQPPublisher \<times> ('n, 'h) tenantPublisher result" where
  "publisherForTenant p tenantID env =
     (if TrimSpace tenantID = '''' then (p, Inr (mq_shared p))
      else let (p', loaded) = mq_loadMeta p tenantID env in
        case loaded of
          Inl e \<Rightarrow> (p', Inl e)
        | Inr meta \<Rightarrow>
            if \<not> isActive meta then (p', Inl ''tenant is inactive'')
            else if mode meta \<noteq> ''dedicated'' \<or> TrimSpace (url meta) = '''' then (p', Inr (mq_shared p'))
            else (case mq_dedicated p' tenantID of
                    Some existing \<Rightarrow> (p', Inr existing)
                  | None \<Rightarrow> openPublisher p' tenantID meta env))"

text \<open>\<open>Publish\<close>; \<open>payload\<close> is what \<open>json.Marshal\<close> returned.\<close>

definition routingKeyFor :: "string \<Rightarrow> string \<Rightarrow> string" where
  "routingKeyFor tenantID key = (if TrimSpace tenantID \<noteq> '''' then tenantID @ ''.'' @ key else key)"

definition Publish ::
  "('n, 'h) AMQPPublisher \<Rightarrow> string \<Rightarrow> string \<Rightarrow> string result \<Rightarrow> ('n, 'h) mqEnv
   \<Rightarrow> ('n, 'h) AMQPPublisher \<times> unit result" where
  "Publish p tenantID key payload env =
     (let (p', found) = publisherForTenant p tenantID env in
      case found of
        Inl e \<Rightarrow> (p', Inl e)
      | Inr publisher \<Rightarrow>
          (case payload of
             Inl e \<Rightarrow> (p', Inl e)
           | Inr body \<Rightarrow>
               (p', mq_publish env (snd publisher) ''chat.events'' (routingKeyFor tenantID key) body)))"

definition mq_InvalidateTenant ::
  "('n, 'h) AMQPPublisher \<Rightarrow> string \<Rightarrow> ('n, 'h) AMQPPublisher \<times> ('n, 'h) tenantPublisher list" where
  "mq_InvalidateTenant p tenant =
     (let tenantID = TrimSpace tenant in
      if tenantID = '''' then (p, [])
      else let p' = p\<lparr>mq_metaCache := (mq_metaCache p)(tenantID := None)\<rparr> in
        case mq_dedicated p' tenantID of
          Some pub \<Rightarrow> (p'\<lparr>mq_dedicated := (mq_dedicated p')(tenantID := None)\<rparr>, [pub])
        | None \<Rightarrow> (p', []))"

fun mq_Close ::
  "('n, 'h) AMQPPublisher \<Rightarrow> string list \<Rightarrow> ('n, 'h) AMQPPublisher \<times> ('n, 'h) tenantPublisher list" where
  "mq_Close p [] = (p, [])"
| "mq_Close p (tenantID # keys) =
     (case mq_dedicated p tenantID of
        None \<Rightarrow> mq_Close p keys
      | Some pub \<Rightarrow>
          let (p', closed) = mq_Close (p\<lparr>mq_dedicated := (mq_dedicated p)(tenantID := None)\<rparr>) keys
          in (p', pub # closed))"

section \<open>The routers keep the contract\<close>

lemmas db_router_defs = DBForTenant_def loadTenantMeta_def openDedicated_def db_InvalidateTenant_def
lemmas rd_router_defs = ClientForTenant_def rd_loadMeta_def openRedis_def rd_InvalidateTenant_def
lemmas mo_router_defs = Resolve_def mo_loadMeta_def openMinIO_def mo_InvalidateTenant_def
lemmas mq_router_defs = publisherForTenant_def mq_loadMeta_def openPublisher_def mq_InvalidateTenant_def

definition db_view :: "'c TenantDBRouter \<Rightarrow> (TenantDBMeta, 'c) view" where
  "db_view r = \<lparr>vcache = db_metaCache r, vclients = db_dedicated r\<rparr>"

definition db_wants :: "TenantDBMeta \<Rightarrow> bool" where
  "db_wants m \<longleftrightarrow> DeploymentMode m = ''dedicated'' \<and> TrimSpace (DedicatedDSN m) \<noteq> ''''"

fun db_render :: "'c TenantDBRouter \<Rightarrow> (TenantDBMeta, 'c) placement \<Rightarrow> 'c" where
  "db_render r (Own m c) = c"
| "db_render r _ = db_shared r"

definition db_forget :: "'c TenantDBRouter \<Rightarrow> string \<Rightarrow> 'c TenantDBRouter" where
  "db_forget r t = fst (db_InvalidateTenant r t)"

lemma db_render_config: "db_shared r' = db_shared r \<Longrightarrow> db_render r' = db_render r"
proof
  fix x assume "db_shared r' = db_shared r"
  then show "db_render r' x = db_render r x" by (cases x) auto
qed

lemma db_config_load:
  "db_shared (fst (loadTenantMeta r t e)) = db_shared r
   \<and> db_cacheTTL (fst (loadTenantMeta r t e)) = db_cacheTTL r"
  by (simp add: loadTenantMeta_def Let_def split: option.split sum.split)

lemma db_config_open:
  "db_shared (fst (openDedicated r t m e)) = db_shared r
   \<and> db_cacheTTL (fst (openDedicated r t m e)) = db_cacheTTL r"
  by (simp add: openDedicated_def Let_def split: option.split sum.split)

lemma db_config_route:
  "db_shared (fst (DBForTenant r t e)) = db_shared r
   \<and> db_cacheTTL (fst (DBForTenant r t e)) = db_cacheTTL r"
  using db_config_load[of r t e]
  by (cases "loadTenantMeta r t e") (auto simp: DBForTenant_def db_config_open split: sum.split option.split)

lemma db_config_forget:
  "db_shared (fst (db_InvalidateTenant r t)) = db_shared r
   \<and> db_cacheTTL (fst (db_InvalidateTenant r t)) = db_cacheTTL r"
  by (simp add: db_InvalidateTenant_def Let_def split: option.split)

lemma db_load_spec:
  "spec_load (db_cacheTTL r) (db_now e) (db_provider e t) t (db_view r)
     = (db_view (fst (loadTenantMeta r t e)), snd (loadTenantMeta r t e))"
  by (cases "db_metaCache r t")
     (auto simp: spec_load_def loadTenantMeta_def db_view_def Let_def split: sum.split)

lemma db_open_spec:
  "db_view (fst (openDedicated r t m e)) = fst (spec_open (\<lambda>m. db_poolNew e (DedicatedDSN m)) t m (db_view r))
   \<and> snd (openDedicated r t m e) = map_sum id (db_render r) (snd (spec_open (\<lambda>m. db_poolNew e (DedicatedDSN m)) t m (db_view r)))"
  by (auto simp: spec_open_def openDedicated_def db_view_def Let_def split: option.split sum.split)

lemma db_route_spec:
  "db_view (fst (DBForTenant r t e)) = fst (spec_route (db_cacheTTL r) IsActive db_wants (db_now e) (db_provider e t) (\<lambda>m. db_poolNew e (DedicatedDSN m)) t (db_view r))
   \<and> snd (DBForTenant r t e) = map_sum id (db_render r) (snd (spec_route (db_cacheTTL r) IsActive db_wants (db_now e) (db_provider e t) (\<lambda>m. db_poolNew e (DedicatedDSN m)) t (db_view r)))"
proof (cases "loadTenantMeta r t e")
  case (Pair r' loaded)
  then have ld: "spec_load (db_cacheTTL r) (db_now e) (db_provider e t) t (db_view r) = (db_view r', loaded)"
    using db_load_spec[of r e t] by simp
  have cfg: "db_render r' = db_render r"
    using Pair db_config_load[of r t e] by (intro db_render_config) simp_all
  have known: "db_dedicated r' t = Some c \<Longrightarrow> spec_open (\<lambda>m. db_poolNew e (DedicatedDSN m)) t m (db_view r') = (db_view r', Inr (Own m c))" for c m
    by (simp add: spec_open_def db_view_def)
  show ?thesis
    unfolding DBForTenant_def spec_route_def Pair ld Let_def
    using db_open_spec[of r' t _ e] known cfg db_config_load[of r t e] Pair
    by (auto simp: spec_place_def db_wants_def split: sum.split option.split)
qed

lemma db_render_route: "db_render (fst (DBForTenant r t e)) = db_render r"
  by (rule db_render_config) (simp_all add: db_config_route)

lemma db_render_forget: "db_render (db_forget r t) = db_render r"
  by (rule db_render_config) (simp_all add: db_forget_def db_config_forget)

interpretation dbr: tenant_router db_view DBForTenant db_forget db_render db_cacheTTL IsActive
  db_wants db_now "\<lambda>r e t. db_provider e t" "\<lambda>e m. db_poolNew e (DedicatedDSN m)"
proof (unfold_locales, goal_cases)
  case (1 r t e)
  show ?case using db_route_spec[of r t e] by simp
next
  case (2 r t e)
  show ?case using db_route_spec[of r t e] by simp
next
  case (3 r t)
  then show ?case
    by (auto simp: db_view_def db_forget_def db_router_defs spec_invalidate_def Let_def split: option.splits)
qed (simp_all add: db_render_route db_render_forget db_config_route db_config_forget db_config_forget[folded db_forget_def])

definition rd_view :: "'c TenantRedisRouter \<Rightarrow> (redisMeta, 'c) view" where
  "rd_view r = \<lparr>vcache = rd_metaCache r, vclients = rd_clients r\<rparr>"

definition rd_wants :: "redisMeta \<Rightarrow> bool" where
  "rd_wants m \<longleftrightarrow> Mode m = ''dedicated'' \<and> TrimSpace (Addr m) \<noteq> ''''"

fun rd_render :: "'c TenantRedisRouter \<Rightarrow> (redisMeta, 'c) placement \<Rightarrow> 'c" where
  "rd_render r (Own m c) = c"
| "rd_render r _ = rd_shared r"

definition rd_forget :: "'c TenantRedisRouter \<Rightarrow> string \<Rightarrow> 'c TenantRedisRouter" where
  "rd_forget r t = fst (rd_InvalidateTenant r t)"

definition rd_fetch :: "'c TenantRedisRouter \<Rightarrow> 'c redisEnv \<Rightarrow> string \<Rightarrow> redisMeta result" where
  "rd_fetch r env t =
     (if \<not> rd_hasProvider r then Inr \<lparr>Mode = ''shared'', Addr = '''', rm_IsActive = True\<rparr>
      else map_sum id (\<lambda>pm. \<lparr>Mode = ToLower (TrimSpace (rd_DeploymentMode pm)),
             Addr = TrimSpace (rd_DedicatedRedisAddr pm), rm_IsActive = rd_IsActive pm\<rparr>)
           (rd_provider env t))"

lemma rd_render_config: "rd_shared r' = rd_shared r \<Longrightarrow> rd_render r' = rd_render r"
proof
  fix x assume "rd_shared r' = rd_shared r"
  then show "rd_render r' x = rd_render r x" by (cases x) auto
qed

lemma rd_fetch_config: "rd_hasProvider r' = rd_hasProvider r \<Longrightarrow> rd_fetch r' = rd_fetch r"
  by (intro ext) (simp add: rd_fetch_def)

lemma rd_config_load:
  "rd_shared (fst (rd_loadMeta r t e)) = rd_shared r
   \<and> rd_hasProvider (fst (rd_loadMeta r t e)) = rd_hasProvider r
   \<and> rd_cacheTTL (fst (rd_loadMeta r t e)) = rd_cacheTTL r"
  by (simp add: rd_loadMeta_def Let_def split: option.split sum.split)

lemma rd_config_open:
  "rd_shared (fst (openRedis r t m e)) = rd_shared r
   \<and> rd_hasProvider (fst (openRedis r t m e)) = rd_hasProvider r
   \<and> rd_cacheTTL (fst (openRedis r t m e)) = rd_cacheTTL r"
  by (simp add: openRedis_def Let_def split: option.split sum.split)

lemma rd_config_route:
  "rd_shared (fst (ClientForTenant r t e)) = rd_shared r
   \<and> rd_hasProvider (fst (ClientForTenant r t e)) = rd_hasProvider r
   \<and> rd_cacheTTL (fst (ClientForTenant r t e)) = rd_cacheTTL r"
  using rd_config_load[of r t e]
  by (cases "rd_loadMeta r t e") (auto simp: ClientForTenant_def rd_config_open split: sum.split option.split)

lemma rd_config_forget:
  "rd_shared (fst (rd_InvalidateTenant r t)) = rd_shared r
   \<and> rd_hasProvider (fst (rd_InvalidateTenant r t)) = rd_hasProvider r
   \<and> rd_cacheTTL (fst (rd_InvalidateTenant r t)) = rd_cacheTTL r"
  by (simp add: rd_InvalidateTenant_def Let_def split: option.split)

lemma rd_load_spec:
  "spec_load (rd_cacheTTL r) (rd_now e) (rd_fetch r e t) t (rd_view r)
     = (rd_view (fst (rd_loadMeta r t e)), snd (rd_loadMeta r t e))"
  by (cases "rd_metaCache r t")
     (auto simp: spec_load_def rd_loadMeta_def rd_view_def rd_fetch_def Let_def split: sum.split)

lemma rd_open_spec:
  "rd_view (fst (openRedis r t m e)) = fst (spec_open (\<lambda>m. Inr (rd_newClient e (Addr m))) t m (rd_view r))
   \<and> snd (openRedis r t m e) = map_sum id (rd_render r) (snd (spec_open (\<lambda>m. Inr (rd_newClient e (Addr m))) t m (rd_view r)))"
  by (auto simp: spec_open_def openRedis_def rd_view_def Let_def split: option.split sum.split)

lemma rd_route_spec:
  "rd_view (fst (ClientForTenant r t e)) = fst (spec_route (rd_cacheTTL r) rm_IsActive rd_wants (rd_now e) (rd_fetch r e t) (\<lambda>m. Inr (rd_newClient e (Addr m))) t (rd_view r))
   \<and> snd (ClientForTenant r t e) = map_sum id (rd_render r) (snd (spec_route (rd_cacheTTL r) rm_IsActive rd_wants (rd_now e) (rd_fetch r e t) (\<lambda>m. Inr (rd_newClient e (Addr m))) t (rd_view r)))"
proof (cases "rd_loadMeta r t e")
  case (Pair r' loaded)
  then have ld: "spec_load (rd_cacheTTL r) (rd_now e) (rd_fetch r e t) t (rd_view r) = (rd_view r', loaded)"
    using rd_load_spec[of r e t] by simp
  have cfg: "rd_render r' = rd_render r"
    using Pair rd_config_load[of r t e] by (intro rd_render_config) simp_all
  have known: "rd_clients r' t = Some c \<Longrightarrow> spec_open (\<lambda>m. Inr (rd_newClient e (Addr m))) t m (rd_view r') = (rd_view r', Inr (Own m c))" for c m
    by (simp add: spec_open_def rd_view_def)
  show ?thesis
    unfolding ClientForTenant_def spec_route_def Pair ld Let_def
    using rd_open_spec[of r' t _ e] known cfg rd_config_load[of r t e] Pair
    by (auto simp: spec_place_def rd_wants_def split: sum.split option.split)
qed

lemma rd_render_route: "rd_render (fst (ClientForTenant r t e)) = rd_render r"
  by (rule rd_render_config) (simp_all add: rd_config_route)

lemma rd_render_forget: "rd_render (rd_forget r t) = rd_render r"
  by (rule rd_render_config) (simp_all add: rd_forget_def rd_config_forget)

lemma rd_fetch_route: "rd_fetch (fst (ClientForTenant r t e)) = rd_fetch r"
  by (rule rd_fetch_config) (simp add: rd_config_route)

lemma rd_fetch_forget: "rd_fetch (rd_forget r t) = rd_fetch r"
  by (rule rd_fetch_config) (simp add: rd_forget_def rd_config_forget)

interpretation rdr: tenant_router rd_view ClientForTenant rd_forget rd_render rd_cacheTTL rm_IsActive
  rd_wants rd_now rd_fetch "\<lambda>e m. Inr (rd_newClient e (Addr m))"
proof (unfold_locales, goal_cases)
  case (1 r t e)
  show ?case using rd_route_spec[of r t e] by simp
next
  case (2 r t e)
  show ?case using rd_route_spec[of r t e] by simp
next
  case (3 r t)
  then show ?case
    by (auto simp: rd_view_def rd_forget_def rd_router_defs spec_invalidate_def Let_def split: option.splits)
qed (simp_all add: rd_render_route rd_render_forget rd_fetch_route rd_fetch_forget
      rd_config_route rd_config_forget rd_config_forget[folded rd_forget_def])

definition mo_view :: "'c TenantMinIORouter \<Rightarrow> (TenantMinIOMeta, 'c) view" where
  "mo_view r = \<lparr>vcache = mo_metaCache r, vclients = mo_clients r\<rparr>"

definition mo_wants :: "TenantMinIOMeta \<Rightarrow> bool" where
  "mo_wants m \<longleftrightarrow> mo_Mode m = ''dedicated'' \<and> TrimSpace (mo_Endpoint m) \<noteq> '''' \<and> TrimSpace (mo_Bucket m) \<noteq> ''''"

fun mo_render ::
  "'c TenantMinIORouter \<Rightarrow> (TenantMinIOMeta, 'c) placement \<Rightarrow> 'c \<times> string \<times> string" where
  "mo_render r Unscoped = (mo_sharedClient r, mo_sharedBucket r, '''')"
| "mo_render r (SharedBy t) = (mo_sharedClient r, mo_sharedBucket r, ''tenants/'' @ t @ ''/'')"
| "mo_render r (Own m c) = (c, mo_Bucket m, '''')"

definition mo_fetch :: "'c TenantMinIORouter \<Rightarrow> 'c minioEnv \<Rightarrow> string \<Rightarrow> TenantMinIOMeta result" where
  "mo_fetch r env t = map_sum id (\<lambda>pm. pm\<lparr>mo_Mode := ToLower (TrimSpace (mo_Mode pm)),
     mo_Endpoint := TrimSpace (mo_Endpoint pm), mo_Bucket := TrimSpace (mo_Bucket pm)\<rparr>) (mo_provider env t)"

definition mo_open :: "'c minioEnv \<Rightarrow> TenantMinIOMeta \<Rightarrow> 'c result" where
  "mo_open env m =
     (case mo_new env (mo_Endpoint m) (mo_AccessKey m) (mo_SecretKey m) (mo_UseSSL m) of
        Inl e \<Rightarrow> Inl e
      | Inr c \<Rightarrow> (case EnsureBucket env c (mo_Bucket m) of Inl e \<Rightarrow> Inl e | Inr _ \<Rightarrow> Inr c))"

lemma mo_render_config:
  "mo_sharedClient r' = mo_sharedClient r \<Longrightarrow> mo_sharedBucket r' = mo_sharedBucket r \<Longrightarrow>
     mo_render r' = mo_render r"
proof
  fix x assume "mo_sharedClient r' = mo_sharedClient r" "mo_sharedBucket r' = mo_sharedBucket r"
  then show "mo_render r' x = mo_render r x" by (cases x) auto
qed

lemma mo_config_load:
  "mo_sharedClient (fst (mo_loadMeta r t e)) = mo_sharedClient r
   \<and> mo_sharedBucket (fst (mo_loadMeta r t e)) = mo_sharedBucket r
   \<and> mo_cacheTTL (fst (mo_loadMeta r t e)) = mo_cacheTTL r"
  by (simp add: mo_loadMeta_def Let_def split: option.split sum.split)

lemma mo_config_open:
  "mo_sharedClient (fst (openMinIO r t m e)) = mo_sharedClient r
   \<and> mo_sharedBucket (fst (openMinIO r t m e)) = mo_sharedBucket r
   \<and> mo_cacheTTL (fst (openMinIO r t m e)) = mo_cacheTTL r"
  by (simp add: openMinIO_def Let_def split: option.split sum.split)

lemma mo_config_route:
  "mo_sharedClient (fst (Resolve r t e)) = mo_sharedClient r
   \<and> mo_sharedBucket (fst (Resolve r t e)) = mo_sharedBucket r
   \<and> mo_cacheTTL (fst (Resolve r t e)) = mo_cacheTTL r"
  using mo_config_load[of r t e]
  by (cases "mo_loadMeta r t e") (auto simp: Resolve_def mo_config_open split: sum.split option.split)

lemma mo_config_forget:
  "mo_sharedClient (mo_InvalidateTenant r t) = mo_sharedClient r
   \<and> mo_sharedBucket (mo_InvalidateTenant r t) = mo_sharedBucket r
   \<and> mo_cacheTTL (mo_InvalidateTenant r t) = mo_cacheTTL r"
  by (simp add: mo_InvalidateTenant_def Let_def split: option.split)

lemma mo_fetch_config: "mo_fetch r' = mo_fetch r"
  by (intro ext) (simp add: mo_fetch_def)

lemma mo_load_spec:
  "spec_load (mo_cacheTTL r) (mo_now e) (mo_fetch r e t) t (mo_view r)
     = (mo_view (fst (mo_loadMeta r t e)), snd (mo_loadMeta r t e))"
  by (cases "mo_metaCache r t")
     (auto simp: spec_load_def mo_loadMeta_def mo_view_def mo_fetch_def Let_def split: sum.split)

lemma mo_open_spec:
  "mo_view (fst (openMinIO r t m e)) = fst (spec_open (mo_open e) t m (mo_view r))
   \<and> snd (openMinIO r t m e) = map_sum id (mo_render r) (snd (spec_open (mo_open e) t m (mo_view r)))"
  by (auto simp: spec_open_def openMinIO_def mo_view_def mo_open_def Let_def split: option.split sum.split)

lemma mo_route_spec:
  "mo_view (fst (Resolve r t e)) = fst (spec_route (mo_cacheTTL r) mo_IsActive mo_wants (mo_now e) (mo_fetch r e t) (mo_open e) t (mo_view r))
   \<and> snd (Resolve r t e) = map_sum id (mo_render r) (snd (spec_route (mo_cacheTTL r) mo_IsActive mo_wants (mo_now e) (mo_fetch r e t) (mo_open e) t (mo_view r)))"
proof (cases "mo_loadMeta r t e")
  case (Pair r' loaded)
  then have ld: "spec_load (mo_cacheTTL r) (mo_now e) (mo_fetch r e t) t (mo_view r) = (mo_view r', loaded)"
    using mo_load_spec[of r e t] by simp
  have cfg: "mo_render r' = mo_render r"
    using Pair mo_config_load[of r t e] by (intro mo_render_config) simp_all
  have known: "mo_clients r' t = Some c \<Longrightarrow> spec_open (mo_open e) t m (mo_view r') = (mo_view r', Inr (Own m c))" for c m
    by (simp add: spec_open_def mo_view_def)
  show ?thesis
    unfolding Resolve_def spec_route_def Pair ld Let_def
    using mo_open_spec[of r' t _ e] known cfg mo_config_load[of r t e] Pair
    by (auto simp: spec_place_def mo_wants_def split: sum.split option.split)
qed

lemma mo_render_route: "mo_render (fst (Resolve r t e)) = mo_render r"
  by (rule mo_render_config) (simp_all add: mo_config_route)

lemma mo_render_forget: "mo_render (mo_InvalidateTenant r t) = mo_render r"
  by (rule mo_render_config) (simp_all add: mo_config_forget)

lemma mo_fetch_route: "mo_fetch (fst (Resolve r t e)) = mo_fetch r"
  by (rule mo_fetch_config)

lemma mo_fetch_forget: "mo_fetch (mo_InvalidateTenant r t) = mo_fetch r"
  by (rule mo_fetch_config)

interpretation mor: tenant_router mo_view Resolve mo_InvalidateTenant mo_render mo_cacheTTL mo_IsActive
  mo_wants mo_now mo_fetch mo_open
proof (unfold_locales, goal_cases)
  case (1 r t e)
  show ?case using mo_route_spec[of r t e] by simp
next
  case (2 r t e)
  show ?case using mo_route_spec[of r t e] by simp
next
  case (3 r t)
  then show ?case
    by (auto simp: mo_view_def mo_router_defs spec_invalidate_def Let_def split: option.splits)
qed (simp_all add: mo_render_route mo_render_forget mo_fetch_route mo_fetch_forget
      mo_config_route mo_config_forget)

definition mq_view :: "('n, 'h) AMQPPublisher \<Rightarrow> (mqMeta, ('n, 'h) tenantPublisher) view" where
  "mq_view p = \<lparr>vcache = mq_metaCache p, vclients = mq_dedicated p\<rparr>"

definition mq_wants :: "mqMeta \<Rightarrow> bool" where
  "mq_wants m \<longleftrightarrow> mode m = ''dedicated'' \<and> TrimSpace (url m) \<noteq> ''''"

fun mq_render ::
  "('n, 'h) AMQPPublisher \<Rightarrow> (mqMeta, ('n, 'h) tenantPublisher) placement \<Rightarrow> ('n, 'h) tenantPublisher" where
  "mq_render p (Own m c) = c"
| "mq_render p _ = mq_shared p"

definition mq_forget :: "('n, 'h) AMQPPublisher \<Rightarrow> string \<Rightarrow> ('n, 'h) AMQPPublisher" where
  "mq_forget p t = fst (mq_InvalidateTenant p t)"

definition mq_fetch :: "('n, 'h) AMQPPublisher \<Rightarrow> ('n, 'h) mqEnv \<Rightarrow> string \<Rightarrow> mqMeta result" where
  "mq_fetch p env t =
     (if \<not> mq_hasProvider p then Inr \<lparr>mode = ''shared'', url = '''', isActive = True\<rparr>
      else map_sum id (\<lambda>pm. \<lparr>mode = ToLower (TrimSpace (mq_DeploymentMode pm)),
             url = TrimSpace (mq_DedicatedLavinMQURL pm), isActive = mq_IsActive pm\<rparr>)
           (mq_provider env t))"

lemma mq_render_config: "mq_shared p' = mq_shared p \<Longrightarrow> mq_render p' = mq_render p"
proof
  fix x assume "mq_shared p' = mq_shared p"
  then show "mq_render p' x = mq_render p x" by (cases x) auto
qed

lemma mq_fetch_config: "mq_hasProvider p' = mq_hasProvider p \<Longrightarrow> mq_fetch p' = mq_fetch p"
  by (intro ext) (simp add: mq_fetch_def)

lemma mq_config_load:
  "mq_shared (fst (mq_loadMeta p t e)) = mq_shared p
   \<and> mq_hasProvider (fst (mq_loadMeta p t e)) = mq_hasProvider p
   \<and> mq_cacheTTL (fst (mq_loadMeta p t e)) = mq_cacheTTL p"
  by (simp add: mq_loadMeta_def Let_def split: option.split sum.split)

lemma mq_config_open:
  "mq_shared (fst (openPublisher p t m e)) = mq_shared p
   \<and> mq_hasProvider (fst (openPublisher p t m e)) = mq_hasProvider p
   \<and> mq_cacheTTL (fst (openPublisher p t m e)) = mq_cacheTTL p"
  by (simp add: openPublisher_def Let_def split: option.split sum.split)

lemma mq_config_route:
  "mq_shared (fst (publisherForTenant p t e)) = mq_shared p
   \<and> mq_hasProvider (fst (publisherForTenant p t e)) = mq_hasProvider p
   \<and> mq_cacheTTL (fst (publisherForTenant p t e)) = mq_cacheTTL p"
  using mq_config_load[of p t e]
  by (cases "mq_loadMeta p t e") (auto simp: publisherForTenant_def mq_config_open split: sum.split option.split)

lemma mq_config_forget:
  "mq_shared (fst (mq_InvalidateTenant p t)) = mq_shared p
   \<and> mq_hasProvider (fst (mq_InvalidateTenant p t)) = mq_hasProvider p
   \<and> mq_cacheTTL (fst (mq_InvalidateTenant p t)) = mq_cacheTTL p"
  by (simp add: mq_InvalidateTenant_def Let_def split: option.split)

lemma mq_load_spec:
  "spec_load (mq_cacheTTL p) (mq_now e) (mq_fetch p e t) t (mq_view p)
     = (mq_view (fst (mq_loadMeta p t e)), snd (mq_loadMeta p t e))"
  by (cases "mq_metaCache p t")
     (auto simp: spec_load_def mq_loadMeta_def mq_view_def mq_fetch_def Let_def split: sum.split)

lemma mq_open_spec:
  "mq_view (fst (openPublisher p t m e)) = fst (spec_open (\<lambda>m. dialPublisher e (url m)) t m (mq_view p))
   \<and> snd (openPublisher p t m e) = map_sum id (mq_render p) (snd (spec_open (\<lambda>m. dialPublisher e (url m)) t m (mq_view p)))"
  by (auto simp: spec_open_def openPublisher_def mq_view_def Let_def split: option.split sum.split)

lemma mq_route_spec:
  "mq_view (fst (publisherForTenant p t e)) = fst (spec_route (mq_cacheTTL p) isActive mq_wants (mq_now e) (mq_fetch p e t) (\<lambda>m. dialPublisher e (url m)) t (mq_view p))
   \<and> snd (publisherForTenant p t e) = map_sum id (mq_render p) (snd (spec_route (mq_cacheTTL p) isActive mq_wants (mq_now e) (mq_fetch p e t) (\<lambda>m. dialPublisher e (url m)) t (mq_view p)))"
proof (cases "mq_loadMeta p t e")
  case (Pair r' loaded)
  then have ld: "spec_load (mq_cacheTTL p) (mq_now e) (mq_fetch p e t) t (mq_view p) = (mq_view r', loaded)"
    using mq_load_spec[of p e t] by simp
  have cfg: "mq_render r' = mq_render p"
    using Pair mq_config_load[of p t e] by (intro mq_render_config) simp_all
  have known: "mq_dedicated r' t = Some c \<Longrightarrow> spec_open (\<lambda>m. dialPublisher e (url m)) t m (mq_view r') = (mq_view r', Inr (Own m c))" for c m
    by (simp add: spec_open_def mq_view_def)
  show ?thesis
    unfolding publisherForTenant_def spec_route_def Pair ld Let_def
    using mq_open_spec[of r' t _ e] known cfg mq_config_load[of p t e] Pair
    by (auto simp: spec_place_def mq_wants_def split: sum.split option.split)
qed

lemma mq_render_route: "mq_render (fst (publisherForTenant p t e)) = mq_render p"
  by (rule mq_render_config) (simp_all add: mq_config_route)

lemma mq_render_forget: "mq_render (mq_forget p t) = mq_render p"
  by (rule mq_render_config) (simp_all add: mq_forget_def mq_config_forget)

lemma mq_fetch_route: "mq_fetch (fst (publisherForTenant p t e)) = mq_fetch p"
  by (rule mq_fetch_config) (simp add: mq_config_route)

lemma mq_fetch_forget: "mq_fetch (mq_forget p t) = mq_fetch p"
  by (rule mq_fetch_config) (simp add: mq_forget_def mq_config_forget)

interpretation mqr: tenant_router mq_view publisherForTenant mq_forget mq_render mq_cacheTTL isActive
  mq_wants mq_now mq_fetch "\<lambda>e m. dialPublisher e (url m)"
proof (unfold_locales, goal_cases)
  case (1 r t e)
  show ?case using mq_route_spec[of r t e] by simp
next
  case (2 r t e)
  show ?case using mq_route_spec[of r t e] by simp
next
  case (3 r t)
  then show ?case
    by (auto simp: mq_view_def mq_forget_def mq_router_defs spec_invalidate_def Let_def split: option.splits)
qed (simp_all add: mq_render_route mq_render_forget mq_fetch_route mq_fetch_forget
      mq_config_route mq_config_forget mq_config_forget[folded mq_forget_def])

section \<open>Properties\<close>

text \<open>
  What \<open>DBForTenant\<close> returns. For a tenant id that is not blank, the metadata in force is
  the cached one if it is younger than the TTL and else what the provider reports now; an
  inactive tenant is refused, a tenant without a dedicated data base gets the shared pool, and
  a dedicated one its pool, opened on first use. Errors of the provider and of the driver come
  back as they are.
\<close>

theorem DBForTenant_answer:
  assumes "TrimSpace t \<noteq> ''''"
  shows "snd (DBForTenant r t e) =
     (case in_force (db_cacheTTL r) (db_now e) (db_provider e t) t (db_view r) of
        Inl x \<Rightarrow> Inl x
      | Inr m \<Rightarrow>
          if \<not> IsActive m then Inl ''tenant is inactive''
          else if \<not> db_wants m then Inr (db_shared r)
          else (case db_dedicated r t of
                  Some c \<Rightarrow> Inr c
                | None \<Rightarrow> db_poolNew e (DedicatedDSN m)))"
  unfolding dbr.answer[OF assms] by (auto simp: db_view_def split: sum.splits option.splits)

definition acme :: "TenantDBMeta" where
  "acme = \<lparr>DeploymentMode = ''dedicated'', DedicatedDSN = ''pg://acme'', IsActive = True\<rparr>"

definition acmeEnv :: "string dbEnv" where
  "acmeEnv = \<lparr>db_now = 7, db_provider = (\<lambda>_. Inr acme), db_poolNew = (\<lambda>dsn. Inr dsn)\<rparr>"

theorem DBForTenant_answer_witness:
  "snd (DBForTenant (NewTenantDBRouterWithProvider ''shared'') ''acme'' acmeEnv) = Inr ''pg://acme''"
proof -
  have "TrimSpace ''acme'' \<noteq> ''''" by (simp add: TrimSpace_eval)
  from DBForTenant_answer[OF this, of "NewTenantDBRouterWithProvider ''shared''" acmeEnv]
  show ?thesis
    by (simp add: acmeEnv_def acme_def in_force_def db_view_def NewTenantDBRouterWithProvider_def
        db_wants_def TrimSpace_eval)
qed

text \<open>
  C13: Revocation takes effect within the TTL. If from time \<open>d\<close> on the provider never reports
  the tenant as active, then a router that was created with no cached entries refuses the
  tenant in every call made 30 seconds or more after \<open>d\<close>, whatever calls and invalidations
  came before and in whatever order.
\<close>

theorem DBForTenant_revoked:
  assumes "TrimSpace t \<noteq> ''''"
    and "\<forall>e' m. Route t e' \<in> set evs \<and> d \<le> db_now e' \<and> db_provider e' t = Inr m \<longrightarrow> \<not> IsActive m"
    and "\<forall>m. db_provider e t = Inr m \<longrightarrow> \<not> IsActive m"
    and "d + 30 * 1000000000 \<le> db_now e"
  shows "\<not> is_ok (snd (DBForTenant
           (run_router DBForTenant db_forget (NewTenantDBRouterWithProvider shared) evs) t e))"
  by (rule dbr.revoked[where d = d])
     (use assms in \<open>auto simp: db_view_def NewTenantDBRouterWithProvider_def\<close>)

theorem DBForTenant_revoked_witness:
  "\<not> is_ok (snd (DBForTenant
      (run_router DBForTenant db_forget (NewTenantDBRouterWithProvider ''shared'') [Route ''acme'' acmeEnv])
      ''acme''
      (acmeEnv\<lparr>db_now := 30000000008, db_provider := (\<lambda>_. Inr (acme\<lparr>IsActive := False\<rparr>))\<rparr>)))"
  by (rule DBForTenant_revoked[where d = 8]) (auto simp: TrimSpace_eval acmeEnv_def)

text \<open>
  Tenant isolation of the pools. Every dedicated pool that a history of calls leaves in the
  router under a tenant was opened by a call for this very tenant, with the DSN of metadata
  that the provider reported for this tenant as active and dedicated.
\<close>

theorem DBForTenant_provenance:
  assumes "db_dedicated (run_router DBForTenant db_forget (NewTenantDBRouterWithProvider shared) evs) t = Some pool"
  shows "\<exists>e e' m. Route t e \<in> set evs \<and> Route t e' \<in> set evs \<and> db_provider e' t = Inr m
    \<and> IsActive m \<and> db_wants m \<and> db_poolNew e (DedicatedDSN m) = Inr pool"
  using dbr.provenance[of "NewTenantDBRouterWithProvider shared" evs t pool] assms
  by (simp add: db_view_def NewTenantDBRouterWithProvider_def)

theorem DBForTenant_provenance_witness:
  "\<exists>e e' m. Route ''acme'' e \<in> set [Route ''acme'' acmeEnv] \<and> Route ''acme'' e' \<in> set [Route ''acme'' acmeEnv]
    \<and> db_provider e' ''acme'' = Inr m \<and> IsActive m \<and> db_wants m
    \<and> db_poolNew e (DedicatedDSN m) = Inr ''pg://acme''"
  by (rule DBForTenant_provenance[where shared = "''shared''"])
     (simp add: run_router_def acmeEnv_def acme_def db_router_defs NewTenantDBRouterWithProvider_def
       TrimSpace_eval)

text \<open>
  \<open>InvalidateTenant\<close> closes exactly the tenant's pool, and the next call for the tenant
  fetches the metadata again and opens a pool for the data base it names then. Other tenants
  keep their entries.
\<close>

theorem db_InvalidateTenant_reopens:
  assumes "TrimSpace t = t" and "t \<noteq> ''''"
    and "db_provider e t = Inr m" and "IsActive m" and "db_wants m"
  shows "snd (db_InvalidateTenant r t) = (case db_dedicated r t of None \<Rightarrow> [] | Some pool \<Rightarrow> [pool])
    \<and> snd (DBForTenant (fst (db_InvalidateTenant r t)) t e) = db_poolNew e (DedicatedDSN m)
    \<and> (\<forall>t'. t' \<noteq> t \<longrightarrow> db_dedicated (fst (db_InvalidateTenant r t)) t' = db_dedicated r t'
          \<and> db_metaCache (fst (db_InvalidateTenant r t)) t' = db_metaCache r t')"
proof (intro conjI)
  show "snd (db_InvalidateTenant r t) = (case db_dedicated r t of None \<Rightarrow> [] | Some pool \<Rightarrow> [pool])"
    using assms(1,2) by (simp add: db_InvalidateTenant_def Let_def split: option.split)
  show "snd (DBForTenant (fst (db_InvalidateTenant r t)) t e) = db_poolNew e (DedicatedDSN m)"
    using assms dbr.answer[of t "db_forget r t" e] dbr.invalidate_refetch[OF assms(1,2), of r]
    by (auto simp: in_force_def db_forget_def split: sum.splits)
  show "\<forall>t'. t' \<noteq> t \<longrightarrow> db_dedicated (fst (db_InvalidateTenant r t)) t' = db_dedicated r t'
          \<and> db_metaCache (fst (db_InvalidateTenant r t)) t' = db_metaCache r t'"
    using dbr.invalidate_frame[of _ t r] assms(1) by (simp add: db_view_def db_forget_def)
qed

theorem db_InvalidateTenant_reopens_witness:
  "snd (DBForTenant (fst (db_InvalidateTenant
      ((NewTenantDBRouterWithProvider ''shared'')\<lparr>db_dedicated := [''acme'' \<mapsto> ''pg://old'']\<rparr>) ''acme''))
      ''acme'' acmeEnv) = Inr ''pg://acme''"
proof -
  have "TrimSpace ''acme'' = ''acme''" "''acme'' \<noteq> ''''" "db_provider acmeEnv ''acme'' = Inr acme"
    "IsActive acme" "db_wants acme"
    by (simp_all add: TrimSpace_eval acmeEnv_def acme_def db_wants_def)
  from db_InvalidateTenant_reopens[OF this] show ?thesis
    by (simp add: acmeEnv_def acme_def)
qed

lemma db_Close_dedicated: "db_dedicated (fst (db_Close r keys)) = (db_dedicated r) |` (- set keys)"
proof (induction keys arbitrary: r)
  case (Cons k keys)
  show ?case
    by (cases "db_dedicated r k") (auto simp: Cons.IH case_prod_beta Let_def restrict_map_def fun_eq_iff)
qed (simp add: restrict_map_def)

lemma db_Close_closed:
  "distinct keys \<Longrightarrow>
     snd (db_Close r keys) = concat (map (\<lambda>t. case db_dedicated r t of None \<Rightarrow> [] | Some p \<Rightarrow> [p]) keys)"
proof (induction keys arbitrary: r)
  case (Cons k keys)
  let ?r = "r\<lparr>db_dedicated := (db_dedicated r)(k := None)\<rparr>"
  let ?f = "\<lambda>r t. case db_dedicated r t of None \<Rightarrow> [] | Some p \<Rightarrow> [p]"
  have "map (?f ?r) keys = map (?f r) keys"
    using Cons.prems by (intro map_cong) auto
  moreover have "snd (db_Close ?r keys) = concat (map (?f ?r) keys)" "snd (db_Close r keys) = concat (map (?f r) keys)"
    using Cons by simp_all
  ultimately show ?case by (cases "db_dedicated r k") (simp_all add: case_prod_beta Let_def del: map_eq_conv)
qed simp

text \<open>
  \<open>Close\<close> empties the router. Whatever the order in which the map is visited, each dedicated pool
  is closed, once, and none is left in the map.
\<close>

theorem db_Close_all:
  assumes "distinct keys" and "set keys = dom (db_dedicated r)"
  shows "db_dedicated (fst (db_Close r keys)) = Map.empty
    \<and> snd (db_Close r keys) = map (\<lambda>t. the (db_dedicated r t)) keys"
proof -
  have "map (\<lambda>t. case db_dedicated r t of None \<Rightarrow> [] | Some p \<Rightarrow> [p]) keys = map (\<lambda>t. [the (db_dedicated r t)]) keys"
    using assms(2) by (intro map_cong) auto
  moreover have "concat (map (\<lambda>t. [f t]) ks) = map f ks" for f :: "string \<Rightarrow> 'a" and ks
    by (induction ks) auto
  moreover have "(db_dedicated r) |` (- set keys) = Map.empty"
    using assms(2) by (auto simp: restrict_map_def fun_eq_iff dom_def)
  ultimately show ?thesis
    using db_Close_closed[OF assms(1), of r] db_Close_dedicated[of r keys] by (simp del: map_eq_conv)
qed

theorem db_Close_all_witness:
  "snd (db_Close ((NewTenantDBRouterWithProvider ''s'')\<lparr>db_dedicated := [''a'' \<mapsto> ''p1'', ''b'' \<mapsto> ''p2'']\<rparr>) [''b'', ''a''])
     = [''p2'', ''p1'']"
proof -
  have "distinct [''b'', ''a'']" "set [''b'', ''a''] = dom (db_dedicated
      ((NewTenantDBRouterWithProvider ''s'')\<lparr>db_dedicated := [''a'' \<mapsto> ''p1'', ''b'' \<mapsto> ''p2'']\<rparr>))"
    by (auto simp: dom_def)
  from db_Close_all[OF this] show ?thesis by simp
qed

text \<open>
  Object keys of tenants that share the bucket do not meet. For two different tenants whose
  metadata places them in the shared bucket, \<open>Resolve\<close> gives key prefixes such that no object
  name makes their keys equal, provided tenant ids contain no slash.
\<close>

theorem Resolve_shared_disjoint:
  assumes "t1 \<noteq> t2" and "CHR ''/'' \<notin> set t1" and "CHR ''/'' \<notin> set t2"
    and "TrimSpace t1 \<noteq> ''''" and "TrimSpace t2 \<noteq> ''''"
    and "snd (Resolve r t1 e1) = Inr (c1, b1, p1)" and "p1 \<noteq> ''''"
    and "snd (Resolve r' t2 e2) = Inr (c2, b2, p2)" and "p2 \<noteq> ''''"
  shows "p1 @ n1 \<noteq> p2 @ n2"
proof -
  have "p1 = ''tenants/'' @ t1 @ ''/''"
    using assms(6,7) unfolding mor.answer[OF assms(4)] by (auto split: sum.splits option.splits if_splits)
  moreover have "p2 = ''tenants/'' @ t2 @ ''/''"
    using assms(8,9) unfolding mor.answer[OF assms(5)] by (auto split: sum.splits option.splits if_splits)
  moreover have "t1 @ ''/'' @ n1 \<noteq> t2 @ ''/'' @ n2"
    using assms(1-3) by (simp add: sep_unique)
  ultimately show ?thesis by simp
qed

definition sharedMinIO :: "string minioEnv" where
  "sharedMinIO = \<lparr>mo_now = 0,
     mo_provider = (\<lambda>_. Inr \<lparr>mo_Mode = ''shared'', mo_Endpoint = '''', mo_AccessKey = '''', mo_SecretKey = '''',
       mo_UseSSL = False, mo_Bucket = '''', mo_IsActive = True\<rparr>),
     mo_new = (\<lambda>ep _ _ _. Inr ep), mo_bucketExists = (\<lambda>_ _. Inr True), mo_makeBucket = (\<lambda>_ _. Inr ())\<rparr>"

lemma Resolve_shared_eval:
  assumes "TrimSpace t \<noteq> ''''"
  shows "snd (Resolve (NewTenantMinIORouter ''m'' ''files'') t sharedMinIO)
       = Inr (''m'', ''files'', ''tenants/'' @ t @ ''/'')"
  unfolding mor.answer[OF assms]
  by (simp add: in_force_def mo_view_def NewTenantMinIORouter_def mo_fetch_def sharedMinIO_def mo_wants_def
      TrimSpace_eval ToLower_ascii ascii_def lower_char_def)

theorem Resolve_shared_disjoint_witness:
  "''tenants/a/'' @ ''b'' \<noteq> ''tenants/ab/'' @ ''''"
proof (rule Resolve_shared_disjoint[of "''a''" "''ab''"])
  show "snd (Resolve (NewTenantMinIORouter ''m'' ''files'') ''a'' sharedMinIO)
      = Inr (''m'', ''files'', ''tenants/a/'')"
    by (subst Resolve_shared_eval) (simp_all add: TrimSpace_eval)
  show "snd (Resolve (NewTenantMinIORouter ''m'' ''files'') ''ab'' sharedMinIO)
      = Inr (''m'', ''files'', ''tenants/ab/'')"
    by (subst Resolve_shared_eval) (simp_all add: TrimSpace_eval)
qed (simp_all add: TrimSpace_eval)

end
