(* ===== verification/Json.thy ===== *)
theory Json
  imports Prelude
begin

text \<open>
  JSON values as trees, and the reading of Go values through \<open>encoding/json\<close>: what goes over a
  wire is represented by its tree, and a Go value of type \<open>any\<close> by what \<open>json.Marshal\<close> makes
  of it, an error or a tree. \<open>Unmarshal\<close> of marshalled text gives the tree back.
\<close>

datatype json = JNull | JBool bool | JNum int | JStr string | JArr "json list" | JObj "(string \<times> json) list"

type_synonym goval = "json result"

definition jstrs :: "string list \<Rightarrow> json" where
  "jstrs xs = JArr (map JStr xs)"

definition jget :: "string \<Rightarrow> json \<Rightarrow> json option" where
  "jget k j = (case j of JObj fs \<Rightarrow> map_of fs k | _ \<Rightarrow> None)"

text \<open>\<open>time.Time\<close> in RFC 3339 format is left abstract as a number of nanoseconds.\<close>

definition jtime :: "time \<Rightarrow> json" where
  "jtime t = JNum t"

lemma jget_JObj [simp]: "jget k (JObj fs) = map_of fs k"
  by (simp add: jget_def)

end
