(* ===== verification/Database.thy ===== *)
theory Database
  imports TenantRouters Json "HOL-Library.Product_Lexorder"
begin

text \<open>
  The data the servers keep in PostgreSQL: the structs of \<open>server/chat/domain/models.go\<close>,
  \<open>server/session/domain/types.go\<close> and \<open>server/dbman/domain/models.go\<close>, the tables of
  \<open>migrations/*.sql\<close> as lists of rows in insertion order, and how the repositories of the
  \<open>dbman\<close> server run statements: on the pool that the tenant router gives, in a transaction or
  alone. The statements themselves are in the repository theories.

  Conventions: \<open>NOW()\<close> and \<open>gen_random_uuid()\<close> are arguments; a statement may fail for reasons
  outside the model (a lost connection) and then changes nothing; a violated constraint is an
  error; text is compared bytewise (collation \<open>C\<close>); JSON text is its tree. Rows that \<open>ORDER BY\<close> does not separate come in reverse insertion order under
  \<open>DESC\<close> and in insertion order under \<open>ASC\<close>, one of the orders PostgreSQL may choose.
\<close>

section \<open>Structs\<close>

text \<open>The text of a JSON column or field: empty, no JSON, or the text of a tree.\<close>

datatype jsonText = NoText | BadText | Text json

record Tenant =
  tn_TenantID :: string
  tn_Name :: string
  tn_DeploymentMode :: string
  tn_DedicatedDSN :: string
  tn_DedicatedRedisAddr :: string
  tn_DedicatedLavinMQURL :: string
  tn_DedicatedMinIOEndpoint :: string
  tn_DedicatedMinIOAccessKey :: string
  tn_DedicatedMinIOSecretKey :: string
  tn_DedicatedMinIOBucket :: string
  tn_DedicatedMinIOUseSSL :: bool
  tn_UserCountThreshold :: int
  tn_IsActive :: bool
  tn_CreatedAt :: time
  tn_UpdatedAt :: time

record OrgUnit =
  ou_TenantID :: string
  ou_ID :: string
  ou_ParentID :: "string option"
  ou_Name :: string
  ou_CreatedAt :: time

record User =
  us_TenantID :: string
  us_ID :: string
  us_OrgID :: string
  us_Email :: string
  us_Name :: string
  us_Title :: string
  us_Role :: string
  us_Status :: string
  us_StatusNote :: string
  us_PasswordHash :: string
  us_CreatedAt :: time
  us_UpdatedAt :: time

record ChatRoom =
  cr_TenantID :: string
  cr_ID :: string
  cr_Name :: string
  cr_RoomType :: string
  cr_CreatedBy :: string
  cr_CreatedAt :: time

record Message =
  ms_TenantID :: string
  ms_ID :: string
  ms_RoomID :: string
  ms_SenderID :: string
  ms_Body :: string
  ms_MetaJSON :: jsonText
  ms_CreatedAt :: time

record MessageRead =
  mr_TenantID :: string
  mr_RoomID :: string
  mr_MessageID :: string
  mr_UserID :: string
  mr_ReadAt :: time

record RoomUnread =
  ru_RoomID :: string
  ru_UnreadCount :: nat

record AliasAudit =
  aa_TenantID :: string
  aa_ID :: string
  aa_UserID :: string
  aa_Alias :: string
  aa_Action :: string
  aa_ActedBy :: string
  aa_IP :: string
  aa_UserAgent :: string
  aa_CreatedAt :: time

record DeviceSession =
  ds_SessionID :: string
  ds_TenantID :: string
  ds_UserID :: string
  ds_DeviceID :: string
  ds_DeviceName :: string
  ds_AuthToken :: string
  ds_SessionToken :: string
  ds_AllowedTenants :: "string list"
  ds_LastSeenAt :: time
  ds_CreatedAt :: time

record UserStatus =
  st_TenantID :: string
  st_UserID :: string
  st_Status :: string
  st_StatusNote :: string
  st_UpdatedAt :: time

record NoteFile =
  nf_FileName :: string
  nf_ObjectKey :: string
  nf_ContentType :: string
  nf_SizeBytes :: int

record NoteCreateInput =
  ni_Title :: string
  ni_Body :: string
  ni_To :: "string list"
  ni_CC :: "string list"
  ni_BCC :: "string list"
  ni_Files :: "NoteFile list"

record NoteRecipient =
  nr_UserID :: string
  nr_Type :: string

record Note =
  no_NoteID :: string
  no_TenantID :: string
  no_SenderUserID :: string
  no_Title :: string
  no_Body :: string
  no_Recipients :: "NoteRecipient list"
  no_Files :: "NoteFile list"
  no_CreatedAt :: time

record NoteInboxItem =
  ib_NoteID :: string
  ib_SenderUserID :: string
  ib_RecipientType :: string
  ib_Title :: string
  ib_Body :: string
  ib_FileCount :: nat
  ib_IsRead :: bool
  ib_CreatedAt :: time

record ChatNotifyInput =
  cn_RoomID :: string
  cn_MessageID :: string
  cn_Title :: string
  cn_Body :: string
  cn_RecipientIDs :: "string list"

record FileObject =
  fo_TenantID :: string
  fo_ID :: string
  fo_RoomID :: string
  fo_UploaderID :: string
  fo_ObjectKey :: string
  fo_ContentType :: string
  fo_SizeBytes :: int
  fo_ThumbnailKey :: string
  fo_OriginalName :: string
  fo_CreatedAt :: time

section \<open>Tables\<close>

record deviceRow =
  dr_session :: DeviceSession
  dr_isActive :: bool
  dr_updatedAt :: time

record memberRow =
  me_TenantID :: string
  me_RoomID :: string
  me_UserID :: string
  me_JoinedAt :: time

record aliasRow =
  al_TenantID :: string
  al_UserID :: string
  al_Alias :: string

record noteRow =
  nt_NoteID :: string
  nt_TenantID :: string
  nt_SenderUserID :: string
  nt_Title :: string
  nt_Body :: string
  nt_CreatedAt :: time

record noteRecipientRow =
  rc_NoteID :: string
  rc_TenantID :: string
  rc_UserID :: string
  rc_Type :: string
  rc_IsRead :: bool
  rc_ReadAt :: "time option"

record noteFileRow =
  ff_NoteID :: string
  ff_TenantID :: string
  ff_File :: NoteFile

record chatNotificationRow =
  cw_TenantID :: string
  cw_RoomID :: string
  cw_MessageID :: string
  cw_SenderUserID :: string
  cw_RecipientUserID :: string
  cw_Title :: string
  cw_Body :: string

record Database =
  tenants :: "Tenant list"
  org_units :: "OrgUnit list"
  users :: "User list"
  user_aliases :: "aliasRow list"
  alias_audit :: "AliasAudit list"
  chat_rooms :: "ChatRoom list"
  room_members :: "memberRow list"
  messages :: "Message list"
  files :: "FileObject list"
  message_reads :: "MessageRead list"
  device_sessions :: "deviceRow list"
  user_presence :: "UserStatus list"
  notes_tab :: "noteRow list"
  note_recipients :: "noteRecipientRow list"
  note_files :: "noteFileRow list"
  chat_notifications :: "chatNotificationRow list"

definition emptyDB :: Database where
  "emptyDB = \<lparr>tenants = [], org_units = [], users = [], user_aliases = [], alias_audit = [], chat_rooms = [],
     room_members = [], messages = [], files = [], message_reads = [], device_sessions = [], user_presence = [],
     notes_tab = [], note_recipients = [], note_files = [], chat_notifications = []\<rparr>"

definition hasTenant :: "Database \<Rightarrow> string \<Rightarrow> bool" where
  "hasTenant db t \<longleftrightarrow> t \<in> set (map tn_TenantID (tenants db))"

definition hasUser :: "Database \<Rightarrow> string \<Rightarrow> bool" where
  "hasUser db u \<longleftrightarrow> u \<in> set (map us_ID (users db))"

definition hasRoom :: "Database \<Rightarrow> string \<Rightarrow> bool" where
  "hasRoom db r \<longleftrightarrow> r \<in> set (map cr_ID (chat_rooms db))"

section \<open>Statements\<close>

type_synonym 'a stmt = "Database \<Rightarrow> Database \<times> 'a result"

definition err_unique :: string where "err_unique = ''duplicate key value violates unique constraint''"
definition err_fk :: string where "err_fk = ''insert or update violates foreign key constraint''"
definition err_check :: string where "err_check = ''new row violates check constraint''"
definition err_json :: string where "err_json = ''invalid input syntax for type json''"
definition err_norows :: string where "err_norows = ''no rows in result set''"

record sqlEnv =
  sqlNow :: time
  genUUID :: "nat \<Rightarrow> string"
  fault :: "nat \<Rightarrow> string option"

text \<open>The \<open>k\<close>-th statement of a call.\<close>

definition exec :: "sqlEnv \<Rightarrow> nat \<Rightarrow> 'a stmt \<Rightarrow> 'a stmt" where
  "exec env k st db = (case fault env k of Some e \<Rightarrow> (db, Inl e) | None \<Rightarrow> st db)"

definition seqS :: "'a stmt \<Rightarrow> ('a \<Rightarrow> 'b stmt) \<Rightarrow> 'b stmt" where
  "seqS m f db = (case m db of (db', Inl e) \<Rightarrow> (db', Inl e) | (db', Inr x) \<Rightarrow> f x db')"

fun forEach :: "('x \<Rightarrow> nat \<Rightarrow> unit stmt) \<Rightarrow> nat \<Rightarrow> 'x list \<Rightarrow> unit stmt" where
  "forEach f k [] db = (db, Inr ())"
| "forEach f k (x # xs) db =
     (case f x k db of (db', Inl e) \<Rightarrow> (db', Inl e) | (db', Inr _) \<Rightarrow> forEach f (Suc k) xs db')"

text \<open>
  \<open>Begin\<close>, the body, \<open>Commit\<close>; the deferred \<open>Rollback\<close> undoes the body's changes unless the commit succeeded.
  Statement 0 is \<open>Begin\<close>, statement \<open>last\<close> is \<open>Commit\<close>.
\<close>

definition inTx :: "sqlEnv \<Rightarrow> nat \<Rightarrow> 'a stmt \<Rightarrow> 'a stmt" where
  "inTx env final body db =
     (case fault env 0 of
        Some e \<Rightarrow> (db, Inl e)
      | None \<Rightarrow>
          (case body db of
             (_, Inl e) \<Rightarrow> (db, Inl e)
           | (db', Inr x) \<Rightarrow> (case fault env final of Some e \<Rightarrow> (db, Inl e) | None \<Rightarrow> (db', Inr x))))"

lemma inTx_atomic: "snd (inTx env final body db) = Inl e \<Longrightarrow> fst (inTx env final body db) = db"
  by (auto simp: inTx_def split: option.splits prod.splits sum.splits)

lemma inTx_ok:
  "inTx env final body db = (db', Inr x) \<longleftrightarrow>
     fault env 0 = None \<and> body db = (db', Inr x) \<and> fault env final = None"
  by (auto simp: inTx_def split: option.splits prod.splits sum.splits)

lemma seqS_ok: "seqS m f db = (db'', Inr y) \<longleftrightarrow> (\<exists>db' x. m db = (db', Inr x) \<and> f x db' = (db'', Inr y))"
  by (auto simp: seqS_def split: prod.splits sum.splits)

lemma exec_ok: "exec env k st db = (db', Inr x) \<longleftrightarrow> fault env k = None \<and> st db = (db', Inr x)"
  by (auto simp: exec_def split: option.splits)

section \<open>Repositories\<close>

text \<open>A repository: the router and, behind each pool, a data base.\<close>

record 'p Repo =
  router :: "'p TenantDBRouter"
  pools :: "'p \<Rightarrow> Database"

text \<open>
  The head of every repository method: \<open>pool, err := r.router.DBForTenant(ctx, tenantID)\<close>,
  return on an error, else run statements on the pool.
\<close>

definition withPool :: "'p Repo \<Rightarrow> 'p dbEnv \<Rightarrow> string \<Rightarrow> 'a stmt \<Rightarrow> 'p Repo \<times> 'a result" where
  "withPool r env tenantID st =
     (case DBForTenant (router r) tenantID env of
        (router', Inl e) \<Rightarrow> (r\<lparr>router := router'\<rparr>, Inl e)
      | (router', Inr pool) \<Rightarrow>
          (case st (pools r pool) of
             (db', out) \<Rightarrow> (r\<lparr>router := router', pools := (pools r)(pool := db')\<rparr>, out)))"

lemma withPool_frame:
  "snd (DBForTenant (router r) t env) \<noteq> Inr pool \<Longrightarrow> pools (fst (withPool r env t st)) pool = pools r pool"
  by (auto simp: withPool_def split: prod.splits sum.splits)

lemma withPool_result:
  "snd (DBForTenant (router r) t env) = Inr pool \<Longrightarrow>
     snd (withPool r env t st) = snd (st (pools r pool))
     \<and> pools (fst (withPool r env t st)) pool = fst (st (pools r pool))"
  by (auto simp: withPool_def split: prod.splits sum.splits)

lemma withPool_error:
  "snd (DBForTenant (router r) t env) = Inl e \<Longrightarrow>
     snd (withPool r env t st) = Inl e \<and> pools (fst (withPool r env t st)) = pools r"
  by (auto simp: withPool_def split: prod.splits sum.splits)

text \<open>\<open>ORDER BY key DESC\<close> and \<open>LIMIT n\<close>.\<close>

definition orderDesc :: "('a \<Rightarrow> 'k::linorder) \<Rightarrow> 'a list \<Rightarrow> 'a list" where
  "orderDesc key rows = rev (sort_key key rows)"

definition limited :: "int \<Rightarrow> 'a list \<Rightarrow> 'a list result" where
  "limited n rows = (if n < 0 then Inl ''LIMIT must not be negative'' else Inr (take (nat n) rows))"

lemma set_orderDesc [simp]: "set (orderDesc key rows) = set rows"
  by (simp add: orderDesc_def)

lemma length_orderDesc [simp]: "length (orderDesc key rows) = length rows"
  by (simp add: orderDesc_def)

lemma orderDesc_sorted: "sorted_wrt (\<lambda>x y. key y \<le> key x) (orderDesc key rows)"
proof -
  have "sorted (map key (sort_key key rows))" by simp
  then show ?thesis unfolding orderDesc_def sorted_wrt_rev by (simp add: sorted_map)
qed

end
