(* ===== verification/SessionRepo.thy ===== *)
theory SessionRepo
  imports Database
begin

text \<open>
  \<open>SessionRepository\<close> of the data base server (\<open>server/dbman/repository/session_repository.go\<close>)
  over the tables of \<open>migrations/010_sessiond.sql\<close>: device sessions, presence, notes and chat
  notifications. Each statement is a function on the data base; each method resolves the
  tenant's pool and runs its statements there. \<open>server/dbman/service/session_service.go\<close> only
  forwards to these methods.
\<close>

section \<open>Device sessions\<close>

definition deviceKey :: "deviceRow \<Rightarrow> string \<times> string \<times> string" where
  "deviceKey r = (ds_TenantID (dr_session r), ds_UserID (dr_session r), ds_DeviceID (dr_session r))"

definition deviceToken :: "deviceRow \<Rightarrow> string" where
  "deviceToken r = ds_SessionToken (dr_session r)"

definition deviceSid :: "deviceRow \<Rightarrow> string" where
  "deviceSid r = ds_SessionID (dr_session r)"

text \<open>\<open>INSERT INTO device_sessions ... ON CONFLICT (tenant_id, user_id, device_id) DO UPDATE ... RETURNING ...\<close>\<close>

definition refreshDevice :: "sqlEnv \<Rightarrow> DeviceSession \<Rightarrow> deviceRow \<Rightarrow> deviceRow" where
  "refreshDevice env s r = r\<lparr>dr_session := (dr_session r)\<lparr>ds_DeviceName := ds_DeviceName s,
       ds_SessionToken := ds_SessionToken s, ds_AllowedTenants := ds_AllowedTenants s, ds_LastSeenAt := sqlNow env\<rparr>,
     dr_isActive := True, dr_updatedAt := sqlNow env\<rparr>"

definition newDevice :: "sqlEnv \<Rightarrow> DeviceSession \<Rightarrow> deviceRow" where
  "newDevice env s = \<lparr>dr_session = s\<lparr>ds_SessionID := genUUID env 0, ds_AuthToken := '''', ds_LastSeenAt := sqlNow env,
     ds_CreatedAt := sqlNow env\<rparr>, dr_isActive = True, dr_updatedAt = sqlNow env\<rparr>"

definition sql_upsertDevice :: "sqlEnv \<Rightarrow> DeviceSession \<Rightarrow> DeviceSession stmt" where
  "sql_upsertDevice env s db =
     (let key = (ds_TenantID s, ds_UserID s, ds_DeviceID s);
          rows = device_sessions db;
          others = filter (\<lambda>r. deviceKey r \<noteq> key) rows in
      if ds_SessionToken s \<in> set (map deviceToken others) then (db, Inl err_unique)
      else case find (\<lambda>r. deviceKey r = key) rows of
          Some old \<Rightarrow>
            (db\<lparr>device_sessions := map (\<lambda>r. if deviceKey r = key then refreshDevice env s r else r) rows\<rparr>,
             Inr (dr_session (refreshDevice env s old)))
        | None \<Rightarrow>
            if genUUID env 0 \<in> set (map deviceSid rows) then (db, Inl err_unique)
            else if \<not> hasTenant db (ds_TenantID s) then (db, Inl err_fk)
            else (db\<lparr>device_sessions := rows @ [newDevice env s]\<rparr>, Inr (dr_session (newDevice env s))))"

definition UpsertDeviceSession ::
  "'p Repo \<Rightarrow> 'p dbEnv \<Rightarrow> sqlEnv \<Rightarrow> DeviceSession \<Rightarrow> 'p Repo \<times> DeviceSession result" where
  "UpsertDeviceSession r penv env s = withPool r penv (ds_TenantID s) (exec env 0 (sql_upsertDevice env s))"

text \<open>\<open>UPDATE device_sessions SET last_seen_at = NOW(), ... RETURNING TRUE\<close>; no row is \<open>false, nil\<close>.\<close>

definition validDevice :: "string \<Rightarrow> string \<Rightarrow> string \<Rightarrow> string \<Rightarrow> deviceRow \<Rightarrow> bool" where
  "validDevice t u sid token r \<longleftrightarrow> ds_TenantID (dr_session r) = t \<and> ds_UserID (dr_session r) = u
     \<and> ds_SessionID (dr_session r) = sid \<and> ds_SessionToken (dr_session r) = token \<and> dr_isActive r"

definition touchDevice :: "sqlEnv \<Rightarrow> deviceRow \<Rightarrow> deviceRow" where
  "touchDevice env r = r\<lparr>dr_session := (dr_session r)\<lparr>ds_LastSeenAt := sqlNow env\<rparr>, dr_updatedAt := sqlNow env\<rparr>"

definition sql_touchDevice :: "sqlEnv \<Rightarrow> string \<Rightarrow> string \<Rightarrow> string \<Rightarrow> string \<Rightarrow> bool stmt" where
  "sql_touchDevice env t u sid token db =
     (db\<lparr>device_sessions := map (\<lambda>r. if validDevice t u sid token r then touchDevice env r else r) (device_sessions db)\<rparr>,
      Inr (filter (validDevice t u sid token) (device_sessions db) \<noteq> []))"

definition ValidateAndTouchSession ::
  "'p Repo \<Rightarrow> 'p dbEnv \<Rightarrow> sqlEnv \<Rightarrow> string \<Rightarrow> string \<Rightarrow> string \<Rightarrow> string \<Rightarrow> 'p Repo \<times> bool result" where
  "ValidateAndTouchSession r penv env t u sid token =
     withPool r penv t (exec env 0 (sql_touchDevice env t u sid token))"

section \<open>Presence\<close>

definition sql_upsertPresence :: "sqlEnv \<Rightarrow> UserStatus \<Rightarrow> unit stmt" where
  "sql_upsertPresence env st db =
     (let same = (\<lambda>p. st_TenantID p = st_TenantID st \<and> st_UserID p = st_UserID st);
          row = st\<lparr>st_UpdatedAt := sqlNow env\<rparr> in
      if list_ex same (user_presence db)
      then (db\<lparr>user_presence := map (\<lambda>p. if same p then row else p) (user_presence db)\<rparr>, Inr ())
      else if \<not> hasTenant db (st_TenantID st) then (db, Inl err_fk)
      else (db\<lparr>user_presence := user_presence db @ [row]\<rparr>, Inr ()))"

definition UpdateUserStatus :: "'p Repo \<Rightarrow> 'p dbEnv \<Rightarrow> sqlEnv \<Rightarrow> UserStatus \<Rightarrow> 'p Repo \<times> unit result" where
  "UpdateUserStatus r penv env st = withPool r penv (st_TenantID st) (exec env 0 (sql_upsertPresence env st))"

section \<open>Notes\<close>

definition sql_insertNote :: "sqlEnv \<Rightarrow> Note \<Rightarrow> Note stmt" where
  "sql_insertNote env n db =
     (if genUUID env 0 \<in> set (map nt_NoteID (notes_tab db)) then (db, Inl err_unique)
      else if \<not> hasTenant db (no_TenantID n) then (db, Inl err_fk)
      else (db\<lparr>notes_tab := notes_tab db @ [\<lparr>nt_NoteID = genUUID env 0, nt_TenantID = no_TenantID n,
               nt_SenderUserID = no_SenderUserID n, nt_Title = no_Title n, nt_Body = no_Body n,
               nt_CreatedAt = sqlNow env\<rparr>]\<rparr>,
            Inr (n\<lparr>no_NoteID := genUUID env 0, no_CreatedAt := sqlNow env\<rparr>)))"

definition recipientRow :: "Note \<Rightarrow> NoteRecipient \<Rightarrow> noteRecipientRow" where
  "recipientRow n rc = \<lparr>rc_NoteID = no_NoteID n, rc_TenantID = no_TenantID n, rc_UserID = nr_UserID rc,
     rc_Type = nr_Type rc, rc_IsRead = False, rc_ReadAt = None\<rparr>"

definition sql_insertRecipient :: "Note \<Rightarrow> NoteRecipient \<Rightarrow> unit stmt" where
  "sql_insertRecipient n rc db =
     (if nr_Type rc \<notin> set [''to'', ''cc'', ''bcc''] then (db, Inl err_check)
      else if (no_NoteID n, nr_UserID rc) \<in> set (map (\<lambda>x. (rc_NoteID x, rc_UserID x)) (note_recipients db))
      then (db, Inl err_unique)
      else if no_NoteID n \<notin> set (map nt_NoteID (notes_tab db)) \<or> \<not> hasTenant db (no_TenantID n)
      then (db, Inl err_fk)
      else (db\<lparr>note_recipients := note_recipients db @ [recipientRow n rc]\<rparr>, Inr ()))"

definition sql_insertNoteFile :: "Note \<Rightarrow> NoteFile \<Rightarrow> unit stmt" where
  "sql_insertNoteFile n f db =
     (if no_NoteID n \<notin> set (map nt_NoteID (notes_tab db)) \<or> \<not> hasTenant db (no_TenantID n)
      then (db, Inl err_fk)
      else (db\<lparr>note_files := note_files db @ [\<lparr>ff_NoteID = no_NoteID n, ff_TenantID = no_TenantID n, ff_File = f\<rparr>]\<rparr>, Inr ()))"

text \<open>The transaction: statement 1 inserts the note, then one statement per recipient and per file.\<close>

definition noteBody :: "sqlEnv \<Rightarrow> Note \<Rightarrow> Note stmt" where
  "noteBody env n =
     seqS (exec env 1 (sql_insertNote env n)) (\<lambda>n'.
     seqS (forEach (\<lambda>rc k. exec env k (sql_insertRecipient n' rc)) 2 (no_Recipients n')) (\<lambda>_.
     seqS (forEach (\<lambda>f k. exec env k (sql_insertNoteFile n' f)) (2 + length (no_Recipients n')) (no_Files n')) (\<lambda>_ db.
       (db, Inr n'))))"

definition CreateNote :: "'p Repo \<Rightarrow> 'p dbEnv \<Rightarrow> sqlEnv \<Rightarrow> Note \<Rightarrow> 'p Repo \<times> Note result" where
  "CreateNote r penv env n =
     withPool r penv (no_TenantID n)
       (\<lambda>db. if no_Recipients n = [] then (db, Inl ''at least one recipient is required'')
             else inTx env (2 + length (no_Recipients n) + length (no_Files n)) (noteBody env n) db)"

text \<open>The query of \<open>ListInbox\<close>: the join of recipients and notes, newest first.\<close>

definition inboxJoin :: "Database \<Rightarrow> noteRecipientRow \<Rightarrow> NoteInboxItem list" where
  "inboxJoin db rc =
     map (\<lambda>n. \<lparr>ib_NoteID = nt_NoteID n, ib_SenderUserID = nt_SenderUserID n, ib_RecipientType = rc_Type rc,
       ib_Title = nt_Title n, ib_Body = nt_Body n,
       ib_FileCount = length (filter (\<lambda>f. ff_NoteID f = nt_NoteID n \<and> ff_TenantID f = nt_TenantID n) (note_files db)),
       ib_IsRead = rc_IsRead rc, ib_CreatedAt = nt_CreatedAt n\<rparr>)
     (filter (\<lambda>n. nt_NoteID n = rc_NoteID rc \<and> nt_TenantID n = rc_TenantID rc) (notes_tab db))"

definition inboxRows :: "string \<Rightarrow> string \<Rightarrow> Database \<Rightarrow> NoteInboxItem list" where
  "inboxRows t u db =
     concat (map (inboxJoin db) (filter (\<lambda>rc. rc_TenantID rc = t \<and> rc_UserID rc = u) (note_recipients db)))"

definition sql_inbox :: "string \<Rightarrow> string \<Rightarrow> int \<Rightarrow> NoteInboxItem list stmt" where
  "sql_inbox t u limit db = (db, limited limit (orderDesc ib_CreatedAt (inboxRows t u db)))"

definition ListInbox ::
  "'p Repo \<Rightarrow> 'p dbEnv \<Rightarrow> sqlEnv \<Rightarrow> string \<Rightarrow> string \<Rightarrow> int \<Rightarrow> 'p Repo \<times> NoteInboxItem list result" where
  "ListInbox r penv env t u limit = withPool r penv t (exec env 0 (sql_inbox t u limit))"

definition readRecipient :: "sqlEnv \<Rightarrow> noteRecipientRow \<Rightarrow> noteRecipientRow" where
  "readRecipient env rc = rc\<lparr>rc_IsRead := True, rc_ReadAt := Some (sqlNow env)\<rparr>"

definition sql_markNote :: "sqlEnv \<Rightarrow> string \<Rightarrow> string \<Rightarrow> string \<Rightarrow> unit stmt" where
  "sql_markNote env t u nid db =
     (db\<lparr>note_recipients := map (\<lambda>rc. if rc_TenantID rc = t \<and> rc_UserID rc = u \<and> rc_NoteID rc = nid
                                 then readRecipient env rc else rc) (note_recipients db)\<rparr>, Inr ())"

definition MarkNoteRead ::
  "'p Repo \<Rightarrow> 'p dbEnv \<Rightarrow> sqlEnv \<Rightarrow> string \<Rightarrow> string \<Rightarrow> string \<Rightarrow> 'p Repo \<times> unit result" where
  "MarkNoteRead r penv env t u nid = withPool r penv t (exec env 0 (sql_markNote env t u nid))"

section \<open>Chat notifications\<close>

definition sql_insertNotification :: "string \<Rightarrow> string \<Rightarrow> ChatNotifyInput \<Rightarrow> string \<Rightarrow> unit stmt" where
  "sql_insertNotification t sender input recipient db =
     (if \<not> hasTenant db t then (db, Inl err_fk)
      else (db\<lparr>chat_notifications := chat_notifications db @
              [\<lparr>cw_TenantID = t, cw_RoomID = cn_RoomID input, cw_MessageID = cn_MessageID input,
                cw_SenderUserID = sender, cw_RecipientUserID = recipient, cw_Title = cn_Title input,
                cw_Body = cn_Body input\<rparr>]\<rparr>, Inr ()))"

definition SaveChatNotifications ::
  "'p Repo \<Rightarrow> 'p dbEnv \<Rightarrow> sqlEnv \<Rightarrow> string \<Rightarrow> string \<Rightarrow> ChatNotifyInput \<Rightarrow> 'p Repo \<times> unit result" where
  "SaveChatNotifications r penv env t sender input =
     (if cn_RecipientIDs input = [] then (r, Inr ())
      else withPool r penv t
        (inTx env (1 + length (cn_RecipientIDs input))
          (forEach (\<lambda>rc k. exec env k (sql_insertNotification t sender input rc)) 1 (cn_RecipientIDs input))))"

section \<open>Invariants of the device sessions\<close>

text \<open>The unique constraints: one session per device, unique session ids, unique tokens.\<close>

definition device_inv :: "Database \<Rightarrow> bool" where
  "device_inv db \<longleftrightarrow> distinct (map deviceKey (device_sessions db))
     \<and> distinct (map deviceSid (device_sessions db)) \<and> distinct (map deviceToken (device_sessions db))"

lemma refreshDevice_simps [simp]:
  "deviceKey (refreshDevice env s r) = deviceKey r" "deviceSid (refreshDevice env s r) = deviceSid r"
  "deviceToken (refreshDevice env s r) = ds_SessionToken s" "dr_isActive (refreshDevice env s r)"
  by (simp_all add: refreshDevice_def deviceKey_def deviceSid_def deviceToken_def)

lemma touchDevice_simps [simp]:
  "deviceKey (touchDevice env r) = deviceKey r" "deviceSid (touchDevice env r) = deviceSid r"
  "deviceToken (touchDevice env r) = deviceToken r" "dr_isActive (touchDevice env r) = dr_isActive r"
  by (simp_all add: touchDevice_def deviceKey_def deviceSid_def deviceToken_def)

lemma newDevice_simps [simp]:
  "deviceKey (newDevice env s) = (ds_TenantID s, ds_UserID s, ds_DeviceID s)"
  "deviceSid (newDevice env s) = genUUID env 0" "deviceToken (newDevice env s) = ds_SessionToken s"
  "dr_isActive (newDevice env s)"
  by (simp_all add: newDevice_def deviceKey_def deviceSid_def deviceToken_def)

lemma validDevice_iff:
  "validDevice t u sid token r \<longleftrightarrow>
     (\<exists>d. deviceKey r = (t, u, d)) \<and> deviceSid r = sid \<and> deviceToken r = token \<and> dr_isActive r"
  by (auto simp: validDevice_def deviceKey_def deviceSid_def deviceToken_def)

text \<open>The two ways in which the upsert succeeds.\<close>

lemma upsert_cases:
  assumes "sql_upsertDevice env s db = (db', Inr out)"
  defines "key \<equiv> (ds_TenantID s, ds_UserID s, ds_DeviceID s)"
  obtains
    (refresh) old where "old \<in> set (device_sessions db)" "deviceKey old = key"
      "out = dr_session (refreshDevice env s old)"
      "db' = db\<lparr>device_sessions := map (\<lambda>r. if deviceKey r = key then refreshDevice env s r else r) (device_sessions db)\<rparr>"
      "\<forall>r \<in> set (device_sessions db). deviceKey r \<noteq> key \<longrightarrow> deviceToken r \<noteq> ds_SessionToken s"
  | (insert) "key \<notin> set (map deviceKey (device_sessions db))" "genUUID env 0 \<notin> set (map deviceSid (device_sessions db))"
      "out = dr_session (newDevice env s)" "db' = db\<lparr>device_sessions := device_sessions db @ [newDevice env s]\<rparr>"
      "\<forall>r \<in> set (device_sessions db). deviceToken r \<noteq> ds_SessionToken s" "hasTenant db (ds_TenantID s)"
proof (cases "find (\<lambda>r. deviceKey r = key) (device_sessions db)")
  case None
  then have "\<forall>r \<in> set (device_sessions db). deviceKey r \<noteq> key" by (auto simp: find_None_iff)
  moreover from this have "filter (\<lambda>r. deviceKey r \<noteq> key) (device_sessions db) = device_sessions db"
    by (simp add: filter_id_conv)
  ultimately show ?thesis
    using assms(1) None insert unfolding sql_upsertDevice_def key_def
    by (auto simp: Let_def image_iff split: if_splits; metis)
next
  case (Some old)
  then have "old \<in> set (device_sessions db)" "deviceKey old = key" by (auto simp: find_Some_iff)
  then show ?thesis
    using assms(1) Some refresh[of old] unfolding sql_upsertDevice_def key_def
    by (auto simp: Let_def image_iff split: if_splits; metis)
qed

lemma distinct_map_inj: "distinct (map f xs) \<longleftrightarrow> distinct xs \<and> (\<forall>x \<in> set xs. \<forall>y \<in> set xs. f x = f y \<longrightarrow> x = y)"
  by (auto simp: distinct_map inj_on_def)

lemma upsert_inv:
  assumes "device_inv db" "sql_upsertDevice env s db = (db', Inr out)"
  shows "device_inv db'"
  using assms(2)
proof (cases rule: upsert_cases)
  case (refresh old)
  let ?key = "(ds_TenantID s, ds_UserID s, ds_DeviceID s)"
  let ?f = "\<lambda>r. if deviceKey r = ?key then refreshDevice env s r else r"
  let ?rows = "device_sessions db"
  have "map deviceKey (map ?f ?rows) = map deviceKey ?rows" "map deviceSid (map ?f ?rows) = map deviceSid ?rows"
    by auto
  moreover have "distinct (map (\<lambda>r. deviceToken (?f r)) ?rows)"
    using assms(1) refresh(5) unfolding device_inv_def distinct_map_inj by (auto split: if_splits)
  ultimately show ?thesis
    using assms(1) refresh(4) by (simp add: device_inv_def comp_def del: map_eq_conv)
next
  case insert
  then show ?thesis using assms(1) by (auto simp: device_inv_def)
qed

lemma touch_inv: "device_inv db \<Longrightarrow> device_inv (fst (sql_touchDevice env t u sid token db))"
proof -
  let ?f = "\<lambda>r. if validDevice t u sid token r then touchDevice env r else r"
  have "map deviceKey (map ?f rows) = map deviceKey rows" "map deviceSid (map ?f rows) = map deviceSid rows"
    "map deviceToken (map ?f rows) = map deviceToken rows" for rows
    by auto
  then show "device_inv db \<Longrightarrow> ?thesis"
    by (simp add: sql_touchDevice_def device_inv_def del: map_map)
qed

lemma touch_result:
  "snd (sql_touchDevice env t u sid token db) = Inr (\<exists>r \<in> set (device_sessions db). validDevice t u sid token r)"
  by (auto simp: sql_touchDevice_def filter_empty_conv)

text \<open>The row that a successful upsert leaves for the device.\<close>

lemma upsert_row:
  assumes "sql_upsertDevice env s db = (db', Inr out)"
  shows "\<exists>r \<in> set (device_sessions db'). dr_session r = out \<and> dr_isActive r
    \<and> deviceKey r = (ds_TenantID s, ds_UserID s, ds_DeviceID s) \<and> deviceToken r = ds_SessionToken s"
  using assms by (cases rule: upsert_cases) auto

lemma upsert_validates:
  assumes "sql_upsertDevice env s db = (db', Inr out)"
  shows "snd (sql_touchDevice env' (ds_TenantID s) (ds_UserID s) (ds_SessionID out) (ds_SessionToken s) db') = Inr True"
  using upsert_row[OF assms] by (force simp: touch_result validDevice_iff deviceSid_def)

text \<open>A token that was rotated out no longer validates, for any session.\<close>

lemma upsert_revokes:
  assumes "device_inv db" "sql_upsertDevice env s db = (db', Inr out)"
    and "old \<in> set (device_sessions db)" "deviceKey old = (ds_TenantID s, ds_UserID s, ds_DeviceID s)"
    and "deviceToken old \<noteq> ds_SessionToken s"
  shows "snd (sql_touchDevice env' t u sid (deviceToken old) db') = Inr False"
proof -
  have "deviceToken r \<noteq> deviceToken old" if r: "r \<in> set (device_sessions db')" for r
    using assms(2)
  proof (cases rule: upsert_cases)
    case (refresh o')
    then obtain r0 where r0: "r0 \<in> set (device_sessions db)"
      "r = (if deviceKey r0 = (ds_TenantID s, ds_UserID s, ds_DeviceID s) then refreshDevice env s r0 else r0)"
      using r by auto
    show ?thesis
    proof (cases "deviceKey r0 = (ds_TenantID s, ds_UserID s, ds_DeviceID s)")
      case True
      then show ?thesis using r0(2) assms(5) by simp
    next
      case False
      then have "r0 \<noteq> old" using assms(4) by auto
      then have "deviceToken r0 \<noteq> deviceToken old"
        using assms(1,3) r0(1) by (auto simp: device_inv_def distinct_map inj_on_def)
      then show ?thesis using False r0(2) by simp
    qed
  next
    case insert
    then show ?thesis using assms(3,4) by force
  qed
  then show ?thesis by (auto simp: touch_result validDevice_iff)
qed

section \<open>Properties\<close>


definition sqlEx :: sqlEnv where
  "sqlEx = \<lparr>sqlNow = 100, genUUID = (\<lambda>_. ''id0''), fault = (\<lambda>_. None)\<rparr>"

definition acmeTenant :: Tenant where
  "acmeTenant = \<lparr>tn_TenantID = ''acme'', tn_Name = ''Acme'', tn_DeploymentMode = ''shared'', tn_DedicatedDSN = '''',
     tn_DedicatedRedisAddr = '''', tn_DedicatedLavinMQURL = '''', tn_DedicatedMinIOEndpoint = '''',
     tn_DedicatedMinIOAccessKey = '''', tn_DedicatedMinIOSecretKey = '''', tn_DedicatedMinIOBucket = '''',
     tn_DedicatedMinIOUseSSL = False, tn_UserCountThreshold = 200, tn_IsActive = True, tn_CreatedAt = 0, tn_UpdatedAt = 0\<rparr>"

definition dbEx :: Database where
  "dbEx = emptyDB\<lparr>tenants := [acmeTenant]\<rparr>"


section \<open>Notes: what a transaction leaves\<close>

text \<open>The foreign keys of recipients and files to notes.\<close>

definition note_fk :: "Database \<Rightarrow> bool" where
  "note_fk db \<longleftrightarrow> (\<forall>rc \<in> set (note_recipients db). rc_NoteID rc \<in> set (map nt_NoteID (notes_tab db)))
     \<and> (\<forall>f \<in> set (note_files db). ff_NoteID f \<in> set (map nt_NoteID (notes_tab db)))"

lemma insertRecipients_ok:
  assumes "forEach (\<lambda>rc k. exec env k (sql_insertRecipient n rc)) k rcs db = (db', Inr ())"
  shows "db' = db\<lparr>note_recipients := note_recipients db @ map (recipientRow n) rcs\<rparr> \<and> distinct (map nr_UserID rcs)
    \<and> (\<forall>rc \<in> set rcs. (no_NoteID n, nr_UserID rc) \<notin> set (map (\<lambda>x. (rc_NoteID x, rc_UserID x)) (note_recipients db)))"
  using assms
proof (induction rcs arbitrary: k db)
  case (Cons rc rcs)
  obtain db1 where db1: "exec env k (sql_insertRecipient n rc) db = (db1, Inr ())"
      "forEach (\<lambda>rc k. exec env k (sql_insertRecipient n rc)) (Suc k) rcs db1 = (db', Inr ())"
    using Cons.prems by (auto split: prod.splits sum.splits)
  have eq: "db1 = db\<lparr>note_recipients := note_recipients db @ [recipientRow n rc]\<rparr>"
    and new: "(no_NoteID n, nr_UserID rc) \<notin> set (map (\<lambda>x. (rc_NoteID x, rc_UserID x)) (note_recipients db))"
    using db1(1) by (auto simp: exec_ok sql_insertRecipient_def split: if_splits)
  show ?case
    using Cons.IH[OF db1(2)] new by (auto simp: eq recipientRow_def)
qed simp

lemma insertFiles_ok:
  assumes "forEach (\<lambda>f k. exec env k (sql_insertNoteFile n f)) k fs db = (db', Inr ())"
  shows "db' = db\<lparr>note_files := note_files db @ map (\<lambda>f. \<lparr>ff_NoteID = no_NoteID n, ff_TenantID = no_TenantID n, ff_File = f\<rparr>) fs\<rparr>"
  using assms
proof (induction fs arbitrary: k db)
  case (Cons f fs)
  obtain db1 where db1: "exec env k (sql_insertNoteFile n f) db = (db1, Inr ())"
      "forEach (\<lambda>f k. exec env k (sql_insertNoteFile n f)) (Suc k) fs db1 = (db', Inr ())"
    using Cons.prems by (auto split: prod.splits sum.splits)
  have "db1 = db\<lparr>note_files := note_files db @ [\<lparr>ff_NoteID = no_NoteID n, ff_TenantID = no_TenantID n, ff_File = f\<rparr>]\<rparr>"
    using db1(1) by (auto simp: exec_ok sql_insertNoteFile_def split: if_splits)
  then show ?case using Cons.IH[OF db1(2)] by simp
qed simp

definition noteRowOf :: "Note \<Rightarrow> noteRow" where
  "noteRowOf n = \<lparr>nt_NoteID = no_NoteID n, nt_TenantID = no_TenantID n, nt_SenderUserID = no_SenderUserID n,
     nt_Title = no_Title n, nt_Body = no_Body n, nt_CreatedAt = no_CreatedAt n\<rparr>"

lemma noteBody_ok:
  assumes "noteBody env n db = (db', Inr n')"
  shows "n' = n\<lparr>no_NoteID := genUUID env 0, no_CreatedAt := sqlNow env\<rparr>
    \<and> no_NoteID n' \<notin> set (map nt_NoteID (notes_tab db)) \<and> distinct (map nr_UserID (no_Recipients n))
    \<and> db' = db\<lparr>notes_tab := notes_tab db @ [noteRowOf n'],
              note_recipients := note_recipients db @ map (recipientRow n') (no_Recipients n),
              note_files := note_files db @ map (\<lambda>f. \<lparr>ff_NoteID = no_NoteID n', ff_TenantID = no_TenantID n', ff_File = f\<rparr>) (no_Files n)\<rparr>"
proof -
  obtain db1 db2 where s: "exec env 1 (sql_insertNote env n) db = (db1, Inr n')"
    "forEach (\<lambda>rc k. exec env k (sql_insertRecipient n' rc)) 2 (no_Recipients n') db1 = (db2, Inr ())"
    "forEach (\<lambda>f k. exec env k (sql_insertNoteFile n' f)) (2 + length (no_Recipients n')) (no_Files n') db2 = (db', Inr ())"
    using assms unfolding noteBody_def by (auto simp: seqS_ok)
  have n': "n' = n\<lparr>no_NoteID := genUUID env 0, no_CreatedAt := sqlNow env\<rparr>"
    and fresh: "no_NoteID n' \<notin> set (map nt_NoteID (notes_tab db))"
    and db1: "db1 = db\<lparr>notes_tab := notes_tab db @ [noteRowOf n']\<rparr>"
    using s(1) by (auto simp: exec_ok sql_insertNote_def noteRowOf_def split: if_splits)
  show ?thesis
    using insertRecipients_ok[OF s(2)] insertFiles_ok[OF s(3)] n' fresh db1 by simp
qed

text \<open>The item that a recipient finds in the inbox.\<close>

definition inboxItem :: "Note \<Rightarrow> NoteRecipient \<Rightarrow> NoteInboxItem" where
  "inboxItem n rc = \<lparr>ib_NoteID = no_NoteID n, ib_SenderUserID = no_SenderUserID n, ib_RecipientType = nr_Type rc,
     ib_Title = no_Title n, ib_Body = no_Body n, ib_FileCount = length (no_Files n), ib_IsRead = False,
     ib_CreatedAt = no_CreatedAt n\<rparr>"

lemma noteBody_inbox:
  assumes "note_fk db" "noteBody env n db = (db', Inr n')"
  shows "inboxRows t u db' = inboxRows t u db @
    (if t = no_TenantID n then map (inboxItem n') (filter (\<lambda>rc. nr_UserID rc = u) (no_Recipients n)) else [])"
proof -
  note ok = noteBody_ok[OF assms(2)]
  have old: "inboxJoin db' rc = inboxJoin db rc" if "rc \<in> set (note_recipients db)" for rc
  proof -
    have "rc_NoteID rc \<noteq> no_NoteID n'" using assms(1) that ok by (metis note_fk_def)
    then show ?thesis
      using ok by (auto simp: inboxJoin_def noteRowOf_def filter_map comp_def filter_empty_conv intro!: filter_cong)
  qed
  have files: "filter (\<lambda>f. ff_NoteID f = no_NoteID n' \<and> ff_TenantID f = no_TenantID n') (note_files db) = []"
    using assms(1) ok unfolding filter_empty_conv note_fk_def by metis
  have nts: "filter (\<lambda>x. nt_NoteID x = no_NoteID n' \<and> nt_TenantID x = no_TenantID n') (notes_tab db) = []"
    using ok unfolding filter_empty_conv by (metis image_eqI list.set_map)
  have new: "inboxJoin db' (recipientRow n' rc) = [inboxItem n' rc]" for rc
    using ok files nts by (simp add: inboxJoin_def recipientRow_def inboxItem_def noteRowOf_def)
  let ?mine = "\<lambda>rc. rc_TenantID rc = t \<and> rc_UserID rc = u"
  have "concat (map (inboxJoin db') (filter ?mine (note_recipients db)))
      = concat (map (inboxJoin db) (filter ?mine (note_recipients db)))"
    using old by (intro arg_cong[of _ _ concat] map_cong) auto
  moreover have "filter ?mine (map (recipientRow n') rcs)
      = (if t = no_TenantID n then map (recipientRow n') (filter (\<lambda>rc. nr_UserID rc = u) rcs) else [])" for rcs
    using ok by (induction rcs) (auto simp: recipientRow_def)
  moreover have "concat (map (inboxJoin db') (map (recipientRow n') rcs)) = map (inboxItem n') rcs" for rcs
    by (induction rcs) (auto simp: new)
  ultimately show ?thesis using ok by (simp add: inboxRows_def del: map_map)
qed


definition repoEx :: "string Repo" where
  "repoEx = \<lparr>router = NewTenantDBRouterWithProvider ''shared'', pools = (\<lambda>_. dbEx)\<rparr>"

definition noteEx :: Note where
  "noteEx = \<lparr>no_NoteID = '''', no_TenantID = '''', no_SenderUserID = ''ada'', no_Title = ''hi'', no_Body = '''',
     no_Recipients = [], no_Files = [], no_CreatedAt = 0\<rparr>"


text \<open>
  C34: A note that was created is in exactly the right inboxes. After a committed transaction,
  the inbox of every user of every tenant is what it was, followed by one unread item for each
  entry of the recipient list that names this user of the note's tenant.
\<close>

theorem CreateNote_inbox:
  assumes "note_fk db" and "inTx env final (noteBody env n) db = (db', Inr n')"
  shows "inboxRows t u db' = inboxRows t u db @
    (if t = no_TenantID n then map (inboxItem n') (filter (\<lambda>rc. nr_UserID rc = u) (no_Recipients n)) else [])"
proof -
  have "noteBody env n db = (db', Inr n')" using assms(2) by (simp add: inTx_ok)
  with assms(1) show ?thesis by (rule noteBody_inbox)
qed

definition noteToBob :: Note where
  "noteToBob = noteEx\<lparr>no_TenantID := ''acme'', no_Recipients := [\<lparr>nr_UserID = ''bob'', nr_Type = ''to''\<rparr>]\<rparr>"

lemma noteToBob_created:
  "\<exists>db' n'. inTx sqlEx 3 (noteBody sqlEx noteToBob) dbEx = (db', Inr n') \<and> no_NoteID n' = ''id0''"
  by (simp add: inTx_def noteBody_def seqS_def exec_def sqlEx_def sql_insertNote_def sql_insertRecipient_def
      dbEx_def emptyDB_def acmeTenant_def hasTenant_def noteToBob_def noteEx_def)

theorem CreateNote_inbox_witness:
  "\<exists>db' n'. inTx sqlEx 3 (noteBody sqlEx noteToBob) dbEx = (db', Inr n')
     \<and> inboxRows ''acme'' ''bob'' db' = [inboxItem n' \<lparr>nr_UserID = ''bob'', nr_Type = ''to''\<rparr>]
     \<and> inboxRows ''acme'' ''eve'' db' = []"
proof -
  obtain db' n' where tx: "inTx sqlEx 3 (noteBody sqlEx noteToBob) dbEx = (db', Inr n')"
    using noteToBob_created by blast
  have "note_fk dbEx" by (simp add: note_fk_def dbEx_def emptyDB_def)
  from CreateNote_inbox[OF this tx] have
    "inboxRows ''acme'' ''bob'' db' = [inboxItem n' \<lparr>nr_UserID = ''bob'', nr_Type = ''to''\<rparr>]"
    "inboxRows ''acme'' ''eve'' db' = []"
    by (simp_all add: inboxRows_def dbEx_def emptyDB_def noteToBob_def noteEx_def)
  with tx show ?thesis by blast
qed

section \<open>Defects\<close>

text \<open>A user named both as \<open>to\<close> and as \<open>cc\<close> violates the primary key of the recipients, so the whole note is refused.\<close>

lemma noteBody_duplicate_refused:
  assumes "\<not> distinct (map nr_UserID (no_Recipients n))"
  shows "\<exists>e. snd (inTx env final (noteBody env n) db) = Inl e"
proof (cases "inTx env final (noteBody env n) db")
  case (Pair db' res)
  show ?thesis
  proof (cases res)
    case (Inr n')
    then have "noteBody env n db = (db', Inr n')" using Pair by (simp add: inTx_ok)
    then show ?thesis using noteBody_ok assms by blast
  qed (use Pair in auto)
qed

end
