(* ===== verification/SessionHub.thy ===== *)
theory SessionHub
  imports Json Encoding "HOL-Library.AList" "HOL-Library.Multiset"
begin

text \<open>
  The web-socket hub of the session server, \<open>server/session/service/hub.go\<close> and \<open>helpers.go\<close>.
  \<open>Hub.clients\<close> is a Go map of maps; the model keeps it as an association list of association
  lists, so that a loop over it visits the entries in list order, and the properties are about
  the sets and multisets of what is sent, which no order changes. A hub publishes its events
  on one Redis channel and serves those it receives from there; without Redis, or if publishing
  fails, it serves its own clients only.
\<close>

section \<open>Helpers\<close>

definition dedupeAndTrim :: "string list \<Rightarrow> string list" where
  "dedupeAndTrim items = seen_loop TrimSpace [] [] items"

fun containsString :: "string list \<Rightarrow> string \<Rightarrow> bool" where
  "containsString [] target = False"
| "containsString (item # items) target =
     (if TrimSpace item = TrimSpace target then True else containsString items target)"

definition userKey :: "string \<Rightarrow> string \<Rightarrow> string" where
  "userKey tenantID userID = tenantID @ '':'' @ userID"

interpretation recipients: unique_normal_idem TrimSpace dedupeAndTrim
  by unfold_locales (simp_all add: dedupeAndTrim_def seen_loop_spec)

lemma containsString_iff: "containsString items t \<longleftrightarrow> TrimSpace t \<in> TrimSpace ` set items"
  by (induction items) auto

lemma userKey_inj:
  "CHR '':'' \<notin> set t \<Longrightarrow> CHR '':'' \<notin> set t' \<Longrightarrow> userKey t u = userKey t' u' \<longleftrightarrow> t = t' \<and> u = u'"
  by (simp add: userKey_def sep_unique)

section \<open>State\<close>

text \<open>A connection is known by its number; a \<open>WSClient\<close> is a connection with its identity.\<close>

record WSClient =
  TenantID :: string
  UserID :: string
  SessionID :: string
  Conn :: nat

record Hub =
  clients :: "(string \<times> (string \<times> WSClient) list) list"
  hasRedis :: bool
  subscribed :: bool

record hubEvent =
  Kind :: string
  evTenantID :: string
  evUserID :: string
  evUserIDs :: "string list"
  Payload :: "json option"
  PayloadBy :: "(string \<times> json) list"

definition NewHub :: Hub where
  "NewHub = \<lparr>clients = [], hasRedis = False, subscribed = False\<rparr>"

definition UseRedis :: "Hub \<Rightarrow> bool \<Rightarrow> Hub" where
  "UseRedis h client = h\<lparr>hasRedis := client\<rparr>"

definition StartRedisSubscriber :: "Hub \<Rightarrow> Hub \<times> unit result" where
  "StartRedisSubscriber h =
     (if \<not> hasRedis h then (h, Inl ''redis client is nil'')
      else if subscribed h then (h, Inr ())
      else (h\<lparr>subscribed := True\<rparr>, Inr ()))"

definition StopRedisSubscriber :: "Hub \<Rightarrow> Hub" where
  "StopRedisSubscriber h = h\<lparr>subscribed := False\<rparr>"

definition sessionsOf :: "Hub \<Rightarrow> string \<Rightarrow> (string \<times> WSClient) list" where
  "sessionsOf h key = (case map_of (clients h) key of None \<Rightarrow> [] | Some s \<Rightarrow> s)"

definition Register :: "Hub \<Rightarrow> WSClient \<Rightarrow> Hub" where
  "Register h client =
     (let key = userKey (TenantID client) (UserID client);
          sessions = (case map_of (clients h) key of None \<Rightarrow> [] | Some s \<Rightarrow> s)
      in h\<lparr>clients := AList.update key (AList.update (SessionID client) client sessions) (clients h)\<rparr>)"

text \<open>\<open>Unregister\<close> also closes the client's own connection: the second component.\<close>

definition Unregister :: "Hub \<Rightarrow> WSClient \<Rightarrow> Hub \<times> nat" where
  "Unregister h client =
     (let key = userKey (TenantID client) (UserID client) in
      (case map_of (clients h) key of
         None \<Rightarrow> h
       | Some sessions \<Rightarrow>
           let sessions' = AList.delete (SessionID client) sessions in
           if sessions' = [] then h\<lparr>clients := AList.delete key (clients h)\<rparr>
           else h\<lparr>clients := AList.update key sessions' (clients h)\<rparr>,
       Conn client))"

section \<open>Local delivery\<close>

text \<open>What is written to the web sockets: the client and the value. \<open>WriteJSON\<close> of a value that cannot be marshalled writes nothing.\<close>

type_synonym delivery = "WSClient \<times> json"

definition WriteJSON :: "WSClient \<Rightarrow> goval \<Rightarrow> delivery list" where
  "WriteJSON c payload = (case payload of Inl _ \<Rightarrow> [] | Inr j \<Rightarrow> [(c, j)])"

definition notifyUserLocal :: "Hub \<Rightarrow> string \<Rightarrow> string \<Rightarrow> goval \<Rightarrow> delivery list \<times> nat" where
  "notifyUserLocal h tenantID userID payload =
     (let sessions = sessionsOf h (userKey tenantID userID) in
      (concat (map (\<lambda>(_, client). WriteJSON client payload) sessions), length sessions))"

definition broadcastTenantLocal :: "Hub \<Rightarrow> string \<Rightarrow> goval \<Rightarrow> delivery list \<times> nat" where
  "broadcastTenantLocal h tenantID payload =
     (let prefix = tenantID @ '':'';
          hit = filter (\<lambda>(key, _). \<not> (length key < length prefix \<or> take (length prefix) key \<noteq> prefix)) (clients h);
          all = concat (map snd hit)
      in (concat (map (\<lambda>(_, client). WriteJSON client payload) all), length all))"

definition tenantSessionCount :: "Hub \<Rightarrow> string \<Rightarrow> nat" where
  "tenantSessionCount h tenantID =
     (let prefix = tenantID @ '':'' in
      sum_list (map (\<lambda>(_, sessions). length sessions)
        (filter (\<lambda>(key, _). \<not> (length key < length prefix \<or> take (length prefix) key \<noteq> prefix)) (clients h))))"

section \<open>Publishing\<close>

text \<open>\<open>pubErr\<close> is the error of \<open>redisClient.Publish\<close>. The result is the published event, \<open>None\<close> for \<open>false\<close>.\<close>

definition publishNotifyUser :: "Hub \<Rightarrow> string option \<Rightarrow> string \<Rightarrow> string \<Rightarrow> goval \<Rightarrow> hubEvent option" where
  "publishNotifyUser h pubErr tenantID userID payload =
     (if \<not> hasRedis h then None
      else case payload of
        Inl _ \<Rightarrow> None
      | Inr raw \<Rightarrow>
          (case pubErr of
             Some _ \<Rightarrow> None
           | None \<Rightarrow> Some \<lparr>Kind = ''notify_user'', evTenantID = tenantID, evUserID = userID, evUserIDs = [],
                           Payload = Some raw, PayloadBy = []\<rparr>))"

text \<open>The loop of \<open>publishNotifyUsers\<close>: unique users with their marshalled payloads, or \<open>None\<close> on an error.\<close>

fun collectUsers ::
  "(string \<Rightarrow> goval) \<Rightarrow> string list \<Rightarrow> string list \<Rightarrow> (string \<times> json) list
   \<Rightarrow> (string list \<times> (string \<times> json) list) option" where
  "collectUsers build [] unique payloadBy = Some (unique, payloadBy)"
| "collectUsers build (userID # userIDs) unique payloadBy =
     (if userID \<in> set unique then collectUsers build userIDs unique payloadBy
      else case build userID of
        Inl _ \<Rightarrow> None
      | Inr raw \<Rightarrow> collectUsers build userIDs (unique @ [userID]) (AList.update userID raw payloadBy))"

definition publishNotifyUsers ::
  "Hub \<Rightarrow> string option \<Rightarrow> string \<Rightarrow> string list \<Rightarrow> (string \<Rightarrow> goval) \<Rightarrow> hubEvent option" where
  "publishNotifyUsers h pubErr tenantID userIDs payloadBuilder =
     (if \<not> hasRedis h then None
      else case collectUsers payloadBuilder userIDs [] [] of
        None \<Rightarrow> None
      | Some (unique, payloadBy) \<Rightarrow>
          (case pubErr of
             Some _ \<Rightarrow> None
           | None \<Rightarrow> Some \<lparr>Kind = ''notify_users'', evTenantID = tenantID, evUserID = '''', evUserIDs = unique,
                           Payload = None, PayloadBy = payloadBy\<rparr>))"

definition publishBroadcastTenant :: "Hub \<Rightarrow> string option \<Rightarrow> string \<Rightarrow> goval \<Rightarrow> hubEvent option" where
  "publishBroadcastTenant h pubErr tenantID payload =
     (if \<not> hasRedis h then None
      else case payload of
        Inl _ \<Rightarrow> None
      | Inr raw \<Rightarrow>
          (case pubErr of
             Some _ \<Rightarrow> None
           | None \<Rightarrow> Some \<lparr>Kind = ''broadcast_tenant'', evTenantID = tenantID, evUserID = '''', evUserIDs = [],
                           Payload = Some raw, PayloadBy = []\<rparr>))"

text \<open>What a notification leads to: an event on the channel, or local deliveries as the fallback.\<close>

datatype dispatch = Published hubEvent | Fallback "delivery list"

definition NotifyUser :: "Hub \<Rightarrow> string option \<Rightarrow> string \<Rightarrow> string \<Rightarrow> goval \<Rightarrow> dispatch" where
  "NotifyUser h pubErr tenantID userID payload =
     (case publishNotifyUser h pubErr tenantID userID payload of
        Some ev \<Rightarrow> Published ev
      | None \<Rightarrow> Fallback (fst (notifyUserLocal h tenantID userID payload)))"

definition NotifyUsers :: "Hub \<Rightarrow> string option \<Rightarrow> string \<Rightarrow> string list \<Rightarrow> (string \<Rightarrow> goval) \<Rightarrow> dispatch" where
  "NotifyUsers h pubErr tenantID userIDs payloadBuilder =
     (case publishNotifyUsers h pubErr tenantID userIDs payloadBuilder of
        Some ev \<Rightarrow> Published ev
      | None \<Rightarrow> Fallback (concat (map (\<lambda>userID. fst (notifyUserLocal h tenantID userID (payloadBuilder userID))) userIDs)))"

definition BroadcastTenant :: "Hub \<Rightarrow> string option \<Rightarrow> string \<Rightarrow> goval \<Rightarrow> dispatch" where
  "BroadcastTenant h pubErr tenantID payload =
     (case publishBroadcastTenant h pubErr tenantID payload of
        Some ev \<Rightarrow> Published ev
      | None \<Rightarrow> Fallback (fst (broadcastTenantLocal h tenantID payload)))"

text \<open>The body of the loop of \<open>consumeEvents\<close>; \<open>None\<close> is a message that does not decode.\<close>

definition consumeEvent :: "Hub \<Rightarrow> hubEvent option \<Rightarrow> delivery list" where
  "consumeEvent h msg =
     (case msg of
        None \<Rightarrow> []
      | Some ev \<Rightarrow>
          if Kind ev = ''notify_user'' then
            (case Payload ev of
               None \<Rightarrow> []
             | Some p \<Rightarrow> fst (notifyUserLocal h (evTenantID ev) (evUserID ev) (Inr p)))
          else if Kind ev = ''notify_users'' then
            concat (map (\<lambda>userID. case map_of (PayloadBy ev) userID of
                None \<Rightarrow> []
              | Some p \<Rightarrow> fst (notifyUserLocal h (evTenantID ev) userID (Inr p))) (evUserIDs ev))
          else if Kind ev = ''broadcast_tenant'' then
            (case Payload ev of
               None \<Rightarrow> []
             | Some p \<Rightarrow> fst (broadcastTenantLocal h (evTenantID ev) (Inr p)))
          else [])"

definition consumeEvents :: "Hub \<Rightarrow> hubEvent option list \<Rightarrow> delivery list" where
  "consumeEvents h msgs = concat (map (consumeEvent h) msgs)"

section \<open>The registry\<close>

text \<open>The abstract view of a hub: which client serves a session of a user of a tenant.\<close>

definition registry :: "Hub \<Rightarrow> string \<Rightarrow> string \<Rightarrow> string \<Rightarrow> WSClient option" where
  "registry h t u s = map_of (sessionsOf h (userKey t u)) s"

definition identity :: "WSClient \<Rightarrow> string \<times> string \<times> string" where
  "identity c = (TenantID c, UserID c, SessionID c)"

definition plain :: "string \<Rightarrow> bool" where
  "plain t \<longleftrightarrow> CHR '':'' \<notin> set t"

lemma sessionsOf_Register:
  "sessionsOf (Register h c) k =
     (if k = userKey (TenantID c) (UserID c) then AList.update (SessionID c) c (sessionsOf h k) else sessionsOf h k)"
  by (simp add: sessionsOf_def Register_def Let_def AList.update_conv')

lemma map_of_sessions_Unregister:
  "map_of (sessionsOf (fst (Unregister h c)) k) s =
     (if k = userKey (TenantID c) (UserID c) \<and> s = SessionID c then None else map_of (sessionsOf h k) s)"
proof (cases "map_of (clients h) (userKey (TenantID c) (UserID c))")
  case None
  then show ?thesis by (auto simp: Unregister_def sessionsOf_def Let_def)
next
  case (Some ss)
  have "AList.delete (SessionID c) ss = [] \<Longrightarrow> s \<noteq> SessionID c \<Longrightarrow> map_of ss s = None"
    using AList.delete_conv'[of "SessionID c" ss] by (metis fun_upd_apply map_of.simps(1))
  with Some show ?thesis
    by (auto simp: Unregister_def sessionsOf_def Let_def AList.update_conv' AList.delete_conv')
qed

text \<open>Invariant: one entry per user, never empty, each client under its own key and session id.\<close>

definition hub_inv :: "Hub \<Rightarrow> bool" where
  "hub_inv h \<longleftrightarrow> distinct (map fst (clients h))
     \<and> (\<forall>(k, ss) \<in> set (clients h). ss \<noteq> [] \<and> distinct (map fst ss)
          \<and> (\<forall>(s, c) \<in> set ss. k = userKey (TenantID c) (UserID c) \<and> s = SessionID c))"

inductive hub_step :: "Hub \<Rightarrow> Hub \<Rightarrow> bool" where
  register: "hub_step h (Register h c)"
| unregister: "hub_step h (fst (Unregister h c))"
| useRedis: "hub_step h (UseRedis h b)"
| start: "hub_step h (fst (StartRedisSubscriber h))"
| stop: "hub_step h (StopRedisSubscriber h)"

inductive hub_reach :: "Hub \<Rightarrow> bool" where
  new: "hub_reach NewHub"
| more: "hub_reach h \<Longrightarrow> hub_step h h' \<Longrightarrow> hub_reach h'"

lemma sessionsOf_inv:
  assumes "hub_inv h"
  shows "distinct (map fst (sessionsOf h k))
    \<and> (\<forall>(s, c) \<in> set (sessionsOf h k). k = userKey (TenantID c) (UserID c) \<and> s = SessionID c)"
proof (cases "map_of (clients h) k")
  case None
  then show ?thesis by (simp add: sessionsOf_def)
next
  case (Some ss)
  then have "(k, ss) \<in> set (clients h)" by (rule map_of_SomeD)
  then show ?thesis using assms Some by (auto simp: hub_inv_def sessionsOf_def)
qed

lemma set_AList_update_subset: "set (AList.update k v al) \<subseteq> insert (k, v) (set al)"
  by (induction al) auto

definition entry_ok :: "string \<Rightarrow> (string \<times> WSClient) list \<Rightarrow> bool" where
  "entry_ok k ss \<longleftrightarrow> ss \<noteq> [] \<and> distinct (map fst ss)
     \<and> (\<forall>(s, c) \<in> set ss. k = userKey (TenantID c) (UserID c) \<and> s = SessionID c)"

lemma hub_inv_entries: "hub_inv h \<longleftrightarrow> distinct (map fst (clients h)) \<and> (\<forall>(k, ss) \<in> set (clients h). entry_ok k ss)"
  by (simp add: hub_inv_def entry_ok_def)

lemma hub_inv_update:
  assumes "hub_inv h" "entry_ok k ss"
  shows "hub_inv (h\<lparr>clients := AList.update k ss (clients h)\<rparr>)"
proof -
  have "entry_ok k' ss'" if "(k', ss') \<in> set (AList.update k ss (clients h))" for k' ss'
    using that assms set_AList_update_subset[of k ss "clients h"] by (auto simp: hub_inv_entries)
  then show ?thesis using assms(1) by (auto simp: hub_inv_entries AList.distinct_update)
qed

lemma hub_inv_delete: "hub_inv h \<Longrightarrow> hub_inv (h\<lparr>clients := AList.delete k (clients h)\<rparr>)"
  by (auto simp: hub_inv_entries AList.delete_eq distinct_map_filter)

lemma hub_inv_Register:
  assumes "hub_inv h"
  shows "hub_inv (Register h c)"
proof -
  let ?k = "userKey (TenantID c) (UserID c)"
  have "entry_ok ?k (AList.update (SessionID c) c (sessionsOf h ?k))"
    using sessionsOf_inv[OF assms, of ?k] set_AList_update_subset[of "SessionID c" c "sessionsOf h ?k"]
    by (auto simp: entry_ok_def AList.distinct_update AList.update_nonempty)
  from hub_inv_update[OF assms this] show ?thesis
    by (simp add: Register_def sessionsOf_def Let_def)
qed

lemma hub_inv_Unregister:
  assumes "hub_inv h"
  shows "hub_inv (fst (Unregister h c))"
proof (cases "map_of (clients h) (userKey (TenantID c) (UserID c))")
  case None
  then show ?thesis using assms by (simp add: Unregister_def)
next
  case (Some ss)
  let ?k = "userKey (TenantID c) (UserID c)"
  have "AList.delete (SessionID c) ss \<noteq> [] \<Longrightarrow> entry_ok ?k (AList.delete (SessionID c) ss)"
    using sessionsOf_inv[OF assms, of ?k] Some
    by (auto simp: entry_ok_def sessionsOf_def AList.delete_eq distinct_map_filter)
  then show ?thesis
    using Some assms by (simp add: Unregister_def Let_def hub_inv_delete hub_inv_update)
qed

lemma hub_inv_fields: "clients h' = clients h \<Longrightarrow> hub_inv h \<Longrightarrow> hub_inv h'"
  by (simp add: hub_inv_def)

lemma hub_reach_inv: "hub_reach h \<Longrightarrow> hub_inv h"
proof (induction rule: hub_reach.induct)
  case new
  then show ?case by (simp add: hub_inv_def NewHub_def)
next
  case (more h h')
  from more.hyps(2) more.IH show ?case
    by cases (auto simp: hub_inv_Register hub_inv_Unregister UseRedis_def StartRedisSubscriber_def
        StopRedisSubscriber_def intro: hub_inv_fields[of _ h])
qed

section \<open>Deliveries\<close>

lemma notifyUserLocal_Inr:
  "fst (notifyUserLocal h t u (Inr j)) = map (\<lambda>(_, c). (c, j)) (sessionsOf h (userKey t u))"
proof -
  have "concat (map (\<lambda>(_, c). WriteJSON c (Inr j)) xs) = map (\<lambda>(_, c). (c, j)) xs" for xs :: "(string \<times> WSClient) list"
    by (induction xs) (auto simp: WriteJSON_def)
  then show ?thesis by (simp add: notifyUserLocal_def Let_def)
qed

lemma notifyUserLocal_Inl: "fst (notifyUserLocal h t u (Inl e)) = []"
  by (simp add: notifyUserLocal_def WriteJSON_def Let_def case_prod_beta)

lemma sessionsOf_clients:
  assumes "hub_inv h"
  shows "distinct (map snd (sessionsOf h (userKey t u)))
    \<and> set (map snd (sessionsOf h (userKey t u))) = {c. \<exists>s. registry h t u s = Some c}"
proof
  let ?ss = "sessionsOf h (userKey t u)"
  have inv: "distinct (map fst ?ss)" "\<forall>(s, c) \<in> set ?ss. s = SessionID c"
    using sessionsOf_inv[OF assms, of "userKey t u"] by auto
  have "map fst ?ss = map SessionID (map snd ?ss)"
    using inv(2) by auto
  then show "distinct (map snd ?ss)" using inv(1) by (metis distinct_map)
  show "set (map snd ?ss) = {c. \<exists>s. registry h t u s = Some c}"
    using inv(1) by (force simp: registry_def image_iff dest: map_of_SomeD intro: map_of_is_SomeI)
qed

lemma registry_identity:
  assumes "hub_inv h" "registry h t u s = Some c"
  shows "userKey t u = userKey (TenantID c) (UserID c) \<and> s = SessionID c"
proof -
  have "(s, c) \<in> set (sessionsOf h (userKey t u))"
    using assms(2) by (auto simp: registry_def dest: map_of_SomeD)
  then show ?thesis using sessionsOf_inv[OF assms(1), of "userKey t u"] by auto
qed

definition connected :: "Hub \<Rightarrow> WSClient \<Rightarrow> bool" where
  "connected h c \<longleftrightarrow> registry h (TenantID c) (UserID c) (SessionID c) = Some c"

definition plainTenants :: "Hub \<Rightarrow> bool" where
  "plainTenants h \<longleftrightarrow> (\<forall>(k, ss) \<in> set (clients h). \<forall>(s, c) \<in> set ss. plain (TenantID c))"

lemma registry_plain:
  assumes "hub_inv h" "plainTenants h" "plain t"
  shows "registry h t u s = Some c \<longleftrightarrow> connected h c \<and> identity c = (t, u, s)"
proof
  assume r: "registry h t u s = Some c"
  then obtain ss where ss: "map_of (clients h) (userKey t u) = Some ss" "map_of ss s = Some c"
    by (auto simp: registry_def sessionsOf_def split: option.splits)
  then have "plain (TenantID c)"
    using assms(2) by (auto simp: plainTenants_def dest!: map_of_SomeD)
  then have "t = TenantID c \<and> u = UserID c \<and> s = SessionID c"
    using registry_identity[OF assms(1) r] assms(3) by (simp add: plain_def userKey_inj)
  then show "connected h c \<and> identity c = (t, u, s)"
    using r by (simp add: connected_def identity_def)
qed (auto simp: connected_def identity_def)

lemma writes_exact:
  assumes "distinct cs" "set cs = {c. P c}"
  shows "distinct (map (\<lambda>c. (c, j)) cs) \<and> set (map (\<lambda>c. (c, j)) cs) = {(c, j) | c. P c}"
proof
  show "distinct (map (\<lambda>c. (c, j)) cs)"
    using assms(1) by (simp add: distinct_map inj_on_def)
  show "set (map (\<lambda>c. (c, j)) cs) = {(c, j) | c. P c}"
    using assms(2) by auto
qed

section \<open>Properties\<close>


definition ada :: WSClient where
  "ada = \<lparr>TenantID = ''acme'', UserID = ''ada'', SessionID = ''s1'', Conn = 1\<rparr>"

definition bob :: WSClient where
  "bob = \<lparr>TenantID = ''acme'', UserID = ''bob'', SessionID = ''s2'', Conn = 2\<rparr>"

definition demoHub :: Hub where
  "demoHub = Register (Register NewHub ada) bob"

lemma demoHub_reach: "hub_reach demoHub"
  unfolding demoHub_def by (meson hub_reach.more hub_reach.new hub_step.register)

lemma demoHub_plain: "plainTenants demoHub"
  by (simp add: demoHub_def plainTenants_def Register_def NewHub_def ada_def bob_def plain_def userKey_def)


lemma hub_delivery:
  assumes "hub_reach h" and "plainTenants h" and "plain t"
  shows "distinct (fst (notifyUserLocal h t u (Inr j)))
    \<and> set (fst (notifyUserLocal h t u (Inr j))) = {(c, j) | c. connected h c \<and> TenantID c = t \<and> UserID c = u}"
proof -
  note inv = hub_reach_inv[OF assms(1)]
  let ?cs = "map snd (sessionsOf h (userKey t u))"
  have eq: "fst (notifyUserLocal h t u (Inr j)) = map (\<lambda>c. (c, j)) ?cs"
    by (simp add: notifyUserLocal_Inr case_prod_beta)
  have "set ?cs = {c. connected h c \<and> TenantID c = t \<and> UserID c = u}"
    using sessionsOf_clients[OF inv, of t u] registry_plain[OF inv assms(2,3)]
    by (auto simp: identity_def)
  then show ?thesis
    unfolding eq using sessionsOf_clients[OF inv, of t u] by (intro writes_exact) auto
qed

text \<open>
  Notifications reach the right sockets, each once. In every reachable hub whose tenants
  have colon-free ids, the local delivery to a user writes the payload exactly once to each
  connected client of this user of this tenant, and to nobody else.
\<close>

theorem notifyUserLocal_exact:
  assumes "hub_reach h" and "plainTenants h" and "plain t"
  shows "distinct (fst (notifyUserLocal h t u (Inr j)))
    \<and> set (fst (notifyUserLocal h t u (Inr j))) = {(c, j) | c. connected h c \<and> TenantID c = t \<and> UserID c = u}"
  using assms by (rule hub_delivery)

theorem notifyUserLocal_exact_witness:
  "set (fst (notifyUserLocal demoHub ''acme'' ''ada'' (Inr JNull)))
     = {(c, JNull) | c. connected demoHub c \<and> TenantID c = ''acme'' \<and> UserID c = ''ada''}"
  using notifyUserLocal_exact[OF demoHub_reach demoHub_plain, of "''acme''"] by (simp add: plain_def)

lemma broadcastTenantLocal_Inr:
  "fst (broadcastTenantLocal h t (Inr j)) =
     map (\<lambda>(_, c). (c, j)) (concat (map snd (filter (\<lambda>(k, _). HasPrefix k (t @ '':'')) (clients h))))"
proof -
  have "concat (map (\<lambda>(_, c). WriteJSON c (Inr j)) xs) = map (\<lambda>(_, c). (c, j)) xs" for xs :: "(string \<times> WSClient) list"
    by (induction xs) (auto simp: WriteJSON_def)
  moreover have "filter (\<lambda>(k, _). \<not> (length k < length (t @ '':'') \<or> take (length (t @ '':'')) k \<noteq> t @ '':'')) (clients h)
      = filter (\<lambda>(k, _). HasPrefix k (t @ '':'')) (clients h)"
    by (intro filter_cong) (auto simp: HasPrefix_def)
  ultimately show ?thesis by (simp add: broadcastTenantLocal_def Let_def)
qed

text \<open>The keys of a tenant's users: a key of a client starts with the tenant and a colon exactly if it is the client's tenant.\<close>

lemma userKey_prefix: "plain t \<Longrightarrow> plain t' \<Longrightarrow> HasPrefix (userKey t' u) (t @ '':'') \<longleftrightarrow> t' = t"
  by (auto simp: HasPrefix_iff userKey_def plain_def sep_unique)

lemma distinct_concat_entries:
  assumes "hub_inv h"
  shows "distinct (map snd (concat (map snd (filter P (clients h)))))"
proof -
  have "distinct (map snd (concat (map snd xs)))"
    if "distinct (map fst xs)" "\<forall>(k, ss) \<in> set xs. entry_ok k ss" for xs
    using that
  proof (induction xs)
    case (Cons x xs)
    obtain k ss where x: "x = (k, ss)" by (cases x)
    have ok: "entry_ok k ss" using Cons.prems x by auto
    have "map fst ss = map SessionID (map snd ss)"
      using ok by (auto simp: entry_ok_def)
    then have "distinct (map snd ss)" using ok by (metis distinct_map entry_ok_def)
    moreover have "set (map snd ss) \<inter> set (map snd (concat (map snd xs))) = {}"
      using Cons.prems x by (force simp: entry_ok_def)
    ultimately show ?case using Cons x by auto
  qed simp
  then show ?thesis using assms by (simp add: hub_inv_entries distinct_map_filter)
qed

lemma clients_connected:
  assumes "hub_inv h"
  shows "(\<exists>k ss s. (k, ss) \<in> set (clients h) \<and> (s, c) \<in> set ss) \<longleftrightarrow> connected h c"
proof
  assume "\<exists>k ss s. (k, ss) \<in> set (clients h) \<and> (s, c) \<in> set ss"
  then obtain k ss s where e: "(k, ss) \<in> set (clients h)" "(s, c) \<in> set ss" by blast
  then have "k = userKey (TenantID c) (UserID c)" "s = SessionID c" "distinct (map fst ss)"
    "map_of (clients h) k = Some ss"
    using assms by (auto simp: hub_inv_entries entry_ok_def)
  then show "connected h c" using e by (simp add: connected_def registry_def sessionsOf_def)
next
  assume "connected h c"
  then show "\<exists>k ss s. (k, ss) \<in> set (clients h) \<and> (s, c) \<in> set ss"
    by (force simp: connected_def registry_def sessionsOf_def split: option.splits dest: map_of_SomeD)
qed

text \<open>
  Broadcasts stay in the tenant. In every reachable hub whose tenants have colon-free
  ids, a broadcast writes the payload exactly once to each connected client of the tenant and to
  no client of any other.
\<close>

theorem broadcastTenantLocal_exact:
  assumes "hub_reach h" and "plainTenants h" and "plain t"
  shows "distinct (fst (broadcastTenantLocal h t (Inr j)))
    \<and> set (fst (broadcastTenantLocal h t (Inr j))) = {(c, j) | c. connected h c \<and> TenantID c = t}"
proof -
  note inv = hub_reach_inv[OF assms(1)]
  let ?hit = "filter (\<lambda>(k, _). HasPrefix k (t @ '':'')) (clients h)"
  let ?cs = "map snd (concat (map snd ?hit))"
  have eq: "fst (broadcastTenantLocal h t (Inr j)) = map (\<lambda>c. (c, j)) ?cs"
    by (simp add: broadcastTenantLocal_Inr case_prod_beta)
  have key: "HasPrefix k (t @ '':'') \<longleftrightarrow> TenantID c = t"
    if "(k, ss) \<in> set (clients h)" "(s, c) \<in> set ss" for k ss s c
  proof -
    have "k = userKey (TenantID c) (UserID c)"
      using inv that by (auto simp: hub_inv_entries entry_ok_def)
    moreover have "plain (TenantID c)"
      using assms(2) that by (auto simp: plainTenants_def)
    ultimately show ?thesis using assms(3) by (simp add: userKey_prefix)
  qed
  have "set ?cs = {c. \<exists>k ss s. (k, ss) \<in> set (clients h) \<and> (s, c) \<in> set ss \<and> TenantID c = t}"
    using key by (force simp: image_iff)
  also have "\<dots> = {c. connected h c \<and> TenantID c = t}"
    using clients_connected[OF inv] by blast
  finally show ?thesis
    unfolding eq using distinct_concat_entries[OF inv, of "\<lambda>(k, _). HasPrefix k (t @ '':'')"]
    by (intro writes_exact) auto
qed

theorem broadcastTenantLocal_exact_witness:
  "set (fst (broadcastTenantLocal demoHub ''acme'' (Inr JNull)))
     = {(c, JNull) | c. connected demoHub c \<and> TenantID c = ''acme''}"
  using broadcastTenantLocal_exact[OF demoHub_reach demoHub_plain, of "''acme''"] by (simp add: plain_def)

section \<open>Through Redis\<close>

lemma collectUsers_spec:
  assumes "\<forall>u \<in> set userIDs. \<exists>j. build u = Inr j"
    and "\<forall>u. map_of payloadBy u = (if u \<in> set unique then Some (projr (build u)) else None)"
  shows "\<exists>pb. collectUsers build userIDs unique payloadBy
        = Some (unique @ filter (\<lambda>u. u \<notin> set unique) (firsts userIDs), pb)
    \<and> (\<forall>u. map_of pb u = (if u \<in> set unique \<union> set userIDs then Some (projr (build u)) else None))"
  using assms
proof (induction userIDs arbitrary: unique payloadBy)
  case (Cons u us)
  show ?case
  proof (cases "u \<in> set unique")
    case True
    then have "filter (\<lambda>v. v \<notin> set unique) (firsts (u # us)) = filter (\<lambda>v. v \<notin> set unique) (firsts us)"
      by (auto intro: filter_cong)
    then show ?thesis using Cons.IH[of payloadBy unique] Cons.prems True by (auto simp: insert_absorb)
  next
    case False
    obtain j where j: "build u = Inr j" using Cons.prems(1) by auto
    have "filter (\<lambda>v. v \<notin> set (unique @ [u])) (firsts us)
        = filter (\<lambda>v. v \<notin> set unique) (filter (\<lambda>v. v \<noteq> u) (firsts us))"
      by (auto intro: filter_cong)
    then show ?thesis
      using Cons.IH[of "AList.update u j payloadBy" "unique @ [u]"] Cons.prems False j
      by (auto simp: AList.update_conv')
  qed
qed simp

lemma publishNotifyUsers_event:
  assumes "hasRedis h" and "\<forall>u \<in> set userIDs. \<exists>j. build u = Inr j"
  shows "\<exists>ev. publishNotifyUsers h None t userIDs build = Some ev \<and> Kind ev = ''notify_users''
    \<and> evTenantID ev = t \<and> evUserIDs ev = firsts userIDs
    \<and> (\<forall>u. map_of (PayloadBy ev) u = (if u \<in> set userIDs then Some (projr (build u)) else None))"
  using collectUsers_spec[OF assms(2), of "[]" "[]"] assms(1) by (auto simp: publishNotifyUsers_def)

lemma consume_notify_users:
  assumes "Kind ev = ''notify_users''" "evUserIDs ev = firsts us" "\<forall>u \<in> set us. \<exists>j. build u = Inr j"
    and "\<forall>u. map_of (PayloadBy ev) u = (if u \<in> set us then Some (projr (build u)) else None)"
  shows "consumeEvent h (Some ev) = concat (map (\<lambda>u. fst (notifyUserLocal h (evTenantID ev) u (build u))) (firsts us))"
proof -
  have "(case map_of (PayloadBy ev) u of None \<Rightarrow> [] | Some p \<Rightarrow> fst (notifyUserLocal h (evTenantID ev) u (Inr p)))
      = fst (notifyUserLocal h (evTenantID ev) u (build u))" if "u \<in> set (firsts us)" for u
    using that assms(3,4) by (metis (no_types, lifting) option.simps(5) set_firsts sum.sel(2))
  then have "map (\<lambda>u. case map_of (PayloadBy ev) u of None \<Rightarrow> []
        | Some p \<Rightarrow> fst (notifyUserLocal h (evTenantID ev) u (Inr p))) (firsts us)
      = map (\<lambda>u. fst (notifyUserLocal h (evTenantID ev) u (build u))) (firsts us)"
    by (intro map_cong) auto
  then show ?thesis using assms(1,2) by (simp add: consumeEvent_def del: map_eq_conv)
qed



lemma cluster_delivery:
  assumes "hasRedis h" and "\<forall>u \<in> set userIDs. \<exists>j. build u = Inr j"
    and "hub_reach g" and "plainTenants g" and "plain t"
  shows "\<exists>ev. NotifyUsers h None t userIDs build = Published ev
    \<and> distinct (consumeEvent g (Some ev))
    \<and> set (consumeEvent g (Some ev))
        = {(c, j). connected g c \<and> TenantID c = t \<and> UserID c \<in> set userIDs \<and> build (UserID c) = Inr j}"
proof -
  obtain ev where ev: "publishNotifyUsers h None t userIDs build = Some ev" "Kind ev = ''notify_users''"
    "evTenantID ev = t" "evUserIDs ev = firsts userIDs"
    "\<forall>u. map_of (PayloadBy ev) u = (if u \<in> set userIDs then Some (projr (build u)) else None)"
    using publishNotifyUsers_event[OF assms(1,2)] by blast
  have eq: "consumeEvent g (Some ev) = concat (map (\<lambda>u. fst (notifyUserLocal g t u (build u))) (firsts userIDs))"
    using consume_notify_users[OF ev(2,4) assms(2) ev(5), of g] ev(3) by simp
  have one: "distinct (fst (notifyUserLocal g t u (build u)))
      \<and> set (fst (notifyUserLocal g t u (build u)))
        = {(c, j). connected g c \<and> TenantID c = t \<and> UserID c = u \<and> build u = Inr j}"
    if u: "u \<in> set userIDs" for u
  proof -
    obtain j where "build u = Inr j" using u assms(2) by auto
    then show ?thesis using hub_delivery[OF assms(3-5), of u j] by auto
  qed
  have "distinct (concat (map (\<lambda>u. fst (notifyUserLocal g t u (build u))) us))" if "distinct us" "set us \<subseteq> set userIDs" for us
    using that
  proof (induction us)
    case (Cons u us)
    have "set (fst (notifyUserLocal g t u (build u))) \<inter> set (concat (map (\<lambda>u. fst (notifyUserLocal g t u (build u))) us)) = {}"
      using Cons.prems one by fastforce
    then show ?case using Cons one by auto
  qed simp
  then have "distinct (consumeEvent g (Some ev))" unfolding eq by simp
  moreover have "set (consumeEvent g (Some ev))
      = {(c, j). connected g c \<and> TenantID c = t \<and> UserID c \<in> set userIDs \<and> build (UserID c) = Inr j}"
    unfolding eq using one by (auto simp: set_concat)
  ultimately show ?thesis using ev(1) by (auto simp: NotifyUsers_def)
qed

text \<open>
  Cluster delivery. When a hub with Redis notifies a list of users (duplicates allowed), and every hub
  of a cluster consumes the event, then each connected client of each of the users on each hub
  gets the payload built for its user, exactly once, and no other client gets anything.
\<close>

theorem NotifyUsers_cluster:
  assumes "hasRedis h" and "\<forall>u \<in> set userIDs. \<exists>j. build u = Inr j"
    and "hub_reach g" and "plainTenants g" and "plain t"
  shows "\<exists>ev. NotifyUsers h None t userIDs build = Published ev
    \<and> distinct (consumeEvent g (Some ev))
    \<and> set (consumeEvent g (Some ev))
        = {(c, j). connected g c \<and> TenantID c = t \<and> UserID c \<in> set userIDs \<and> build (UserID c) = Inr j}"
  using assms by (rule cluster_delivery)

theorem NotifyUsers_cluster_witness:
  "\<exists>ev. NotifyUsers (UseRedis NewHub True) None ''acme'' [''ada'', ''ada''] (\<lambda>u. Inr (JStr u)) = Published ev
    \<and> distinct (consumeEvent demoHub (Some ev))
    \<and> set (consumeEvent demoHub (Some ev))
        = {(c, j). connected demoHub c \<and> TenantID c = ''acme'' \<and> UserID c \<in> set [''ada'', ''ada'']
            \<and> Inr (JStr (UserID c)) = (Inr j :: goval)}"
  by (rule NotifyUsers_cluster[OF _ _ demoHub_reach demoHub_plain]) (simp_all add: UseRedis_def plain_def)

section \<open>Defects\<close>

text \<open>
  A session that reconnects before its old connection is torn down loses its registration:
  \<open>Unregister\<close> of the stale client removes the entry of the new one, which stays open but is
  no longer notified.
\<close>

lemma Unregister_stale:
  "registry (fst (Unregister (Register (Register NewHub ada) (ada\<lparr>Conn := 2\<rparr>)) ada)) ''acme'' ''ada'' ''s1'' = None"
  by (simp add: registry_def map_of_sessions_Unregister ada_def)

text \<open>
  With a colon in a tenant id the keys are ambiguous: a broadcast to tenant \<open>a\<close> also reaches a
  client of tenant \<open>a:b\<close>.
\<close>

lemma broadcast_colon_leak:
  "fst (broadcastTenantLocal (Register NewHub (ada\<lparr>TenantID := ''a:b''\<rparr>)) ''a'' (Inr JNull)) = [(ada\<lparr>TenantID := ''a:b''\<rparr>, JNull)]"
  by (simp add: broadcastTenantLocal_Inr Register_def NewHub_def ada_def userKey_def HasPrefix_def)

end
