(* ===== verification/Http.thy ===== *)
theory Http
  imports Json Encoding
begin

text \<open>
  What the HTTP handlers share: the response bodies (\<open>server/common/transport/httpresp\<close>), the
  bearer-token middleware and the role check (\<open>server/common/middleware/auth.go\<close>) and the token
  service (\<open>server/common/auth/auth_service.go\<close>). The request context of gin is a map from keys
  to values; a middleware either aborts with a response or passes a context on. The JWT library
  is a parameter.
\<close>

section \<open>Responses\<close>

type_synonym response = "nat \<times> json"

definition ErrUnauthorized :: string where "ErrUnauthorized = ''unauthorized''"
definition ErrMissingBearerToken :: string where "ErrMissingBearerToken = ''bearer token is required''"
definition ErrInvalidToken :: string where "ErrInvalidToken = ''invalid token''"
definition ErrForbidden :: string where "ErrForbidden = ''forbidden''"
definition ErrInsufficientRole :: string where "ErrInsufficientRole = ''insufficient permissions''"

definition NewErrorResponse :: "string \<Rightarrow> json" where
  "NewErrorResponse message = JObj [(''error'', JStr message)]"

definition NewOKResponse :: json where
  "NewOKResponse = JObj [(''ok'', JBool True)]"

definition NewIDResponse :: "string \<Rightarrow> json" where
  "NewIDResponse i = JObj [(''id'', JStr i)]"

definition NewURLResponse :: "string \<Rightarrow> json" where
  "NewURLResponse u = JObj [(''url'', JStr u)]"

definition NewTokenResponse :: "string \<Rightarrow> string \<Rightarrow> string \<Rightarrow> string \<Rightarrow> json" where
  "NewTokenResponse accessToken userID tenantID role =
     JObj [(''access_token'', JStr accessToken), (''user_id'', JStr userID), (''tenant_id'', JStr tenantID), (''role'', JStr role)]"

section \<open>Tokens\<close>

record Claims =
  cl_UserID :: string
  cl_TenantID :: string
  cl_Role :: string
  cl_IssuedAt :: time
  cl_ExpiresAt :: time

record AuthService =
  secret :: string
  ttl :: time

text \<open>
  The library \<open>golang-jwt\<close>: \<open>signed\<close> is \<open>NewWithClaims(HS256, claims).SignedString(key)\<close>;
  \<open>parsed\<close> is \<open>ParseWithClaims\<close> with a key function (from the algorithm named in the token to the
  key), the current time and the token, with the flag \<open>Valid\<close>.
\<close>

record jwtLib =
  signed :: "string \<Rightarrow> Claims \<Rightarrow> string result"
  parsed :: "(string \<Rightarrow> string result) \<Rightarrow> time \<Rightarrow> string \<Rightarrow> (Claims \<times> bool) result"

definition NewService :: "string \<Rightarrow> int \<Rightarrow> AuthService" where
  "NewService sec ttlMinutes = \<lparr>secret = sec, ttl = wrap64 (ttlMinutes * (60 * 1000000000))\<rparr>"

text \<open>\<open>jwt.NewNumericDate\<close> truncates to seconds.\<close>

definition numericDate :: "time \<Rightarrow> time" where
  "numericDate t = t - t mod 1000000000"

definition GenerateToken :: "jwtLib \<Rightarrow> AuthService \<Rightarrow> time \<Rightarrow> string \<Rightarrow> string \<Rightarrow> string \<Rightarrow> string result" where
  "GenerateToken lib s now userID tenantID role =
     signed lib (secret s) \<lparr>cl_UserID = userID, cl_TenantID = tenantID, cl_Role = role,
       cl_IssuedAt = numericDate now, cl_ExpiresAt = numericDate (now + ttl s)\<rparr>"

definition ParseToken :: "jwtLib \<Rightarrow> AuthService \<Rightarrow> time \<Rightarrow> string \<Rightarrow> Claims result" where
  "ParseToken lib s now token =
     (case parsed lib (\<lambda>alg. if alg \<noteq> ''HS256'' then Inl ''unexpected signing method'' else Inr (secret s)) now token of
        Inl e \<Rightarrow> Inl e
      | Inr (claims, valid) \<Rightarrow> if \<not> valid then Inl ''invalid token'' else Inr claims)"

definition ParseAuthContext :: "jwtLib \<Rightarrow> AuthService \<Rightarrow> time \<Rightarrow> string \<Rightarrow> (string \<times> string \<times> string) result" where
  "ParseAuthContext lib s now token =
     (case ParseToken lib s now token of
        Inl e \<Rightarrow> Inl e
      | Inr claims \<Rightarrow> Inr (cl_UserID claims, cl_TenantID claims, cl_Role claims))"

section \<open>Middleware\<close>

datatype ctxval = CStr string | COther

type_synonym ctx = "string \<rightharpoonup> ctxval"

definition AuthRequired ::
  "(string \<Rightarrow> (string \<times> string \<times> string) result) \<Rightarrow> string \<Rightarrow> ctx \<Rightarrow> response + ctx" where
  "AuthRequired parse header c =
     (if \<not> HasPrefix header ''Bearer '' then Inl (401, NewErrorResponse ErrMissingBearerToken)
      else let token = TrimPrefix header ''Bearer '' in
        case parse token of
          Inl _ \<Rightarrow> Inl (401, NewErrorResponse ErrInvalidToken)
        | Inr (userID, tenantID, role) \<Rightarrow>
            Inr (c(''auth_access_token'' \<mapsto> CStr token, ''auth_user_id'' \<mapsto> CStr userID,
                   ''auth_tenant_id'' \<mapsto> CStr tenantID, ''auth_role'' \<mapsto> CStr role)))"

definition RequireRoles :: "string list \<Rightarrow> ctx \<Rightarrow> response + ctx" where
  "RequireRoles roles c =
     (let allowed = map TrimSpace roles in
      case c ''auth_role'' of
        None \<Rightarrow> Inl (403, NewErrorResponse ErrForbidden)
      | Some COther \<Rightarrow> Inl (403, NewErrorResponse ErrForbidden)
      | Some (CStr role) \<Rightarrow>
          if role \<notin> set allowed then Inl (403, NewErrorResponse ErrInsufficientRole) else Inr c)"

section \<open>Properties\<close>

text \<open>
  The documented behaviour of the JWT library on tokens that it signed with HS256: parsing asks the key
  function for the key of HS256, fails if that fails, if the key is another one or if the token has
  expired, and else returns the claims as valid.
\<close>

definition jwt_ok :: "jwtLib \<Rightarrow> bool" where
  "jwt_ok lib \<longleftrightarrow> (\<forall>k claims token keyfunc now. signed lib k claims = Inr token \<longrightarrow>
     (case keyfunc ''HS256'' of
        Inl _ \<Rightarrow> \<not> is_ok (parsed lib keyfunc now token)
      | Inr k' \<Rightarrow>
          if k' = k \<and> now < cl_ExpiresAt claims then parsed lib keyfunc now token = Inr (claims, True)
          else \<not> is_ok (parsed lib keyfunc now token)))"

lemma ParseAuthContext_GenerateToken:
  assumes "jwt_ok lib" "GenerateToken lib s now u t role = Inr token"
  shows "if secret s' = secret s \<and> later < numericDate (now + ttl s)
         then ParseAuthContext lib s' later token = Inr (u, t, role)
         else \<not> is_ok (ParseAuthContext lib s' later token)"
proof -
  let ?claims = "\<lparr>cl_UserID = u, cl_TenantID = t, cl_Role = role, cl_IssuedAt = numericDate now,
     cl_ExpiresAt = numericDate (now + ttl s)\<rparr>"
  let ?kf = "\<lambda>alg. if alg \<noteq> ''HS256'' then Inl ''unexpected signing method'' else Inr (secret s')"
  have "signed lib (secret s) ?claims = Inr token" using assms(2) by (simp add: GenerateToken_def)
  with assms(1)[unfolded jwt_ok_def, rule_format, of "secret s" ?claims token ?kf later]
  show ?thesis
    by (auto simp: ParseAuthContext_def ParseToken_def is_ok_iff split: if_splits sum.splits)
qed

text \<open>
  C28: Tokens round trip through the middleware. A token that a server generated is accepted by
  the middleware of every server with the same secret until it expires, and the request then
  carries the user, tenant and role the token was made for; with another secret or after the
  expiry it is refused with status 401.
\<close>

theorem token_roundtrip:
  assumes "jwt_ok lib" and "GenerateToken lib s now u t role = Inr token"
  shows "AuthRequired (ParseAuthContext lib s' later) (''Bearer '' @ token) c =
    (if secret s' = secret s \<and> later < numericDate (now + ttl s)
     then Inr (c(''auth_access_token'' \<mapsto> CStr token, ''auth_user_id'' \<mapsto> CStr u,
                 ''auth_tenant_id'' \<mapsto> CStr t, ''auth_role'' \<mapsto> CStr role))
     else Inl (401, NewErrorResponse ErrInvalidToken))"
proof -
  have "HasPrefix (''Bearer '' @ token) ''Bearer ''" "TrimPrefix (''Bearer '' @ token) ''Bearer '' = token"
    by (rule HasPrefix_append, rule TrimPrefix_append)
  then show ?thesis
    using ParseAuthContext_GenerateToken[OF assms, of s' later]
    unfolding AuthRequired_def by (auto simp: not_is_ok_iff split: if_splits)
qed

text \<open>A library that keeps the claims of the one token it has signed, for the witness.\<close>

definition jwtEx :: "Claims \<Rightarrow> jwtLib" where
  "jwtEx claims = \<lparr>signed = (\<lambda>k c. if k = ''k'' \<and> c = claims then Inr ''tok'' else Inl ''no''),
     parsed = (\<lambda>kf now token. case kf ''HS256'' of
        Inl e \<Rightarrow> Inl e
      | Inr k \<Rightarrow> if token = ''tok'' \<and> k = ''k'' \<and> now < cl_ExpiresAt claims then Inr (claims, True) else Inl ''bad'')\<rparr>"

lemma jwtEx_ok: "jwt_ok (jwtEx claims)"
  unfolding jwt_ok_def jwtEx_def by (auto split: sum.splits if_splits)

definition claimsEx :: Claims where
  "claimsEx = \<lparr>cl_UserID = ''ada'', cl_TenantID = ''acme'', cl_Role = ''user'', cl_IssuedAt = 0, cl_ExpiresAt = 60000000000\<rparr>"

theorem token_roundtrip_witness:
  "AuthRequired (ParseAuthContext (jwtEx claimsEx) (NewService ''k'' 1) 59000000000) (''Bearer '' @ ''tok'') Map.empty
     = Inr [''auth_access_token'' \<mapsto> CStr ''tok'', ''auth_user_id'' \<mapsto> CStr ''ada'',
            ''auth_tenant_id'' \<mapsto> CStr ''acme'', ''auth_role'' \<mapsto> CStr ''user'']
   \<and> AuthRequired (ParseAuthContext (jwtEx claimsEx) (NewService ''k'' 1) 60000000000) (''Bearer '' @ ''tok'') Map.empty
     = Inl (401, NewErrorResponse ErrInvalidToken)"
proof -
  have "GenerateToken (jwtEx claimsEx) (NewService ''k'' 1) 0 ''ada'' ''acme'' ''user'' = Inr ''tok''"
    by (simp add: GenerateToken_def jwtEx_def NewService_def numericDate_def wrap64_def claimsEx_def)
  note t = token_roundtrip[OF jwtEx_ok this, of "NewService ''k'' 1" _ Map.empty]
  show ?thesis
    unfolding t by (simp add: NewService_def numericDate_def wrap64_def)
qed

definition hasRole :: "string list \<Rightarrow> ctx \<Rightarrow> bool" where
  "hasRole roles c \<longleftrightarrow> (case c ''auth_role'' of Some (CStr role) \<Rightarrow> role \<in> TrimSpace ` set roles | _ \<Rightarrow> False)"

text \<open>
  The role check lets exactly the listed roles through: the context passes unchanged if the
  middleware before it stored one of the (trimmed) roles, and every other request ends with 403.
\<close>

theorem RequireRoles_exact:
  "case RequireRoles roles c of Inl r \<Rightarrow> fst r = 403 \<and> \<not> hasRole roles c | Inr c' \<Rightarrow> c' = c \<and> hasRole roles c"
  by (auto simp: RequireRoles_def hasRole_def Let_def split: option.splits ctxval.splits if_splits)

end
