(* ===== verification/SessionServices.thy ===== *)
theory SessionServices
  imports SessionRepo SessionHub Http
begin

text \<open>
  The session server: \<open>server/session/service/{session,note,chat}_service.go\<close> and the handlers
  of \<open>server/session/api/handler.go\<close>. The store that the services call (in the running system
  the \<open>dbman\<close> client) is a record of operations on a state, as the Go interfaces
  \<open>sessionServiceStore\<close>, \<open>noteServiceStore\<close> and \<open>chatServiceStore\<close> have them; the locale
  \<open>session_store\<close> states what the services rely on, and the repository's statements provide it.
\<close>

section \<open>The store\<close>

record 's sessionStore =
  store_upsert :: "'s \<Rightarrow> DeviceSession \<Rightarrow> 's \<times> DeviceSession result"
  store_validate :: "'s \<Rightarrow> string \<Rightarrow> string \<Rightarrow> string \<Rightarrow> string \<Rightarrow> 's \<times> bool result"
  store_status :: "'s \<Rightarrow> UserStatus \<Rightarrow> 's \<times> unit result"
  store_note :: "'s \<Rightarrow> Note \<Rightarrow> 's \<times> Note result"
  store_inbox :: "'s \<Rightarrow> string \<Rightarrow> string \<Rightarrow> int \<Rightarrow> 's \<times> NoteInboxItem list result"
  store_read :: "'s \<Rightarrow> string \<Rightarrow> string \<Rightarrow> string \<Rightarrow> 's \<times> unit result"
  store_notifications :: "'s \<Rightarrow> string \<Rightarrow> string \<Rightarrow> ChatNotifyInput \<Rightarrow> 's \<times> unit result"

section \<open>Session service\<close>

definition hexDigit :: "nat \<Rightarrow> char" where
  "hexDigit n = (''0123456789abcdef'') ! n"

text \<open>\<open>randomToken\<close>: the bytes that \<open>rand.Read\<close> gave, or its error, in hexadecimal.\<close>

definition randomToken :: "nat list result \<Rightarrow> string result" where
  "randomToken rnd =
     (case rnd of
        Inl e \<Rightarrow> Inl e
      | Inr buf \<Rightarrow> Inr (concat (map (\<lambda>b. [hexDigit (b div 16 mod 16), hexDigit (b mod 16)]) buf)))"

definition LoginDevice ::
  "'s sessionStore \<Rightarrow> nat list result \<Rightarrow> 's \<Rightarrow> string \<Rightarrow> string \<Rightarrow> string \<Rightarrow> string \<Rightarrow> string \<Rightarrow> string list
   \<Rightarrow> 's \<times> DeviceSession result" where
  "LoginDevice st rnd s tenant user device deviceName auth allowed =
     (let tenantID = TrimSpace tenant; userID = TrimSpace user; deviceID = TrimSpace device;
          authToken = TrimSpace auth in
      if tenantID = '''' \<or> userID = '''' \<or> deviceID = ''''
      then (s, Inl ''tenant_id, user_id, device_id are required'')
      else let allowed1 = (if length allowed = 0 then [tenantID] else allowed);
               allowed2 = (if \<not> containsString allowed1 tenantID then allowed1 @ [tenantID] else allowed1) in
        case randomToken rnd of
          Inl e \<Rightarrow> (s, Inl e)
        | Inr token \<Rightarrow>
            (case store_upsert st s \<lparr>ds_SessionID = '''', ds_TenantID = tenantID, ds_UserID = userID,
                ds_DeviceID = deviceID, ds_DeviceName = TrimSpace deviceName, ds_AuthToken = '''',
                ds_SessionToken = token, ds_AllowedTenants = dedupeAndTrim allowed2,
                ds_LastSeenAt = 0, ds_CreatedAt = 0\<rparr> of
               (s', Inl e) \<Rightarrow> (s', Inl e)
             | (s', Inr session) \<Rightarrow> (s', Inr (session\<lparr>ds_AuthToken := authToken\<rparr>))))"

definition ValidateSession ::
  "'s sessionStore \<Rightarrow> 's \<Rightarrow> string \<Rightarrow> string \<Rightarrow> string \<Rightarrow> string \<Rightarrow> 's \<times> bool result" where
  "ValidateSession st s tenantID userID sessionID sessionToken =
     (if TrimSpace tenantID = '''' \<or> TrimSpace userID = '''' \<or> TrimSpace sessionID = '''' \<or> TrimSpace sessionToken = ''''
      then (s, Inr False)
      else store_validate st s tenantID userID sessionID sessionToken)"

text \<open>\<open>UpdateStatus\<close>: the third component is what the hub was told to broadcast, if it was.\<close>

definition UpdateStatus ::
  "'s sessionStore \<Rightarrow> Hub \<Rightarrow> string option \<Rightarrow> time \<Rightarrow> 's \<Rightarrow> string \<Rightarrow> string \<Rightarrow> string \<Rightarrow> string
   \<Rightarrow> 's \<times> unit result \<times> dispatch option" where
  "UpdateStatus st hub pubErr now s tenantID userID rawStatus statusNote =
     (let status = ToLower (TrimSpace rawStatus) in
      if status = '''' then (s, Inl ''status is required'', None)
      else if \<not> containsString [''online'', ''offline'', ''busy'', ''away'', ''meeting''] status
      then (s, Inl ''status must be one of online|offline|busy|away|meeting'', None)
      else let item = \<lparr>st_TenantID = tenantID, st_UserID = userID, st_Status = status,
                       st_StatusNote = TrimSpace statusNote, st_UpdatedAt = now\<rparr> in
        case store_status st s item of
          (s', Inl e) \<Rightarrow> (s', Inl e, None)
        | (s', Inr _) \<Rightarrow>
            (s', Inr (), Some (BroadcastTenant hub pubErr tenantID
              (Inr (JObj [(''type'', JStr ''status.changed''), (''tenant_id'', JStr tenantID), (''user_id'', JStr userID),
                (''status'', JStr (st_Status item)), (''status_note'', JStr (st_StatusNote item)),
                (''updated_at'', jtime (st_UpdatedAt item))])))))"

section \<open>Note service\<close>

definition noteRecipients :: "NoteCreateInput \<Rightarrow> NoteRecipient list" where
  "noteRecipients input =
     map (\<lambda>u. \<lparr>nr_UserID = u, nr_Type = ''to''\<rparr>) (dedupeAndTrim (ni_To input))
   @ map (\<lambda>u. \<lparr>nr_UserID = u, nr_Type = ''cc''\<rparr>) (dedupeAndTrim (ni_CC input))
   @ map (\<lambda>u. \<lparr>nr_UserID = u, nr_Type = ''bcc''\<rparr>) (dedupeAndTrim (ni_BCC input))"

text \<open>\<open>recipientTypeByUser\<close>: the first entry of each user counts.\<close>

fun recipientTypes :: "(string \<times> string) list \<Rightarrow> NoteRecipient list \<Rightarrow> (string \<times> string) list" where
  "recipientTypes m [] = m"
| "recipientTypes m (rc # rcs) =
     (if map_of m (nr_UserID rc) \<noteq> None then recipientTypes m rcs
      else recipientTypes (m @ [(nr_UserID rc, nr_Type rc)]) rcs)"

definition noteFileJson :: "NoteFile \<Rightarrow> json" where
  "noteFileJson f = JObj [(''file_name'', JStr (nf_FileName f)), (''object_key'', JStr (nf_ObjectKey f)),
     (''content_type'', JStr (nf_ContentType f)), (''size_bytes'', JNum (nf_SizeBytes f))]"

definition noteReceived :: "Note \<Rightarrow> string \<Rightarrow> string \<Rightarrow> (string \<times> string) list \<Rightarrow> string \<Rightarrow> goval" where
  "noteReceived note tenantID sender types userID =
     Inr (JObj [(''type'', JStr ''note.received''), (''note_id'', JStr (no_NoteID note)), (''tenant_id'', JStr tenantID),
       (''sender_user_id'', JStr sender),
       (''recipient_type'', JStr (case map_of types userID of None \<Rightarrow> '''' | Some t \<Rightarrow> t)),
       (''title'', JStr (no_Title note)), (''body'', JStr (no_Body note)),
       (''files'', JArr (map noteFileJson (no_Files note))), (''created_at'', jtime (no_CreatedAt note))])"

definition SendNote ::
  "'s sessionStore \<Rightarrow> Hub \<Rightarrow> string option \<Rightarrow> 's \<Rightarrow> string \<Rightarrow> string \<Rightarrow> NoteCreateInput
   \<Rightarrow> 's \<times> Note result \<times> dispatch option" where
  "SendNote st hub pubErr s tenantID sender input =
     (if TrimSpace (ni_Title input) = '''' then (s, Inl ''title is required'', None)
      else if length (ni_To input) + length (ni_CC input) + length (ni_BCC input) = 0
      then (s, Inl ''at least one recipient is required'', None)
      else
        case store_note st s \<lparr>no_NoteID = '''', no_TenantID = tenantID, no_SenderUserID = sender,
            no_Title = TrimSpace (ni_Title input), no_Body = ni_Body input, no_Recipients = noteRecipients input,
            no_Files = ni_Files input, no_CreatedAt = 0\<rparr> of
          (s', Inl e) \<Rightarrow> (s', Inl e, None)
        | (s', Inr note) \<Rightarrow>
            let types = recipientTypes [] (no_Recipients note) in
            (s', Inr note, Some (NotifyUsers hub pubErr tenantID (map fst types) (noteReceived note tenantID sender types))))"

definition svc_ListInbox ::
  "'s sessionStore \<Rightarrow> 's \<Rightarrow> string \<Rightarrow> string \<Rightarrow> int \<Rightarrow> 's \<times> NoteInboxItem list result" where
  "svc_ListInbox st s tenantID userID limit =
     store_inbox st s tenantID userID (clampLimit 200 50 limit)"

definition svc_MarkNoteRead :: "'s sessionStore \<Rightarrow> 's \<Rightarrow> string \<Rightarrow> string \<Rightarrow> string \<Rightarrow> 's \<times> unit result" where
  "svc_MarkNoteRead st s tenantID userID noteID =
     (if TrimSpace noteID = '''' then (s, Inl ''note_id is required'')
      else store_read st s tenantID userID noteID)"

section \<open>Chat notifications\<close>

text \<open>The payload of a recipient; \<open>clock\<close> gives the time at which it is built.\<close>

definition chatNotification :: "string \<Rightarrow> string \<Rightarrow> string \<Rightarrow> ChatNotifyInput \<Rightarrow> (string \<Rightarrow> time) \<Rightarrow> string \<Rightarrow> goval" where
  "chatNotification tenantID sender authToken input clock userID =
     Inr (JObj [(''type'', JStr ''chat.notification''), (''tenant_id'', JStr tenantID), (''room_id'', JStr (cn_RoomID input)),
       (''message_id'', JStr (cn_MessageID input)), (''auth_token'', JStr authToken), (''sender_user_id'', JStr sender),
       (''recipient_user_id'', JStr userID), (''title'', JStr (cn_Title input)), (''body'', JStr (cn_Body input)),
       (''created_at'', jtime (clock userID))])"

definition NotifyChat ::
  "'s sessionStore \<Rightarrow> Hub \<Rightarrow> string option \<Rightarrow> (string \<Rightarrow> time) \<Rightarrow> 's \<Rightarrow> string \<Rightarrow> string \<Rightarrow> string \<Rightarrow> ChatNotifyInput
   \<Rightarrow> 's \<times> unit result \<times> dispatch option" where
  "NotifyChat st hub pubErr clock s tenantID sender auth input =
     (if TrimSpace (cn_RoomID input) = '''' then (s, Inl ''room_id is required'', None)
      else let authToken = TrimSpace auth; rcpts = dedupeAndTrim (cn_RecipientIDs input) in
        if length rcpts = 0 then (s, Inl ''recipient_ids is required'', None)
        else case store_notifications st s tenantID sender input of
            (s', Inl e) \<Rightarrow> (s', Inl e, None)
          | (s', Inr _) \<Rightarrow>
              (s', Inr (), Some (NotifyUsers hub pubErr tenantID rcpts (chatNotification tenantID sender authToken input clock))))"

section \<open>Handlers\<close>

text \<open>
  The handlers read the identity that the middleware left in the context, bind the request body
  (the result of \<open>ShouldBindJSON\<close> is an argument) and call a service.
\<close>

definition ctxString :: "ctx \<Rightarrow> string \<Rightarrow> string option" where
  "ctxString c key = (case c key of Some (CStr v) \<Rightarrow> if TrimSpace v = '''' then None else Some v | _ \<Rightarrow> None)"

definition actorFromContext :: "ctx \<Rightarrow> (string \<times> string) option" where
  "actorFromContext c =
     (case ctxString c ''auth_tenant_id'' of
        None \<Rightarrow> None
      | Some tenantID \<Rightarrow>
          (case ctxString c ''auth_user_id'' of None \<Rightarrow> None | Some userID \<Rightarrow> Some (tenantID, userID)))"

definition authTokenFromContext :: "ctx \<Rightarrow> string option" where
  "authTokenFromContext c = map_option TrimSpace (ctxString c ''auth_access_token'')"

definition unauthorized :: response where
  "unauthorized = (401, NewErrorResponse ErrUnauthorized)"

record loginReq =
  lr_DeviceID :: string
  lr_DeviceName :: string
  lr_AllowedTenants :: "string list"

definition sessionJson :: "DeviceSession \<Rightarrow> json" where
  "sessionJson d = JObj ([(''session_id'', JStr (ds_SessionID d)), (''tenant_id'', JStr (ds_TenantID d)),
       (''user_id'', JStr (ds_UserID d)), (''device_id'', JStr (ds_DeviceID d)), (''device_name'', JStr (ds_DeviceName d))]
     @ (if ds_AuthToken d = '''' then [] else [(''auth_token'', JStr (ds_AuthToken d))])
     @ [(''session_token'', JStr (ds_SessionToken d)), (''allowed_tenants'', jstrs (ds_AllowedTenants d)),
        (''last_seen_at'', jtime (ds_LastSeenAt d)), (''created_at'', jtime (ds_CreatedAt d))])"

definition loginDevice ::
  "'s sessionStore \<Rightarrow> nat list result \<Rightarrow> 's \<Rightarrow> ctx \<Rightarrow> loginReq result \<Rightarrow> 's \<times> response" where
  "loginDevice st rnd s c bind =
     (case actorFromContext c of
        None \<Rightarrow> (s, unauthorized)
      | Some (tenantID, userID) \<Rightarrow>
          (case authTokenFromContext c of
             None \<Rightarrow> (s, unauthorized)
           | Some authToken \<Rightarrow>
               (case bind of
                  Inl e \<Rightarrow> (s, (400, NewErrorResponse e))
                | Inr req \<Rightarrow>
                    (case LoginDevice st rnd s tenantID userID (lr_DeviceID req) (lr_DeviceName req) authToken (lr_AllowedTenants req) of
                       (s', Inl e) \<Rightarrow> (s', (400, NewErrorResponse e))
                     | (s', Inr session) \<Rightarrow> (s', (200, sessionJson session))))))"

definition updateSessionStatus ::
  "'s sessionStore \<Rightarrow> Hub \<Rightarrow> string option \<Rightarrow> time \<Rightarrow> 's \<Rightarrow> ctx \<Rightarrow> (string \<times> string) result
   \<Rightarrow> 's \<times> response \<times> dispatch option" where
  "updateSessionStatus st hub pubErr now s c bind =
     (case actorFromContext c of
        None \<Rightarrow> (s, unauthorized, None)
      | Some (tenantID, userID) \<Rightarrow>
          (case bind of
             Inl e \<Rightarrow> (s, (400, NewErrorResponse e), None)
           | Inr (status, statusNote) \<Rightarrow>
               (case UpdateStatus st hub pubErr now s tenantID userID status statusNote of
                  (s', Inl e, d) \<Rightarrow> (s', (400, NewErrorResponse e), d)
                | (s', Inr _, d) \<Rightarrow> (s', (200, NewOKResponse), d))))"

definition recipientJson :: "NoteRecipient \<Rightarrow> json" where
  "recipientJson rc = JObj [(''user_id'', JStr (nr_UserID rc)), (''type'', JStr (nr_Type rc))]"

definition noteJson :: "Note \<Rightarrow> json" where
  "noteJson n = JObj [(''note_id'', JStr (no_NoteID n)), (''tenant_id'', JStr (no_TenantID n)),
     (''sender_user_id'', JStr (no_SenderUserID n)), (''title'', JStr (no_Title n)), (''body'', JStr (no_Body n)),
     (''recipients'', JArr (map recipientJson (no_Recipients n))), (''files'', JArr (map noteFileJson (no_Files n))),
     (''created_at'', jtime (no_CreatedAt n))]"

definition sendNote ::
  "'s sessionStore \<Rightarrow> Hub \<Rightarrow> string option \<Rightarrow> 's \<Rightarrow> ctx \<Rightarrow> NoteCreateInput result
   \<Rightarrow> 's \<times> response \<times> dispatch option" where
  "sendNote st hub pubErr s c bind =
     (case actorFromContext c of
        None \<Rightarrow> (s, unauthorized, None)
      | Some (tenantID, userID) \<Rightarrow>
          (case bind of
             Inl e \<Rightarrow> (s, (400, NewErrorResponse e), None)
           | Inr req \<Rightarrow>
               (case SendNote st hub pubErr s tenantID userID req of
                  (s', Inl e, d) \<Rightarrow> (s', (400, NewErrorResponse e), d)
                | (s', Inr note, d) \<Rightarrow> (s', (201, noteJson note), d))))"

definition inboxJson :: "NoteInboxItem \<Rightarrow> json" where
  "inboxJson i = JObj [(''note_id'', JStr (ib_NoteID i)), (''sender_user_id'', JStr (ib_SenderUserID i)),
     (''recipient_type'', JStr (ib_RecipientType i)), (''title'', JStr (ib_Title i)), (''body'', JStr (ib_Body i)),
     (''file_count'', JNum (int (ib_FileCount i))), (''is_read'', JBool (ib_IsRead i)), (''created_at'', jtime (ib_CreatedAt i))]"

text \<open>The query parameter \<open>limit\<close>, 50 if absent; \<open>strconv.Atoi\<close> returns 0 or the nearest bound on an error.\<close>

definition queryLimit :: "string \<Rightarrow> string option \<Rightarrow> int" where
  "queryLimit dflt q = fst (Atoi (case q of None \<Rightarrow> dflt | Some v \<Rightarrow> v))"

definition listInbox :: "'s sessionStore \<Rightarrow> 's \<Rightarrow> ctx \<Rightarrow> string option \<Rightarrow> 's \<times> response" where
  "listInbox st s c limitQ =
     (case actorFromContext c of
        None \<Rightarrow> (s, unauthorized)
      | Some (tenantID, userID) \<Rightarrow>
          (case svc_ListInbox st s tenantID userID (queryLimit ''50'' limitQ) of
             (s', Inl e) \<Rightarrow> (s', (500, NewErrorResponse e))
           | (s', Inr items) \<Rightarrow> (s', (200, JArr (map inboxJson items)))))"

definition markNoteRead :: "'s sessionStore \<Rightarrow> 's \<Rightarrow> ctx \<Rightarrow> string \<Rightarrow> 's \<times> response" where
  "markNoteRead st s c param =
     (case actorFromContext c of
        None \<Rightarrow> (s, unauthorized)
      | Some (tenantID, userID) \<Rightarrow>
          (case svc_MarkNoteRead st s tenantID userID (TrimSpace param) of
             (s', Inl e) \<Rightarrow> (s', (400, NewErrorResponse e))
           | (s', Inr _) \<Rightarrow> (s', (200, NewOKResponse))))"

definition notifyChat ::
  "'s sessionStore \<Rightarrow> Hub \<Rightarrow> string option \<Rightarrow> (string \<Rightarrow> time) \<Rightarrow> 's \<Rightarrow> ctx \<Rightarrow> ChatNotifyInput result
   \<Rightarrow> 's \<times> response \<times> dispatch option" where
  "notifyChat st hub pubErr clock s c bind =
     (case actorFromContext c of
        None \<Rightarrow> (s, unauthorized, None)
      | Some (tenantID, userID) \<Rightarrow>
          (case authTokenFromContext c of
             None \<Rightarrow> (s, unauthorized, None)
           | Some authToken \<Rightarrow>
               (case bind of
                  Inl e \<Rightarrow> (s, (400, NewErrorResponse e), None)
                | Inr req \<Rightarrow>
                    (case NotifyChat st hub pubErr clock s tenantID userID authToken req of
                       (s', Inl e, d) \<Rightarrow> (s', (400, NewErrorResponse e), d)
                     | (s', Inr _, d) \<Rightarrow> (s', (200, NewOKResponse), d)))))"

text \<open>
  \<open>handleSessionWS\<close> in three parts, between which other requests run: the handshake up to
  the registration (with the greeting), one pass of the read loop, and the deferred \<open>Unregister\<close>.
  \<open>upgrade\<close> is the new connection or the error of \<open>Upgrade\<close>.
\<close>

record wsQuery =
  wq_tenant :: string
  wq_user :: string
  wq_session :: string
  wq_token :: string

definition wsClientOf :: "wsQuery \<Rightarrow> nat \<Rightarrow> WSClient" where
  "wsClientOf q conn = \<lparr>TenantID = TrimSpace (wq_tenant q), UserID = TrimSpace (wq_user q),
     SessionID = TrimSpace (wq_session q), Conn = conn\<rparr>"

definition handleSessionWS_open ::
  "'s sessionStore \<Rightarrow> 's \<Rightarrow> Hub \<Rightarrow> wsQuery \<Rightarrow> nat result \<Rightarrow> time
   \<Rightarrow> 's \<times> Hub \<times> (response + WSClient \<times> delivery list)" where
  "handleSessionWS_open st s hub q upgrade now =
     (let tenantID = TrimSpace (wq_tenant q); userID = TrimSpace (wq_user q);
          sessionID = TrimSpace (wq_session q); sessionToken = TrimSpace (wq_token q) in
      case ValidateSession st s tenantID userID sessionID sessionToken of
        (s', Inl e) \<Rightarrow> (s', hub, Inl (500, NewErrorResponse e))
      | (s', Inr ok) \<Rightarrow>
          if \<not> ok then (s', hub, Inl unauthorized)
          else case upgrade of
              Inl e \<Rightarrow> (s', hub, Inl (400, NewErrorResponse e))
            | Inr conn \<Rightarrow>
                let client = wsClientOf q conn in
                (s', Register hub client,
                 Inr (client, WriteJSON client (Inr (JObj [(''type'', JStr ''session.connected''), (''tenant_id'', JStr tenantID),
                   (''user_id'', JStr userID), (''session_id'', JStr sessionID), (''connected_at'', jtime now)])))))"

definition handleSessionWS_message :: "'s sessionStore \<Rightarrow> 's \<Rightarrow> wsQuery \<Rightarrow> 's" where
  "handleSessionWS_message st s q =
     fst (ValidateSession st s (TrimSpace (wq_tenant q)) (TrimSpace (wq_user q)) (TrimSpace (wq_session q)) (TrimSpace (wq_token q)))"

definition handleSessionWS_close :: "Hub \<Rightarrow> WSClient \<Rightarrow> Hub \<times> nat" where
  "handleSessionWS_close hub client = Unregister hub client"

section \<open>The contract of the store\<close>

locale session_store =
  fixes upsert :: "'s \<Rightarrow> DeviceSession \<Rightarrow> 's \<times> DeviceSession result"
    and validate :: "'s \<Rightarrow> string \<Rightarrow> string \<Rightarrow> string \<Rightarrow> string \<Rightarrow> 's \<times> bool result"
    and inv :: "'s \<Rightarrow> bool"
  assumes upsert_keeps: "inv s \<Longrightarrow> inv (fst (upsert s d))"
    and validate_keeps: "inv s \<Longrightarrow> inv (fst (validate s t u sid tok))"
    and upsert_out: "upsert s d = (s', Inr out) \<Longrightarrow> ds_TenantID out = ds_TenantID d
       \<and> ds_UserID out = ds_UserID d \<and> ds_DeviceID out = ds_DeviceID d \<and> ds_SessionToken out = ds_SessionToken d
       \<and> ds_AllowedTenants out = ds_AllowedTenants d"
    and upsert_validate: "upsert s d = (s', Inr out) \<Longrightarrow>
       validate s' (ds_TenantID d) (ds_UserID d) (ds_SessionID out) (ds_SessionToken d) = (s'', Inr b) \<Longrightarrow> b"
begin

lemma LoginDevice_ok:
  assumes "store_upsert st = upsert" "LoginDevice st rnd s t u d dn at al = (s', Inr sess)"
  shows "\<exists>token dev out. randomToken rnd = Inr token \<and> upsert s dev = (s', Inr out) \<and> sess = out\<lparr>ds_AuthToken := TrimSpace at\<rparr>
    \<and> ds_TenantID dev = TrimSpace t \<and> ds_UserID dev = TrimSpace u \<and> ds_DeviceID dev = TrimSpace d
    \<and> ds_SessionToken dev = token \<and> TrimSpace t \<noteq> '''' \<and> TrimSpace u \<noteq> ''''
    \<and> TrimSpace t \<in> set (ds_AllowedTenants dev)"
proof -
  let ?al1 = "if length al = 0 then [TrimSpace t] else al"
  let ?al2 = "if \<not> containsString ?al1 (TrimSpace t) then ?al1 @ [TrimSpace t] else ?al1"
  let ?dev = "\<lambda>token. \<lparr>ds_SessionID = '''', ds_TenantID = TrimSpace t, ds_UserID = TrimSpace u,
      ds_DeviceID = TrimSpace d, ds_DeviceName = TrimSpace dn, ds_AuthToken = '''', ds_SessionToken = token,
      ds_AllowedTenants = dedupeAndTrim ?al2, ds_LastSeenAt = 0, ds_CreatedAt = 0\<rparr>"
  have ne: "TrimSpace t \<noteq> ''''" "TrimSpace u \<noteq> ''''" "TrimSpace d \<noteq> ''''"
    using assms(2) by (auto simp: LoginDevice_def Let_def split: if_splits)
  have run: "LoginDevice st rnd s t u d dn at al =
      (case randomToken rnd of Inl e \<Rightarrow> (s, Inl e)
       | Inr token \<Rightarrow> (case upsert s (?dev token) of (s', Inl e) \<Rightarrow> (s', Inl e)
           | (s', Inr session) \<Rightarrow> (s', Inr (session\<lparr>ds_AuthToken := TrimSpace at\<rparr>))))"
    unfolding LoginDevice_def Let_def assms(1) using ne by simp
  then obtain token out where tok: "randomToken rnd = Inr token" "upsert s (?dev token) = (s', Inr out)"
      "sess = out\<lparr>ds_AuthToken := TrimSpace at\<rparr>"
    using assms(2) by (auto split: sum.splits prod.splits)
  have "TrimSpace t \<in> set (dedupeAndTrim ?al2)"
  proof -
    have "\<exists>i \<in> set ?al2. TrimSpace i = TrimSpace t"
      by (auto simp: containsString_iff)
    then obtain i where "i \<in> set ?al2" "TrimSpace i = TrimSpace t" by blast
    then show ?thesis using ne(1) unfolding recipients.op_set by (intro CollectI exI[of _ i]) simp
  qed
  then have "TrimSpace t \<in> set (ds_AllowedTenants (?dev token))" by simp
  with tok ne show ?thesis
    by (intro exI[of _ token] exI[of _ "?dev token"] exI[of _ out]) simp
qed

text \<open>A session that a login returned validates, whenever the store answers.\<close>

lemma login_then_validate:
  assumes st: "store_upsert st = upsert" "store_validate st = validate"
    and login: "LoginDevice st rnd s t u d dn at al = (s', Inr sess)"
    and ids: "TrimSpace (ds_SessionID sess) \<noteq> ''''" "TrimSpace (ds_SessionToken sess) \<noteq> ''''"
    and val: "ValidateSession st s' (ds_TenantID sess) (ds_UserID sess) (ds_SessionID sess) (ds_SessionToken sess) = (s'', Inr b)"
  shows "b"
proof -
  obtain token dev out where *: "upsert s dev = (s', Inr out)" "sess = out\<lparr>ds_AuthToken := TrimSpace at\<rparr>"
    "ds_TenantID dev = TrimSpace t" "ds_UserID dev = TrimSpace u" "TrimSpace t \<noteq> ''''" "TrimSpace u \<noteq> ''''"
    using LoginDevice_ok[OF st(1) login] by blast
  note out = upsert_out[OF *(1)]
  have "validate s' (ds_TenantID dev) (ds_UserID dev) (ds_SessionID out) (ds_SessionToken dev) = (s'', Inr b)"
    using val ids * out st(2) by (auto simp: ValidateSession_def)
  with *(1) show ?thesis by (rule upsert_validate)
qed

lemma login_identity:
  assumes "store_upsert st = upsert" "LoginDevice st rnd s t u d dn at al = (s', Inr sess)"
  shows "ds_TenantID sess = TrimSpace t \<and> ds_UserID sess = TrimSpace u \<and> ds_DeviceID sess = TrimSpace d
    \<and> TrimSpace t \<in> set (ds_AllowedTenants sess)"
  using LoginDevice_ok[OF assms] upsert_out by fastforce

end

text \<open>The statements of the repository, each alone on the tenant's data base.\<close>

definition db_upsert :: "sqlEnv \<Rightarrow> Database \<Rightarrow> DeviceSession \<Rightarrow> Database \<times> DeviceSession result" where
  "db_upsert env db d = exec env 0 (sql_upsertDevice env d) db"

definition db_validate :: "sqlEnv \<Rightarrow> Database \<Rightarrow> string \<Rightarrow> string \<Rightarrow> string \<Rightarrow> string \<Rightarrow> Database \<times> bool result" where
  "db_validate env db t u sid tok = exec env 0 (sql_touchDevice env t u sid tok) db"

lemma upsertDevice_keeps: "device_inv db \<Longrightarrow> device_inv (fst (sql_upsertDevice env d db))"
proof (cases "sql_upsertDevice env d db")
  case (Pair db' res)
  assume inv: "device_inv db"
  show ?thesis
  proof (cases res)
    case (Inl e)
    with Pair inv show ?thesis
      by (auto simp: sql_upsertDevice_def Let_def split: if_splits option.splits)
  qed (use Pair inv upsert_inv in auto)
qed

lemma upsertDevice_out:
  assumes "sql_upsertDevice env d db = (db', Inr out)"
  shows "ds_TenantID out = ds_TenantID d \<and> ds_UserID out = ds_UserID d \<and> ds_DeviceID out = ds_DeviceID d
    \<and> ds_SessionToken out = ds_SessionToken d \<and> ds_AllowedTenants out = ds_AllowedTenants d"
  using assms by (cases rule: upsert_cases) (auto simp: refreshDevice_def newDevice_def deviceKey_def)

interpretation sess: session_store "db_upsert env" "db_validate env'" device_inv for env env'
proof (unfold_locales, goal_cases)
  case (1 s d)
  then show ?case by (simp add: db_upsert_def exec_def upsertDevice_keeps split: option.split)
next
  case (2 s t u sid tok)
  then show ?case by (simp add: db_validate_def exec_def touch_inv split: option.split)
next
  case (3 s d s' out)
  then show ?case using upsertDevice_out[of env d s s' out] by (simp add: db_upsert_def exec_ok)
next
  case (4 s d s' out s'' b)
  then have "sql_upsertDevice env d s = (s', Inr out)" by (simp add: db_upsert_def exec_ok)
  with 4(2) show ?case
    using upsert_validates[of env d s s' out env'] by (auto simp: db_validate_def exec_ok)
qed

section \<open>Properties\<close>

definition dbStore :: "sqlEnv \<Rightarrow> sqlEnv \<Rightarrow> Database sessionStore" where
  "dbStore env env' = \<lparr>store_upsert = db_upsert env, store_validate = db_validate env',
     store_status = (\<lambda>db st. exec env 0 (sql_upsertPresence env st) db),
     store_note = (\<lambda>db n. if no_Recipients n = [] then (db, Inl ''at least one recipient is required'')
        else inTx env (2 + length (no_Recipients n) + length (no_Files n)) (noteBody env n) db),
     store_inbox = (\<lambda>db t u limit. exec env 0 (sql_inbox t u limit) db),
     store_read = (\<lambda>db t u nid. exec env 0 (sql_markNote env t u nid) db),
     store_notifications = (\<lambda>db t sender input. if cn_RecipientIDs input = [] then (db, Inr ())
        else inTx env (1 + length (cn_RecipientIDs input))
          (forEach (\<lambda>rc k. exec env k (sql_insertNotification t sender input rc)) 1 (cn_RecipientIDs input)) db)\<rparr>"

lemma plain_hexDigit: "n < 16 \<Longrightarrow> plain_char (hexDigit n)"
proof -
  have "\<forall>n \<in> set [0..<16]. plain_char (hexDigit n)"
    by (simp add: upt_rec hexDigit_def plain_char_def)
  then show "n < 16 \<Longrightarrow> ?thesis" by simp
qed

lemma randomToken_nonblank:
  assumes "randomToken (Inr (b # bs)) = Inr token"
  shows "TrimSpace token = token \<and> token \<noteq> ''''"
proof -
  let ?hex = "\<lambda>b. [hexDigit (b div 16 mod 16), hexDigit (b mod 16)]"
  have tok: "token = hexDigit (b div 16 mod 16) # hexDigit (b mod 16) # concat (map ?hex bs)"
    using assms by (simp add: randomToken_def)
  have plain: "plain_char c" if "c \<in> set token" for c
    using that tok plain_hexDigit by auto
  have "token \<noteq> []" "hexDigit (b div 16 mod 16) \<in> set token" using tok by simp_all
  then have "plain_char (last token)" "plain_char (hexDigit (b div 16 mod 16))" using plain last_in_set by blast+
  then show ?thesis using TrimSpace_hd_last tok by simp
qed

text \<open>
  Login, then connect. A session that \<open>LoginDevice\<close> returned passes \<open>ValidateSession\<close> on the
  same data base whenever the statement runs: the answer is \<open>true\<close>, for the tenant and the user (trimmed)
  that logged in, and the session's tenants include that tenant.
\<close>

theorem login_validates:
  assumes "LoginDevice (dbStore env env') (Inr (b # bs)) db t u d dn at al = (db', Inr sess)"
    and "TrimSpace (ds_SessionID sess) \<noteq> ''''" and "fault env' 0 = None"
  shows "snd (ValidateSession (dbStore env env') db' (ds_TenantID sess) (ds_UserID sess) (ds_SessionID sess) (ds_SessionToken sess))
       = Inr True
    \<and> ds_TenantID sess = TrimSpace t \<and> ds_UserID sess = TrimSpace u \<and> TrimSpace t \<in> set (ds_AllowedTenants sess)"
proof -
  let ?st = "dbStore env env'"
  have st: "store_upsert ?st = db_upsert env" "store_validate ?st = db_validate env'"
    by (simp_all add: dbStore_def)
  obtain token dev out where "randomToken (Inr (b # bs)) = Inr token" "db_upsert env db dev = (db', Inr out)"
    "sess = out\<lparr>ds_AuthToken := TrimSpace at\<rparr>" "ds_SessionToken dev = token"
    using sess.LoginDevice_ok[OF st(1) assms(1)] by blast
  then have tok: "TrimSpace (ds_SessionToken sess) \<noteq> ''''"
    using randomToken_nonblank sess.upsert_out by fastforce
  have "\<exists>db'' r. ValidateSession ?st db' (ds_TenantID sess) (ds_UserID sess) (ds_SessionID sess) (ds_SessionToken sess) = (db'', Inr r)"
    unfolding ValidateSession_def st(2) db_validate_def exec_def sql_touchDevice_def using assms(3) by auto
  then obtain db'' r where val: "ValidateSession ?st db' (ds_TenantID sess) (ds_UserID sess) (ds_SessionID sess) (ds_SessionToken sess) = (db'', Inr r)"
    by blast
  have "r" by (rule sess.login_then_validate[OF st assms(1,2) tok val])
  then show ?thesis using val sess.login_identity[OF st(1) assms(1)] by simp
qed

lemma loginEx:
  "\<exists>db' sess. LoginDevice (dbStore sqlEx sqlEx) (Inr [255]) dbEx ''acme'' ''ada'' ''phone'' '''' ''jwt'' [] = (db', Inr sess)
     \<and> ds_SessionID sess = ''id0''"
  by (simp add: LoginDevice_def Let_def TrimSpace_eval dbStore_def db_upsert_def exec_def sqlEx_def sql_upsertDevice_def
      dbEx_def emptyDB_def hasTenant_def acmeTenant_def randomToken_def newDevice_def)

theorem login_validates_witness:
  "\<exists>db' sess. LoginDevice (dbStore sqlEx sqlEx) (Inr [255]) dbEx ''acme'' ''ada'' ''phone'' '''' ''jwt'' [] = (db', Inr sess)
     \<and> snd (ValidateSession (dbStore sqlEx sqlEx) db' (ds_TenantID sess) (ds_UserID sess) (ds_SessionID sess) (ds_SessionToken sess))
       = Inr True"
proof -
  obtain db' sess where l: "LoginDevice (dbStore sqlEx sqlEx) (Inr [255]) dbEx ''acme'' ''ada'' ''phone'' '''' ''jwt'' [] = (db', Inr sess)"
    "ds_SessionID sess = ''id0''"
    using loginEx by blast
  have "TrimSpace (ds_SessionID sess) \<noteq> ''''" "fault sqlEx 0 = None"
    using l(2) by (simp_all add: TrimSpace_eval sqlEx_def)
  from login_validates[OF l(1) this] l(1) show ?thesis by blast
qed


definition oldLogin :: deviceRow where
  "oldLogin = \<lparr>dr_session = \<lparr>ds_SessionID = ''s9'', ds_TenantID = ''acme'', ds_UserID = ''ada'', ds_DeviceID = ''phone'',
     ds_DeviceName = '''', ds_AuthToken = '''', ds_SessionToken = ''old'', ds_AllowedTenants = [], ds_LastSeenAt = 1,
     ds_CreatedAt = 1\<rparr>, dr_isActive = True, dr_updatedAt = 1\<rparr>"

lemma reloginEx:
  "\<exists>db' sess. LoginDevice (dbStore sqlEx sqlEx) (Inr [255]) (dbEx\<lparr>device_sessions := [oldLogin]\<rparr>) ''acme'' ''ada'' ''phone'' '''' ''jwt'' []
     = (db', Inr sess) \<and> ds_SessionToken sess = ''ff''"
  by (simp add: LoginDevice_def Let_def TrimSpace_eval dbStore_def db_upsert_def exec_def sqlEx_def sql_upsertDevice_def
      dbEx_def emptyDB_def hasTenant_def acmeTenant_def randomToken_def refreshDevice_def oldLogin_def deviceKey_def hexDigit_def, auto simp: deviceToken_def)


text \<open>
  C36: Only validated sessions get a web socket. If the handshake registers a client, then the
  store has just confirmed the session token for exactly the client's tenant, user and session, and the
  client is what the hub now has for this identity.
\<close>

theorem handleSessionWS_validated:
  assumes "handleSessionWS_open st s hub q upgrade now = (s', hub', Inr (c, greeting))"
  shows "store_validate st s (TenantID c) (UserID c) (SessionID c) (TrimSpace (wq_token q)) = (s', Inr True)
    \<and> TenantID c \<noteq> '''' \<and> UserID c \<noteq> '''' \<and> SessionID c \<noteq> ''''
    \<and> connected hub' c \<and> map fst greeting = [c]"
proof -
  let ?v = "ValidateSession st s (TrimSpace (wq_tenant q)) (TrimSpace (wq_user q)) (TrimSpace (wq_session q)) (TrimSpace (wq_token q))"
  obtain conn where *: "?v = (s', Inr True)" "upgrade = Inr conn" "c = wsClientOf q conn" "hub' = Register hub c"
    "map fst greeting = [c]"
    using assms by (auto simp: handleSessionWS_open_def Let_def WriteJSON_def split: prod.splits sum.splits if_splits)
  have "connected (Register hub c) c"
    by (simp add: connected_def registry_def sessionsOf_Register AList.update_conv')
  with * show ?thesis
    by (auto simp: ValidateSession_def wsClientOf_def split: if_splits)
qed

definition yesStore :: "unit sessionStore" where
  "yesStore = \<lparr>store_upsert = (\<lambda>s d. (s, Inr d)), store_validate = (\<lambda>s _ _ _ tok. (s, Inr (tok = ''tok''))),
     store_status = (\<lambda>s _. (s, Inr ())), store_note = (\<lambda>s n. (s, Inr n)), store_inbox = (\<lambda>s _ _ _. (s, Inr [])),
     store_read = (\<lambda>s _ _ _. (s, Inr ())), store_notifications = (\<lambda>s _ _ _. (s, Inr ()))\<rparr>"

definition queryEx :: wsQuery where
  "queryEx = \<lparr>wq_tenant = ''acme'', wq_user = ''ada'', wq_session = ''s1'', wq_token = ''tok''\<rparr>"

theorem handleSessionWS_validated_witness:
  "\<exists>greeting. handleSessionWS_open yesStore () NewHub queryEx (Inr 1) 0 = ((), Register NewHub ada, Inr (ada, greeting))
     \<and> store_validate yesStore () ''acme'' ''ada'' ''s1'' (TrimSpace (wq_token queryEx)) = ((), Inr True)
     \<and> connected (Register NewHub ada) ada"
proof -
  obtain g where g: "handleSessionWS_open yesStore () NewHub queryEx (Inr 1) 0 = ((), Register NewHub ada, Inr (ada, g))"
    by (simp add: handleSessionWS_open_def Let_def queryEx_def TrimSpace_eval ValidateSession_def yesStore_def wsClientOf_def ada_def)
  from handleSessionWS_validated[OF g] g show ?thesis
    by (intro exI[of _ g]) (simp add: ada_def)
qed

section \<open>Notes reach their recipients\<close>

definition typePair :: "NoteRecipient \<Rightarrow> string \<times> string" where
  "typePair rc = (nr_UserID rc, nr_Type rc)"

lemma recipientTypes_lookup:
  "map_of (recipientTypes m rcs) u = (case map_of m u of Some t \<Rightarrow> Some t | None \<Rightarrow> map_of (map typePair rcs) u)"
proof (induction rcs arbitrary: m)
  case (Cons rc rcs)
  then show ?case
    by (auto simp: typePair_def[of rc] map_add_def split: option.splits)
qed (simp split: option.splits)

lemma recipientTypes_users: "set (map fst (recipientTypes m rcs)) = set (map fst m) \<union> set (map nr_UserID rcs)"
proof (induction rcs arbitrary: m)
  case (Cons rc rcs)
  have "map_of m (nr_UserID rc) \<noteq> None \<longleftrightarrow> nr_UserID rc \<in> set (map fst m)"
    by (metis list.set_map map_of_eq_None_iff)
  then show ?case using Cons by auto
qed simp

definition recipientSet :: "NoteCreateInput \<Rightarrow> string set" where
  "recipientSet input = set (dedupeAndTrim (ni_To input)) \<union> set (dedupeAndTrim (ni_CC input)) \<union> set (dedupeAndTrim (ni_BCC input))"

lemma users_noteRecipients: "set (map nr_UserID (noteRecipients input)) = recipientSet input"
  by (auto simp: noteRecipients_def recipientSet_def)

definition typeOf :: "NoteCreateInput \<Rightarrow> string \<Rightarrow> string" where
  "typeOf input u = (if u \<in> set (dedupeAndTrim (ni_To input)) then ''to''
     else if u \<in> set (dedupeAndTrim (ni_CC input)) then ''cc'' else ''bcc'')"

lemma map_of_const: "map_of (map (\<lambda>u. (u, v)) us) u = (if u \<in> set us then Some v else None)"
  by (induction us) auto

lemma type_noteRecipients:
  "u \<in> recipientSet input \<Longrightarrow> map_of (map typePair (noteRecipients input)) u = Some (typeOf input u)"
  by (auto simp: noteRecipients_def typePair_def comp_def map_of_const recipientSet_def typeOf_def map_add_def
      split: option.splits)

text \<open>
  C37: A note that the store accepted is announced. With Redis up, \<open>SendNote\<close> publishes one event, and every hub
  of the cluster that consumes it writes one \<open>note.received\<close> message to each connected client of each recipient
  (trimmed, blank entries dropped) of the tenant and to nobody else; the message carries the
  stored note's id and the recipient's own type, \<open>to\<close> before \<open>cc\<close> before \<open>bcc\<close>.
\<close>

theorem SendNote_announced:
  assumes "hasRedis hub" and "SendNote st hub None s t sender input = (s', Inr note, d)"
    and "no_Recipients note = noteRecipients input"
    and "hub_reach g" and "plainTenants g" and "plain t"
  shows "\<exists>ev. d = Some (Published ev) \<and> distinct (consumeEvent g (Some ev))
    \<and> fst ` set (consumeEvent g (Some ev)) = {c. connected g c \<and> TenantID c = t \<and> UserID c \<in> recipientSet input}
    \<and> (\<forall>(c, j) \<in> set (consumeEvent g (Some ev)). jget ''note_id'' j = Some (JStr (no_NoteID note))
          \<and> jget ''recipient_type'' j = Some (JStr (typeOf input (UserID c))))"
proof -
  let ?types = "recipientTypes [] (noteRecipients input)"
  let ?build = "noteReceived note t sender ?types"
  have d: "d = Some (NotifyUsers hub None t (map fst ?types) ?build)"
    using assms(2,3) by (auto simp: SendNote_def Let_def split: if_splits prod.splits sum.splits)
  have users: "set (map fst ?types) = recipientSet input"
    by (simp only: recipientTypes_users users_noteRecipients) simp
  have "\<forall>u \<in> set (map fst ?types). \<exists>j. ?build u = Inr j" by (simp add: noteReceived_def)
  from cluster_delivery[OF assms(1) this assms(4-6)] obtain ev where
    ev: "NotifyUsers hub None t (map fst ?types) ?build = Published ev" "distinct (consumeEvent g (Some ev))"
      "set (consumeEvent g (Some ev)) = {(c, j). connected g c \<and> TenantID c = t \<and> UserID c \<in> recipientSet input \<and> ?build (UserID c) = Inr j}"
    unfolding users by blast
  have who: "fst ` set (consumeEvent g (Some ev)) = {c. connected g c \<and> TenantID c = t \<and> UserID c \<in> recipientSet input}"
    unfolding ev(3) by (force simp: noteReceived_def)
  have what: "\<forall>(c, j) \<in> set (consumeEvent g (Some ev)). jget ''note_id'' j = Some (JStr (no_NoteID note))
          \<and> jget ''recipient_type'' j = Some (JStr (typeOf input (UserID c)))"
    unfolding ev(3) by (auto simp: noteReceived_def recipientTypes_lookup type_noteRecipients)
  show ?thesis using d ev(1,2) who what by auto
qed

definition inputEx :: NoteCreateInput where
  "inputEx = \<lparr>ni_Title = ''hi'', ni_Body = '''', ni_To = [''ada''], ni_CC = [], ni_BCC = [], ni_Files = []\<rparr>"

theorem SendNote_announced_witness:
  "\<exists>note d ev. SendNote yesStore (UseRedis NewHub True) None () ''acme'' ''bob'' inputEx = ((), Inr note, d)
     \<and> d = Some (Published ev)
     \<and> fst ` set (consumeEvent demoHub (Some ev)) = {c. connected demoHub c \<and> TenantID c = ''acme'' \<and> UserID c \<in> recipientSet inputEx}"
proof -
  obtain n0 d where n: "SendNote yesStore (UseRedis NewHub True) None () ''acme'' ''bob'' inputEx = ((), Inr n0, d)"
      "no_Recipients n0 = noteRecipients inputEx"
    by (simp add: SendNote_def Let_def inputEx_def TrimSpace_eval yesStore_def)
  have "hasRedis (UseRedis NewHub True)" "plain ''acme''" by (simp_all add: UseRedis_def plain_def)
  from SendNote_announced[OF this(1) n demoHub_reach demoHub_plain this(2)] n(1) show ?thesis by blast
qed

text \<open>
  Status changes are validated, stored, then broadcast. \<open>UpdateStatus\<close> accepts exactly the
  five statuses in any case and with surrounding blanks, stores the normalised one, and tells the
  hub only after the store has succeeded.
\<close>

theorem UpdateStatus_spec:
  "UpdateStatus st hub pubErr now s t u raw note =
     (let status = ToLower (TrimSpace raw) in
      if status = '''' then (s, Inl ''status is required'', None)
      else if TrimSpace status \<notin> {''online'', ''offline'', ''busy'', ''away'', ''meeting''}
      then (s, Inl ''status must be one of online|offline|busy|away|meeting'', None)
      else let (s', res) = store_status st s \<lparr>st_TenantID = t, st_UserID = u, st_Status = status,
                  st_StatusNote = TrimSpace note, st_UpdatedAt = now\<rparr> in
        (s', res, if is_ok res then Some (BroadcastTenant hub pubErr t
            (Inr (JObj [(''type'', JStr ''status.changed''), (''tenant_id'', JStr t), (''user_id'', JStr u),
              (''status'', JStr status), (''status_note'', JStr (TrimSpace note)), (''updated_at'', jtime now)])))
           else None))"
  by (auto simp: UpdateStatus_def Let_def TrimSpace_eval split: prod.splits sum.splits)

end
