(* ===== verification/ChatRepo.thy ===== *)
theory ChatRepo
  imports Database
begin

text \<open>
  \<open>ChatRepository\<close> of the data base server (\<open>server/dbman/repository/chat_repository.go\<close>) and the
  limits of \<open>server/dbman/service/chat_service.go\<close>, over the tables of \<open>migrations/001\<close>, \<open>003\<close>
  and \<open>008\<close>. PostgreSQL's own text functions (full-text match, regular expressions, \<open>lower\<close>,
  \<open>LEFT\<close>) are arguments, collected in the record \<open>pgText\<close>.
\<close>

record pgText =
  pgMatch :: "string \<Rightarrow> string \<Rightarrow> bool"
  pgMentions :: "string \<Rightarrow> string list"
  pgLower :: "string \<Rightarrow> string"
  pgLeft120 :: "string \<Rightarrow> string"
  pgBeforeAt :: "string \<Rightarrow> string"

section \<open>Rooms and members\<close>

definition sql_insertRoom :: "sqlEnv \<Rightarrow> string \<Rightarrow> ChatRoom \<Rightarrow> string stmt" where
  "sql_insertRoom env t room db =
     (if genUUID env 0 \<in> set (map cr_ID (chat_rooms db)) then (db, Inl err_unique)
      else if \<not> hasTenant db t \<or> \<not> hasUser db (cr_CreatedBy room) then (db, Inl err_fk)
      else (db\<lparr>chat_rooms := chat_rooms db @ [\<lparr>cr_TenantID = t, cr_ID = genUUID env 0, cr_Name = cr_Name room,
               cr_RoomType = cr_RoomType room, cr_CreatedBy = cr_CreatedBy room, cr_CreatedAt = sqlNow env\<rparr>]\<rparr>,
            Inr (genUUID env 0)))"

text \<open>\<open>INSERT INTO room_members ... ON CONFLICT DO NOTHING\<close>\<close>

definition sql_insertMember :: "sqlEnv \<Rightarrow> string \<Rightarrow> string \<Rightarrow> string \<Rightarrow> unit stmt" where
  "sql_insertMember env t roomID userID db =
     (if (roomID, userID) \<in> set (map (\<lambda>m. (me_RoomID m, me_UserID m)) (room_members db)) then (db, Inr ())
      else if \<not> hasTenant db t \<or> \<not> hasRoom db roomID \<or> \<not> hasUser db userID then (db, Inl err_fk)
      else (db\<lparr>room_members := room_members db @ [\<lparr>me_TenantID = t, me_RoomID = roomID, me_UserID = userID,
               me_JoinedAt = sqlNow env\<rparr>]\<rparr>, Inr ()))"

definition roomBody :: "sqlEnv \<Rightarrow> string \<Rightarrow> ChatRoom \<Rightarrow> string list \<Rightarrow> string stmt" where
  "roomBody env t room memberIDs =
     seqS (exec env 1 (sql_insertRoom env t room)) (\<lambda>roomID.
     seqS (forEach (\<lambda>u k. exec env k (sql_insertMember env t roomID u)) 2 memberIDs) (\<lambda>_.
     seqS (exec env (2 + length memberIDs) (sql_insertMember env t roomID (cr_CreatedBy room))) (\<lambda>_ db.
       (db, Inr roomID))))"

definition CreateRoom ::
  "'p Repo \<Rightarrow> 'p dbEnv \<Rightarrow> sqlEnv \<Rightarrow> string \<Rightarrow> ChatRoom \<Rightarrow> string list \<Rightarrow> 'p Repo \<times> string result" where
  "CreateRoom r penv env t room memberIDs =
     withPool r penv t (inTx env (3 + length memberIDs) (roomBody env t room memberIDs))"

definition AddMember ::
  "'p Repo \<Rightarrow> 'p dbEnv \<Rightarrow> sqlEnv \<Rightarrow> string \<Rightarrow> string \<Rightarrow> string \<Rightarrow> 'p Repo \<times> unit result" where
  "AddMember r penv env t roomID userID = withPool r penv t (exec env 0 (sql_insertMember env t roomID userID))"

definition isMember :: "string \<Rightarrow> string \<Rightarrow> string \<Rightarrow> Database \<Rightarrow> bool" where
  "isMember t roomID userID db \<longleftrightarrow>
     list_ex (\<lambda>m. me_TenantID m = t \<and> me_RoomID m = roomID \<and> me_UserID m = userID) (room_members db)"

definition IsRoomMember ::
  "'p Repo \<Rightarrow> 'p dbEnv \<Rightarrow> sqlEnv \<Rightarrow> string \<Rightarrow> string \<Rightarrow> string \<Rightarrow> 'p Repo \<times> bool result" where
  "IsRoomMember r penv env t roomID userID =
     withPool r penv t (exec env 0 (\<lambda>db. (db, Inr (isMember t roomID userID db))))"

section \<open>Messages\<close>

definition sql_insertMessage :: "sqlEnv \<Rightarrow> Message \<Rightarrow> Message stmt" where
  "sql_insertMessage env m db =
     (if (case ms_MetaJSON m of Text _ \<Rightarrow> False | _ \<Rightarrow> True) then (db, Inl err_json)
      else if genUUID env 0 \<in> set (map ms_ID (messages db)) then (db, Inl err_unique)
      else if \<not> hasTenant db (ms_TenantID m) \<or> \<not> hasRoom db (ms_RoomID m) \<or> \<not> hasUser db (ms_SenderID m)
      then (db, Inl err_fk)
      else let m' = m\<lparr>ms_ID := genUUID env 0, ms_CreatedAt := sqlNow env\<rparr> in
        (db\<lparr>messages := messages db @ [m']\<rparr>, Inr m'))"

definition CreateMessage ::
  "'p Repo \<Rightarrow> 'p dbEnv \<Rightarrow> sqlEnv \<Rightarrow> Message \<Rightarrow> 'p Repo \<times> Message result" where
  "CreateMessage r penv env m = withPool r penv (ms_TenantID m) (exec env 0 (sql_insertMessage env m))"

text \<open>Scanning a row leaves the tenant id of the struct empty.\<close>

definition scanMessage :: "Message \<Rightarrow> Message" where
  "scanMessage m = m\<lparr>ms_TenantID := ''''\<rparr>"

definition beforeID :: "string option \<Rightarrow> string \<Rightarrow> bool" where
  "beforeID cursor i = (case cursor of None \<Rightarrow> True | Some c \<Rightarrow> i < c)"

definition sql_listMessages :: "string \<Rightarrow> string \<Rightarrow> int \<Rightarrow> string option \<Rightarrow> Message list stmt" where
  "sql_listMessages t roomID limit cursorID db =
     (db, map_sum id (map scanMessage) (limited limit (orderDesc ms_ID
        (filter (\<lambda>m. ms_TenantID m = t \<and> ms_RoomID m = roomID \<and> beforeID cursorID (ms_ID m)) (messages db)))))"

definition ListMessages ::
  "'p Repo \<Rightarrow> 'p dbEnv \<Rightarrow> sqlEnv \<Rightarrow> string \<Rightarrow> string \<Rightarrow> int \<Rightarrow> string option \<Rightarrow> 'p Repo \<times> Message list result" where
  "ListMessages r penv env t roomID limit cursorID =
     withPool r penv t (exec env 0 (sql_listMessages t roomID limit cursorID))"

definition sql_searchMessages ::
  "pgText \<Rightarrow> string \<Rightarrow> string \<Rightarrow> string option \<Rightarrow> int \<Rightarrow> string option \<Rightarrow> Message list stmt" where
  "sql_searchMessages pg t q roomID limit cursorID db =
     (db, map_sum id (map scanMessage) (limited limit (orderDesc ms_ID
        (filter (\<lambda>m. ms_TenantID m = t \<and> pgMatch pg q (ms_Body m)
            \<and> (case roomID of None \<Rightarrow> True | Some rid \<Rightarrow> ms_RoomID m = rid) \<and> beforeID cursorID (ms_ID m)) (messages db)))))"

definition SearchMessages ::
  "'p Repo \<Rightarrow> 'p dbEnv \<Rightarrow> sqlEnv \<Rightarrow> pgText \<Rightarrow> string \<Rightarrow> string \<Rightarrow> string option \<Rightarrow> int \<Rightarrow> string option
   \<Rightarrow> 'p Repo \<times> Message list result" where
  "SearchMessages r penv env pg t q roomID limit cursorID =
     withPool r penv t (exec env 0 (sql_searchMessages pg t q roomID limit cursorID))"

section \<open>Read state\<close>

definition messageKey :: "Message \<Rightarrow> time \<times> string" where
  "messageKey m = (ms_CreatedAt m, ms_ID m)"

definition upTo :: "string \<Rightarrow> string \<Rightarrow> string \<Rightarrow> Database \<Rightarrow> Message list" where
  "upTo t roomID messageID db =
     (case find (\<lambda>m. ms_TenantID m = t \<and> ms_ID m = messageID \<and> ms_RoomID m = roomID) (messages db) of
        None \<Rightarrow> []
      | Some m2 \<Rightarrow> filter (\<lambda>m. ms_TenantID m = t \<and> ms_RoomID m = roomID \<and> messageKey m \<le> messageKey m2) (messages db))"

definition upsertRead :: "sqlEnv \<Rightarrow> string \<Rightarrow> MessageRead list \<Rightarrow> Message \<Rightarrow> MessageRead list" where
  "upsertRead env userID reads m =
     (if list_ex (\<lambda>x. mr_MessageID x = ms_ID m \<and> mr_UserID x = userID) reads
      then map (\<lambda>x. if mr_MessageID x = ms_ID m \<and> mr_UserID x = userID then x\<lparr>mr_ReadAt := sqlNow env\<rparr> else x) reads
      else reads @ [\<lparr>mr_TenantID = ms_TenantID m, mr_RoomID = ms_RoomID m, mr_MessageID = ms_ID m, mr_UserID = userID,
                     mr_ReadAt = sqlNow env\<rparr>])"

definition sql_markRead :: "sqlEnv \<Rightarrow> string \<Rightarrow> string \<Rightarrow> string \<Rightarrow> string \<Rightarrow> unit stmt" where
  "sql_markRead env t roomID userID messageID db =
     (let rows = upTo t roomID messageID db in
      if rows = [] then (db, Inl ''no messages marked as read'')
      else if \<not> hasUser db userID then (db, Inl err_fk)
      else (db\<lparr>message_reads := foldl (upsertRead env userID) (message_reads db) rows\<rparr>, Inr ()))"

definition MarkReadUpTo ::
  "'p Repo \<Rightarrow> 'p dbEnv \<Rightarrow> sqlEnv \<Rightarrow> string \<Rightarrow> string \<Rightarrow> string \<Rightarrow> string \<Rightarrow> 'p Repo \<times> unit result" where
  "MarkReadUpTo r penv env t roomID userID messageID =
     withPool r penv t (exec env 0 (sql_markRead env t roomID userID messageID))"

definition sql_readers :: "string \<Rightarrow> string \<Rightarrow> string \<Rightarrow> MessageRead list stmt" where
  "sql_readers t roomID messageID db =
     (db, Inr (map (\<lambda>x. x\<lparr>mr_TenantID := ''''\<rparr>) (sort_key mr_ReadAt
        (filter (\<lambda>x. mr_TenantID x = t \<and> mr_RoomID x = roomID \<and> mr_MessageID x = messageID) (message_reads db)))))"

definition GetMessageReaders ::
  "'p Repo \<Rightarrow> 'p dbEnv \<Rightarrow> sqlEnv \<Rightarrow> string \<Rightarrow> string \<Rightarrow> string \<Rightarrow> 'p Repo \<times> MessageRead list result" where
  "GetMessageReaders r penv env t roomID messageID = withPool r penv t (exec env 0 (sql_readers t roomID messageID))"

definition readsOf :: "string \<Rightarrow> string \<Rightarrow> string \<Rightarrow> Database \<Rightarrow> MessageRead list" where
  "readsOf t roomID userID db =
     filter (\<lambda>x. mr_TenantID x = t \<and> mr_RoomID x = roomID \<and> mr_UserID x = userID) (message_reads db)"

definition sql_lastRead :: "string \<Rightarrow> string \<Rightarrow> string \<Rightarrow> string stmt" where
  "sql_lastRead t roomID userID db =
     (db, Inr (case orderDesc (\<lambda>x. (mr_ReadAt x, mr_MessageID x)) (readsOf t roomID userID db) of
                 [] \<Rightarrow> '''' | x # _ \<Rightarrow> mr_MessageID x))"

definition GetLastReadMessageID ::
  "'p Repo \<Rightarrow> 'p dbEnv \<Rightarrow> sqlEnv \<Rightarrow> string \<Rightarrow> string \<Rightarrow> string \<Rightarrow> 'p Repo \<times> string result" where
  "GetLastReadMessageID r penv env t roomID userID = withPool r penv t (exec env 0 (sql_lastRead t roomID userID))"

text \<open>\<open>COALESCE(MAX(read_at), 'epoch')\<close>\<close>

definition readHorizon :: "string \<Rightarrow> string \<Rightarrow> string \<Rightarrow> Database \<Rightarrow> time" where
  "readHorizon t roomID userID db =
     (case map mr_ReadAt (readsOf t roomID userID db) of [] \<Rightarrow> 0 | x # xs \<Rightarrow> fold max xs x)"

definition unreadCount :: "string \<Rightarrow> string \<Rightarrow> string \<Rightarrow> Database \<Rightarrow> nat" where
  "unreadCount t roomID userID db =
     length (filter (\<lambda>m. ms_TenantID m = t \<and> ms_RoomID m = roomID \<and> ms_SenderID m \<noteq> userID
        \<and> readHorizon t roomID userID db < ms_CreatedAt m) (messages db))"

definition GetUnreadCount ::
  "'p Repo \<Rightarrow> 'p dbEnv \<Rightarrow> sqlEnv \<Rightarrow> string \<Rightarrow> string \<Rightarrow> string \<Rightarrow> 'p Repo \<times> nat result" where
  "GetUnreadCount r penv env t roomID userID =
     withPool r penv t (exec env 0 (\<lambda>db. (db, Inr (unreadCount t roomID userID db))))"

definition sql_unreadCounts :: "string \<Rightarrow> string \<Rightarrow> RoomUnread list stmt" where
  "sql_unreadCounts t userID db =
     (db, Inr (map (\<lambda>m. \<lparr>ru_RoomID = me_RoomID m, ru_UnreadCount = unreadCount t (me_RoomID m) userID db\<rparr>)
        (sort_key me_RoomID (filter (\<lambda>m. me_TenantID m = t \<and> me_UserID m = userID) (room_members db)))))"

definition GetUnreadCounts ::
  "'p Repo \<Rightarrow> 'p dbEnv \<Rightarrow> sqlEnv \<Rightarrow> string \<Rightarrow> string \<Rightarrow> 'p Repo \<times> RoomUnread list result" where
  "GetUnreadCounts r penv env t userID = withPool r penv t (exec env 0 (sql_unreadCounts t userID))"

section \<open>Room list\<close>

record ChatRoomSummary =
  su_RoomID :: string
  su_Name :: string
  su_RoomType :: string
  su_CreatedBy :: string
  su_CreatedAt :: time
  su_PeerUserID :: "string option"
  su_PeerName :: "string option"
  su_PeerStatus :: "string option"
  su_PeerStatusNote :: "string option"
  su_LatestMessageID :: "string option"
  su_LatestMessageBody :: "string option"
  su_LatestMessageKind :: "string option"
  su_LatestMessageSummary :: "string option"
  su_LatestMessageMentionTokens :: "string list"
  su_LatestMessageIsMentioned :: bool
  su_LatestMessageAt :: "time option"
  su_LatestMessageSender :: "string option"
  su_UnreadCount :: nat

definition nonEmptyArray :: "json option \<Rightarrow> bool" where
  "nonEmptyArray j = (case j of Some (JArr xs) \<Rightarrow> xs \<noteq> [] | _ \<Rightarrow> False)"

text \<open>\<open>COALESCE(meta->>'file_id', '') <> ''\<close> for the values that occur: strings, JSON null and absent keys; any other value has non-empty text.\<close>

definition nonEmptyText :: "json option \<Rightarrow> bool" where
  "nonEmptyText j = (case j of None \<Rightarrow> False | Some JNull \<Rightarrow> False | Some (JStr s) \<Rightarrow> s \<noteq> '''' | Some _ \<Rightarrow> True)"

definition hasFile :: "Message \<Rightarrow> bool" where
  "hasFile m = (case ms_MetaJSON m of
       Text meta \<Rightarrow> nonEmptyText (jget ''file_id'' meta) \<or> nonEmptyArray (jget ''file_ids'' meta)
     | _ \<Rightarrow> False)"

definition hasEmoji :: "Message \<Rightarrow> bool" where
  "hasEmoji m = (case ms_MetaJSON m of Text meta \<Rightarrow> nonEmptyArray (jget ''emojis'' meta) | _ \<Rightarrow> False)"

definition messageKind :: "Message option \<Rightarrow> string" where
  "messageKind lm = (case lm of None \<Rightarrow> ''text''
     | Some m \<Rightarrow> if hasFile m then ''file'' else if hasEmoji m then ''emoji'' else ''text'')"

text \<open>The labels are the UTF-8 bytes of the Korean words for file and emoji in brackets.\<close>

definition fileLabel :: string where
  "fileLabel = [CHR 0x5B, CHR 0xED, CHR 0x8C, CHR 0x8C, CHR 0xEC, CHR 0x9D, CHR 0xBC, CHR 0x5D]"

definition emojiLabel :: string where
  "emojiLabel = [CHR 0x5B, CHR 0xEC, CHR 0x9D, CHR 0xB4, CHR 0xEB, CHR 0xAA, CHR 0xA8, CHR 0xEC, CHR 0xA7, CHR 0x80, CHR 0x5D]"

definition messageSummary :: "pgText \<Rightarrow> Message option \<Rightarrow> string" where
  "messageSummary pg lm = (case lm of None \<Rightarrow> ''''
     | Some m \<Rightarrow> if hasFile m then fileLabel
         else if hasEmoji m \<and> ms_Body m = '''' then emojiLabel
         else if ms_Body m = '''' then '''' else pgLeft120 pg (ms_Body m))"

definition mentioned :: "pgText \<Rightarrow> User \<Rightarrow> string list \<Rightarrow> Message \<Rightarrow> bool" where
  "mentioned pg me aliases m =
     list_ex (\<lambda>tok. pgLower pg tok = pgLower pg (us_Name me) \<or> pgLower pg tok = pgLower pg (pgBeforeAt pg (us_Email me))
        \<or> pgLower pg tok \<in> set aliases) (pgMentions pg (ms_Body m))"

definition latestMessage :: "string \<Rightarrow> string \<Rightarrow> Database \<Rightarrow> Message option" where
  "latestMessage t roomID db =
     (case orderDesc ms_ID (filter (\<lambda>m. ms_TenantID m = t \<and> ms_RoomID m = roomID) (messages db)) of
        [] \<Rightarrow> None | m # _ \<Rightarrow> Some m)"

definition peerOf :: "string \<Rightarrow> string \<Rightarrow> string \<Rightarrow> Database \<Rightarrow> User option" where
  "peerOf t roomID userID db =
     (case [u. m \<leftarrow> sort_key me_JoinedAt (filter (\<lambda>m. me_TenantID m = t \<and> me_RoomID m = roomID \<and> me_UserID m \<noteq> userID) (room_members db)),
               u \<leftarrow> filter (\<lambda>u. us_TenantID u = t \<and> us_ID u = me_UserID m) (users db)] of
        [] \<Rightarrow> None | u # _ \<Rightarrow> Some u)"

definition summaryOf :: "pgText \<Rightarrow> string \<Rightarrow> User \<Rightarrow> ChatRoom \<Rightarrow> Database \<Rightarrow> ChatRoomSummary" where
  "summaryOf pg t me cr db =
     (let lm = latestMessage t (cr_ID cr) db;
          pu = (if cr_RoomType cr = ''direct'' then peerOf t (cr_ID cr) (us_ID me) db else None);
          aliases = map (\<lambda>a. pgLower pg (al_Alias a)) (filter (\<lambda>a. al_TenantID a = t \<and> al_UserID a = us_ID me) (user_aliases db)) in
      \<lparr>su_RoomID = cr_ID cr, su_Name = cr_Name cr, su_RoomType = cr_RoomType cr, su_CreatedBy = cr_CreatedBy cr,
       su_CreatedAt = cr_CreatedAt cr, su_PeerUserID = map_option us_ID pu, su_PeerName = map_option us_Name pu,
       su_PeerStatus = map_option us_Status pu, su_PeerStatusNote = map_option us_StatusNote pu,
       su_LatestMessageID = map_option ms_ID lm, su_LatestMessageBody = map_option ms_Body lm,
       su_LatestMessageKind = Some (messageKind lm), su_LatestMessageSummary = Some (messageSummary pg lm),
       su_LatestMessageMentionTokens = (case lm of None \<Rightarrow> [] | Some m \<Rightarrow> remdups (pgMentions pg (ms_Body m))),
       su_LatestMessageIsMentioned = (case lm of None \<Rightarrow> False | Some m \<Rightarrow> mentioned pg me aliases m),
       su_LatestMessageAt = map_option ms_CreatedAt lm, su_LatestMessageSender = map_option ms_SenderID lm,
       su_UnreadCount = unreadCount t (cr_ID cr) (us_ID me) db\<rparr>)"

definition activityKey :: "ChatRoomSummary \<Rightarrow> time \<times> string" where
  "activityKey s = ((case su_LatestMessageAt s of None \<Rightarrow> su_CreatedAt s | Some at \<Rightarrow> at), su_RoomID s)"

definition myRooms :: "pgText \<Rightarrow> string \<Rightarrow> string \<Rightarrow> Database \<Rightarrow> ChatRoomSummary list" where
  "myRooms pg t userID db =
     [summaryOf pg t me cr db.
      rm \<leftarrow> filter (\<lambda>m. me_TenantID m = t \<and> me_UserID m = userID) (room_members db),
      cr \<leftarrow> filter (\<lambda>c. cr_TenantID c = t \<and> cr_ID c = me_RoomID rm) (chat_rooms db),
      me \<leftarrow> filter (\<lambda>u. us_TenantID u = t \<and> us_ID u = userID) (users db)]"

definition beforeRoom :: "(time \<times> string) option \<Rightarrow> ChatRoomSummary \<Rightarrow> bool" where
  "beforeRoom cursor s = (case cursor of None \<Rightarrow> True
     | Some (at, rid) \<Rightarrow> fst (activityKey s) < at \<or> fst (activityKey s) = at \<and> su_RoomID s < rid)"

definition sql_listRooms :: "pgText \<Rightarrow> string \<Rightarrow> string \<Rightarrow> int \<Rightarrow> (time \<times> string) option \<Rightarrow> ChatRoomSummary list stmt" where
  "sql_listRooms pg t userID limit cursor db =
     (db, limited limit (orderDesc activityKey (filter (beforeRoom cursor) (myRooms pg t userID db))))"

text \<open>The cursor is used only if both of its parts are given.\<close>

definition ListMyRooms ::
  "'p Repo \<Rightarrow> 'p dbEnv \<Rightarrow> sqlEnv \<Rightarrow> pgText \<Rightarrow> string \<Rightarrow> string \<Rightarrow> int \<Rightarrow> time option \<Rightarrow> string option
   \<Rightarrow> 'p Repo \<times> ChatRoomSummary list result" where
  "ListMyRooms r penv env pg t userID limit cursorCreatedAt cursorRoomID =
     withPool r penv t (exec env 0 (sql_listRooms pg t userID limit
       (case (cursorCreatedAt, cursorRoomID) of (Some at, Some rid) \<Rightarrow> Some (at, rid) | _ \<Rightarrow> None)))"

section \<open>The limits of the data base server\<close>

definition svc_ListMessages ::
  "'p Repo \<Rightarrow> 'p dbEnv \<Rightarrow> sqlEnv \<Rightarrow> string \<Rightarrow> string \<Rightarrow> int \<Rightarrow> string option \<Rightarrow> 'p Repo \<times> Message list result" where
  "svc_ListMessages r penv env t roomID limit cursorID =
     ListMessages r penv env t roomID (clampLimit 200 50 limit) cursorID"

definition svc_SearchMessages ::
  "'p Repo \<Rightarrow> 'p dbEnv \<Rightarrow> sqlEnv \<Rightarrow> pgText \<Rightarrow> string \<Rightarrow> string \<Rightarrow> string option \<Rightarrow> int \<Rightarrow> string option
   \<Rightarrow> 'p Repo \<times> Message list result" where
  "svc_SearchMessages r penv env pg t q roomID limit cursorID =
     SearchMessages r penv env pg t q roomID (clampLimit 200 30 limit) cursorID"

definition svc_ListMyRooms ::
  "'p Repo \<Rightarrow> 'p dbEnv \<Rightarrow> sqlEnv \<Rightarrow> pgText \<Rightarrow> string \<Rightarrow> string \<Rightarrow> int \<Rightarrow> time option \<Rightarrow> string option
   \<Rightarrow> 'p Repo \<times> ChatRoomSummary list result" where
  "svc_ListMyRooms r penv env pg t userID limit cursorCreatedAt cursorRoomID =
     ListMyRooms r penv env pg t userID (clampLimit 200 50 limit) cursorCreatedAt cursorRoomID"

section \<open>Membership\<close>

definition memberSet :: "Database \<Rightarrow> (string \<times> string \<times> string) set" where
  "memberSet db = set (map (\<lambda>m. (me_TenantID m, me_RoomID m, me_UserID m)) (room_members db))"

lemma isMember_iff: "isMember t r u db \<longleftrightarrow> (t, r, u) \<in> memberSet db"
  by (auto simp: isMember_def memberSet_def list_ex_iff)

lemma insertMember_ok:
  assumes "sql_insertMember env t r u db = (db', Inr ())"
    and "\<forall>t' u'. (t', r, u') \<in> memberSet db \<longrightarrow> t' = t"
  shows "memberSet db' = insert (t, r, u) (memberSet db) \<and> chat_rooms db' = chat_rooms db"
proof (cases "(r, u) \<in> set (map (\<lambda>m. (me_RoomID m, me_UserID m)) (room_members db))")
  case True
  then obtain m where m: "m \<in> set (room_members db)" "me_RoomID m = r" "me_UserID m = u" by auto
  then have "(me_TenantID m, r, u) \<in> memberSet db" by (auto simp: memberSet_def)
  then have "(t, r, u) \<in> memberSet db" using assms(2) by metis
  then show ?thesis using assms(1) True by (auto simp: sql_insertMember_def)
next
  case False
  then show ?thesis using assms(1) by (auto simp: sql_insertMember_def memberSet_def split: if_splits)
qed

lemma insertMembers_ok:
  assumes "forEach (\<lambda>u k. exec env k (sql_insertMember env t r u)) k us db = (db', Inr ())"
    and "\<forall>t' u'. (t', r, u') \<in> memberSet db \<longrightarrow> t' = t"
  shows "memberSet db' = memberSet db \<union> {(t, r, u) | u. u \<in> set us}"
  using assms
proof (induction us arbitrary: k db)
  case (Cons u us)
  obtain db1 where db1: "exec env k (sql_insertMember env t r u) db = (db1, Inr ())"
      "forEach (\<lambda>u k. exec env k (sql_insertMember env t r u)) (Suc k) us db1 = (db', Inr ())"
    using Cons.prems(1) by (auto split: prod.splits sum.splits)
  have "memberSet db1 = insert (t, r, u) (memberSet db)"
    using insertMember_ok[of env t r u db db1] db1(1) Cons.prems(2) by (simp add: exec_ok)
  moreover from this have "\<forall>t' u'. (t', r, u') \<in> memberSet db1 \<longrightarrow> t' = t" using Cons.prems(2) by auto
  ultimately show ?case using Cons.IH[OF db1(2)] by auto
qed auto

text \<open>The foreign key from members to rooms.\<close>

definition member_fk :: "Database \<Rightarrow> bool" where
  "member_fk db \<longleftrightarrow> (\<forall>m \<in> set (room_members db). hasRoom db (me_RoomID m))"

lemma roomBody_ok:
  assumes "member_fk db" "roomBody env t room us db = (db', Inr rid)"
  shows "\<not> hasRoom db rid \<and> memberSet db' = memberSet db \<union> {(t, rid, u) | u. u \<in> set us \<or> u = cr_CreatedBy room}"
proof -
  obtain db1 db2 where s: "exec env 1 (sql_insertRoom env t room) db = (db1, Inr rid)"
    "forEach (\<lambda>u k. exec env k (sql_insertMember env t rid u)) 2 us db1 = (db2, Inr ())"
    "exec env (2 + length us) (sql_insertMember env t rid (cr_CreatedBy room)) db2 = (db', Inr ())"
    using assms(2) unfolding roomBody_def by (auto simp: seqS_ok)
  have fresh: "\<not> hasRoom db rid" and same: "memberSet db1 = memberSet db"
    using s(1) by (auto simp: exec_ok sql_insertRoom_def hasRoom_def memberSet_def split: if_splits)
  have none: "(t', rid, u) \<notin> memberSet db" for t' u
    using assms(1) fresh by (auto simp: memberSet_def member_fk_def)
  have m2: "memberSet db2 = memberSet db \<union> {(t, rid, u) | u. u \<in> set us}"
    using insertMembers_ok[OF s(2)] same none by simp
  have "\<forall>t' u'. (t', rid, u') \<in> memberSet db2 \<longrightarrow> t' = t" unfolding m2 using none by blast
  then have "memberSet db' = insert (t, rid, cr_CreatedBy room) (memberSet db2)"
    using insertMember_ok[of env t rid "cr_CreatedBy room" db2 db'] s(3) by (simp add: exec_ok)
  then show ?thesis using fresh m2 by auto
qed

section \<open>Read marks\<close>

text \<open>
  The constraints on messages and read marks: message ids are unique, a mark belongs to a message and carries its
  tenant and room, and there is one mark per message and user.
\<close>

definition readKey :: "MessageRead \<Rightarrow> string \<times> string \<times> string \<times> string" where
  "readKey x = (mr_TenantID x, mr_RoomID x, mr_MessageID x, mr_UserID x)"

definition markKey :: "Message \<Rightarrow> string \<Rightarrow> string \<times> string \<times> string \<times> string" where
  "markKey m u = (ms_TenantID m, ms_RoomID m, ms_ID m, u)"

definition hasRead :: "MessageRead list \<Rightarrow> Message \<Rightarrow> string \<Rightarrow> bool" where
  "hasRead reads m u \<longleftrightarrow> markKey m u \<in> readKey ` set reads"

definition marks_ok :: "Message list \<Rightarrow> MessageRead list \<Rightarrow> bool" where
  "marks_ok ms reads \<longleftrightarrow> (\<forall>x \<in> set reads. \<exists>m \<in> set ms. readKey x = markKey m (mr_UserID x))"

definition reads_ok :: "Database \<Rightarrow> bool" where
  "reads_ok db \<longleftrightarrow> distinct (map ms_ID (messages db)) \<and> marks_ok (messages db) (message_reads db)"

text \<open>In a consistent table the row of a message and a user is the one with the mark's full key.\<close>

lemma mark_row:
  assumes "distinct (map ms_ID ms)" "marks_ok ms reads" "m \<in> set ms" "x \<in> set reads" "mr_MessageID x = ms_ID m"
  shows "readKey x = markKey m (mr_UserID x)"
proof -
  obtain m' where m': "m' \<in> set ms" "readKey x = markKey m' (mr_UserID x)"
    using assms(2,4) by (auto simp: marks_ok_def)
  then have "ms_ID m' = ms_ID m" using assms(5) by (simp add: readKey_def markKey_def)
  then have "m' = m" using assms(1,3) m'(1) by (auto simp: distinct_map inj_on_def)
  then show ?thesis using m'(2) by simp
qed

lemma upsertRead_keys:
  assumes "distinct (map ms_ID ms)" "marks_ok ms reads" "m \<in> set ms"
  shows "readKey ` set (upsertRead env u reads m) = insert (markKey m u) (readKey ` set reads)"
proof (cases "list_ex (\<lambda>x. mr_MessageID x = ms_ID m \<and> mr_UserID x = u) reads")
  case True
  let ?f = "\<lambda>x. if mr_MessageID x = ms_ID m \<and> mr_UserID x = u then x\<lparr>mr_ReadAt := sqlNow env\<rparr> else x"
  have "readKey (?f x) = readKey x" for x by (simp add: readKey_def)
  then have "readKey ` ?f ` set reads = readKey ` set reads" by (simp only: image_image)
  moreover obtain x where x: "x \<in> set reads" "mr_MessageID x = ms_ID m" "mr_UserID x = u"
    using True by (auto simp: list_ex_iff)
  moreover have "markKey m u \<in> readKey ` set reads"
    using mark_row[OF assms x(1,2)] x by (metis image_eqI)
  ultimately show ?thesis using True by (auto simp: upsertRead_def)
next
  case False
  then show ?thesis by (auto simp: upsertRead_def readKey_def markKey_def)
qed

lemma upsertRead_now:
  assumes "distinct (map ms_ID ms)" "marks_ok ms reads" "m \<in> set ms"
  shows "\<exists>x \<in> set (upsertRead env u reads m). readKey x = markKey m u \<and> mr_ReadAt x = sqlNow env"
proof (cases "list_ex (\<lambda>x. mr_MessageID x = ms_ID m \<and> mr_UserID x = u) reads")
  case True
  then obtain x where x: "x \<in> set reads" "mr_MessageID x = ms_ID m" "mr_UserID x = u"
    by (auto simp: list_ex_iff)
  have "x\<lparr>mr_ReadAt := sqlNow env\<rparr> \<in> set (upsertRead env u reads m)"
    using True x by (auto simp: upsertRead_def)
  moreover have "readKey (x\<lparr>mr_ReadAt := sqlNow env\<rparr>) = markKey m u"
    using mark_row[OF assms x(1,2)] x(3) by (simp add: readKey_def)
  ultimately show ?thesis by (intro bexI[of _ "x\<lparr>mr_ReadAt := sqlNow env\<rparr>"]) simp_all
next
  case False
  then show ?thesis by (auto simp: upsertRead_def readKey_def markKey_def)
qed

lemma upsertRead_marks_ok:
  assumes "distinct (map ms_ID ms)" "marks_ok ms reads" "m \<in> set ms"
  shows "marks_ok ms (upsertRead env u reads m)"
proof -
  have "\<exists>n \<in> set ms. readKey x = markKey n (mr_UserID x)" if "x \<in> set (upsertRead env u reads m)" for x
  proof -
    have "readKey x \<in> insert (markKey m u) (readKey ` set reads)"
      using that upsertRead_keys[OF assms, of env u] by auto
    then show ?thesis
      using assms(2,3) by (auto simp: marks_ok_def readKey_def markKey_def)
  qed
  then show ?thesis by (simp add: marks_ok_def)
qed

lemma markKey_inj:
  "distinct (map ms_ID ms) \<Longrightarrow> m \<in> set ms \<Longrightarrow> n \<in> set ms \<Longrightarrow> markKey n v = markKey m u \<longleftrightarrow> n = m \<and> v = u"
  by (auto simp: markKey_def distinct_map inj_on_def)

lemma upsertRead_hasRead:
  assumes "distinct (map ms_ID ms)" "marks_ok ms reads" "m \<in> set ms" "n \<in> set ms"
  shows "hasRead (upsertRead env u reads m) n v \<longleftrightarrow> hasRead reads n v \<or> n = m \<and> v = u"
  unfolding hasRead_def upsertRead_keys[OF assms(1-3)] using markKey_inj[OF assms(1,3,4)] by auto

lemma foldl_upsertRead:
  assumes "distinct (map ms_ID ms)" "marks_ok ms reads" "set rows \<subseteq> set ms" "n \<in> set ms"
  shows "hasRead (foldl (upsertRead env u) reads rows) n v \<longleftrightarrow> hasRead reads n v \<or> n \<in> set rows \<and> v = u"
    and "marks_ok ms (foldl (upsertRead env u) reads rows)"
  using assms(2,3)
proof (induction rows arbitrary: reads)
  case (Cons m rows)
  {
    case 1
    then show ?case using Cons.IH(1)[of "upsertRead env u reads m"] upsertRead_hasRead[OF assms(1) 1(1) _ assms(4)]
        upsertRead_marks_ok[OF assms(1)] by auto
  next
    case 2
    then show ?case using Cons.IH(2)[of "upsertRead env u reads m"] upsertRead_marks_ok[OF assms(1)] by auto
  }
qed simp_all

lemma upTo_mem:
  assumes "distinct (map ms_ID (messages db))" "tgt \<in> set (messages db)"
  shows "m \<in> set (upTo (ms_TenantID tgt) (ms_RoomID tgt) (ms_ID tgt) db) \<longleftrightarrow>
    m \<in> set (messages db) \<and> ms_TenantID m = ms_TenantID tgt \<and> ms_RoomID m = ms_RoomID tgt \<and> messageKey m \<le> messageKey tgt"
proof -
  let ?P = "\<lambda>m. ms_TenantID m = ms_TenantID tgt \<and> ms_ID m = ms_ID tgt \<and> ms_RoomID m = ms_RoomID tgt"
  have "find ?P (messages db) \<noteq> None" using assms(2) by (auto simp: find_None_iff)
  then obtain m2 where m2: "find ?P (messages db) = Some m2" by auto
  then have "m2 \<in> set (messages db)" "ms_ID m2 = ms_ID tgt" by (auto simp: find_Some_iff)
  then have "m2 = tgt" using assms by (auto simp: distinct_map inj_on_def)
  then show ?thesis using m2 by (auto simp: upTo_def)
qed

lemma upTo_subset: "set (upTo t r mid db) \<subseteq> {m \<in> set (messages db). ms_TenantID m = t \<and> ms_RoomID m = r}"
  by (auto simp: upTo_def split: option.splits)

lemma markRead_ok:
  assumes "sql_markRead env t r u mid db = (db', Inr ())"
  shows "upTo t r mid db \<noteq> [] \<and> messages db' = messages db
    \<and> message_reads db' = foldl (upsertRead env u) (message_reads db) (upTo t r mid db)"
  using assms by (auto simp: sql_markRead_def Let_def split: if_splits)

lemma fold_max_ge: "y \<in> set (x # xs) \<Longrightarrow> (y :: int) \<le> fold max xs x"
  unfolding Max.set_eq_fold[symmetric] by (rule Max_ge) simp_all

lemma readHorizon_ge: "x \<in> set (readsOf t r u db) \<Longrightarrow> mr_ReadAt x \<le> readHorizon t r u db"
proof -
  assume "x \<in> set (readsOf t r u db)"
  then obtain y ys where ys: "map mr_ReadAt (readsOf t r u db) = y # ys" "mr_ReadAt x \<in> set (y # ys)"
    by (cases "map mr_ReadAt (readsOf t r u db)") auto
  then show ?thesis using fold_max_ge[OF ys(2)] by (simp add: readHorizon_def)
qed

section \<open>Properties\<close>

text \<open>
  A new room has exactly its members. A committed \<open>CreateRoom\<close> makes a room with a new id
  whose members are the listed users and the creator, each once, and changes the membership of
  no other room.
\<close>

theorem CreateRoom_members:
  assumes "member_fk db" and "inTx env final (roomBody env t room us) db = (db', Inr rid)"
  shows "\<not> hasRoom db rid
    \<and> (\<forall>t' r u. isMember t' r u db' \<longleftrightarrow>
         isMember t' r u db \<or> t' = t \<and> r = rid \<and> (u \<in> set us \<or> u = cr_CreatedBy room))"
proof -
  have "roomBody env t room us db = (db', Inr rid)" using assms(2) by (simp add: inTx_ok)
  from roomBody_ok[OF assms(1) this] show ?thesis by (auto simp: isMember_iff)
qed

definition userRow :: "string \<Rightarrow> User" where
  "userRow u = \<lparr>us_TenantID = ''acme'', us_ID = u, us_OrgID = ''o'', us_Email = u @ ''@acme'', us_Name = u, us_Title = '''',
     us_Role = ''user'', us_Status = ''offline'', us_StatusNote = '''', us_PasswordHash = '''', us_CreatedAt = 0, us_UpdatedAt = 0\<rparr>"

definition chatTenant :: Tenant where
  "chatTenant = \<lparr>tn_TenantID = ''acme'', tn_Name = ''Acme'', tn_DeploymentMode = ''shared'', tn_DedicatedDSN = '''',
     tn_DedicatedRedisAddr = '''', tn_DedicatedLavinMQURL = '''', tn_DedicatedMinIOEndpoint = '''',
     tn_DedicatedMinIOAccessKey = '''', tn_DedicatedMinIOSecretKey = '''', tn_DedicatedMinIOBucket = '''',
     tn_DedicatedMinIOUseSSL = False, tn_UserCountThreshold = 200, tn_IsActive = True, tn_CreatedAt = 0, tn_UpdatedAt = 0\<rparr>"

definition chatDB :: Database where
  "chatDB = emptyDB\<lparr>tenants := [chatTenant], users := [userRow ''ada'', userRow ''bob'']\<rparr>"

definition chatEnv :: sqlEnv where
  "chatEnv = \<lparr>sqlNow = 100, genUUID = (\<lambda>_. ''id0''), fault = (\<lambda>_. None)\<rparr>"

definition roomEx :: ChatRoom where
  "roomEx = \<lparr>cr_TenantID = '''', cr_ID = '''', cr_Name = ''lobby'', cr_RoomType = ''group'', cr_CreatedBy = ''ada'', cr_CreatedAt = 0\<rparr>"

lemma roomEx_created: "\<exists>db'. inTx chatEnv 4 (roomBody chatEnv ''acme'' roomEx [''bob'']) chatDB = (db', Inr ''id0'')"
  by (simp add: inTx_def roomBody_def seqS_def exec_def chatEnv_def sql_insertRoom_def sql_insertMember_def chatDB_def
      emptyDB_def hasTenant_def hasUser_def hasRoom_def chatTenant_def userRow_def roomEx_def)

theorem CreateRoom_members_witness:
  "\<exists>db'. inTx chatEnv 4 (roomBody chatEnv ''acme'' roomEx [''bob'']) chatDB = (db', Inr ''id0'')
     \<and> isMember ''acme'' ''id0'' ''bob'' db' \<and> isMember ''acme'' ''id0'' ''ada'' db' \<and> \<not> isMember ''acme'' ''id0'' ''eve'' db'"
proof -
  obtain db' where tx: "inTx chatEnv 4 (roomBody chatEnv ''acme'' roomEx [''bob'']) chatDB = (db', Inr ''id0'')"
    using roomEx_created by blast
  have "member_fk chatDB" by (simp add: member_fk_def chatDB_def emptyDB_def)
  from CreateRoom_members[OF this tx] tx show ?thesis
    by (auto simp: roomEx_def isMember_def chatDB_def emptyDB_def)
qed

text \<open>
  C25: Marking read up to a message. After a successful \<open>MarkReadUpTo\<close> a user has read exactly the messages the
  user had read before and the room's messages up to the marked one (by creation time, then id); the marks of
  other users, rooms and tenants are as before.
\<close>

theorem MarkReadUpTo_exact:
  assumes "reads_ok db" and "tgt \<in> set (messages db)" and "n \<in> set (messages db)"
    and "sql_markRead env (ms_TenantID tgt) (ms_RoomID tgt) u (ms_ID tgt) db = (db', Inr ())"
  shows "reads_ok db' \<and> (hasRead (message_reads db') n v \<longleftrightarrow>
    hasRead (message_reads db) n v
    \<or> v = u \<and> ms_TenantID n = ms_TenantID tgt \<and> ms_RoomID n = ms_RoomID tgt \<and> messageKey n \<le> messageKey tgt)"
proof -
  let ?rows = "upTo (ms_TenantID tgt) (ms_RoomID tgt) (ms_ID tgt) db"
  have d: "distinct (map ms_ID (messages db))" and ok: "marks_ok (messages db) (message_reads db)"
    using assms(1) by (simp_all add: reads_ok_def)
  note mk = markRead_ok[OF assms(4)]
  have sub: "set ?rows \<subseteq> set (messages db)" using upTo_subset by fastforce
  show ?thesis
    using mk foldl_upsertRead[OF d ok sub assms(3), of env u] upTo_mem[OF d assms(2), of n] assms(3) d
    by (auto simp: reads_ok_def)
qed

definition msgAt :: "string \<Rightarrow> time \<Rightarrow> Message" where
  "msgAt i at = \<lparr>ms_TenantID = ''acme'', ms_ID = i, ms_RoomID = ''r'', ms_SenderID = ''ada'', ms_Body = ''hi'',
     ms_MetaJSON = Text (JObj []), ms_CreatedAt = at\<rparr>"

definition readDB :: Database where
  "readDB = chatDB\<lparr>messages := [msgAt ''m1'' 10, msgAt ''m2'' 20]\<rparr>"

lemma readDB_ok: "reads_ok readDB"
  by (simp add: reads_ok_def readDB_def chatDB_def emptyDB_def msgAt_def marks_ok_def)

lemma readDB_mark: "\<exists>db'. sql_markRead chatEnv ''acme'' ''r'' ''bob'' ''m1'' readDB = (db', Inr ())"
  by (simp add: sql_markRead_def Let_def readDB_def chatDB_def emptyDB_def upTo_def msgAt_def hasUser_def userRow_def messageKey_def)

theorem MarkReadUpTo_exact_witness:
  "\<exists>db'. sql_markRead chatEnv ''acme'' ''r'' ''bob'' ''m1'' readDB = (db', Inr ())
     \<and> hasRead (message_reads db') (msgAt ''m1'' 10) ''bob'' \<and> \<not> hasRead (message_reads db') (msgAt ''m2'' 20) ''bob''"
proof -
  obtain db' where mk: "sql_markRead chatEnv ''acme'' ''r'' ''bob'' ''m1'' readDB = (db', Inr ())"
    using readDB_mark by blast
  have mem: "msgAt ''m1'' 10 \<in> set (messages readDB)" "msgAt ''m2'' 20 \<in> set (messages readDB)"
    by (simp_all add: readDB_def)
  have "sql_markRead chatEnv (ms_TenantID (msgAt ''m1'' 10)) (ms_RoomID (msgAt ''m1'' 10)) ''bob'' (ms_ID (msgAt ''m1'' 10)) readDB = (db', Inr ())"
    using mk by (simp add: msgAt_def)
  from MarkReadUpTo_exact[OF readDB_ok mem(1) mem(1) this, of "''bob''"] MarkReadUpTo_exact[OF readDB_ok mem(1) mem(2) this, of "''bob''"]
  have "hasRead (message_reads db') (msgAt ''m1'' 10) ''bob''" "\<not> hasRead (message_reads db') (msgAt ''m2'' 20) ''bob''"
    by (simp_all add: hasRead_def readDB_def chatDB_def emptyDB_def messageKey_def) (simp_all add: msgAt_def)
  with mk show ?thesis by blast
qed

section \<open>Defects\<close>

text \<open>
  The unread count compares creation times with the time of the newest mark, not with the marked
  messages: marking any message of a room, even the oldest, makes the count zero although later
  messages were never marked.
\<close>

lemma unreadCount_after_any_mark:
  assumes "reads_ok db" "sql_markRead env t r u mid db = (db', Inr ())"
    and "\<forall>m \<in> set (messages db). ms_CreatedAt m \<le> sqlNow env"
  shows "unreadCount t r u db' = 0"
proof -
  note mk = markRead_ok[OF assms(2)]
  let ?rows = "upTo t r mid db" and ?reads = "message_reads db"
  have d: "distinct (map ms_ID (messages db))" and ok: "marks_ok (messages db) ?reads"
    using assms(1) by (simp_all add: reads_ok_def)
  have rows: "m \<in> set (messages db) \<and> ms_TenantID m = t \<and> ms_RoomID m = r" if "m \<in> set ?rows" for m
    using that upTo_subset by blast
  obtain rs m where rs: "?rows = rs @ [m]" using mk by (metis rev_exhaust)
  have sub: "set rs \<subseteq> set (messages db)" and m: "m \<in> set (messages db)" "ms_TenantID m = t" "ms_RoomID m = r"
    using rows rs by auto
  let ?mid = "foldl (upsertRead env u) ?reads rs"
  have "marks_ok (messages db) ?mid" using foldl_upsertRead(2)[OF d ok sub m(1)] by blast
  from upsertRead_now[OF d this m(1), of env u] obtain x where
    x: "x \<in> set (message_reads db')" "readKey x = markKey m u" "mr_ReadAt x = sqlNow env"
    using mk rs by auto
  then have "x \<in> set (readsOf t r u db')" using m by (simp add: readsOf_def readKey_def markKey_def)
  then have "sqlNow env \<le> readHorizon t r u db'" using readHorizon_ge x(3) by fastforce
  then show ?thesis using assms(3) mk by (fastforce simp: unreadCount_def filter_empty_conv)
qed

end
