(* ===== verification/UserRepo.thy ===== *)
theory UserRepo
  imports ChatRepo
begin

text \<open>
  Users, organisation units and aliases in the data base server: the statements of
  \<open>server/dbman/repository/user_repository.go\<close> and the service \<open>server/dbman/service/user_service.go\<close> over them, on
  the tables of \<open>migrations/001\<close>, \<open>002\<close>, \<open>004\<close> to \<open>008\<close>. The full-text match of the user search and \<open>bcrypt\<close> are arguments.
\<close>

section \<open>Organisation units\<close>

definition hasOrg :: "Database \<Rightarrow> string \<Rightarrow> bool" where
  "hasOrg db i \<longleftrightarrow> i \<in> set (map ou_ID (org_units db))"

definition sql_insertOrgUnit :: "sqlEnv \<Rightarrow> string \<Rightarrow> string option \<Rightarrow> string \<Rightarrow> string stmt" where
  "sql_insertOrgUnit env t parentID name db =
     (if hasOrg db (genUUID env 0) then (db, Inl err_unique)
      else if \<not> hasTenant db t \<or> (case parentID of None \<Rightarrow> False | Some p \<Rightarrow> p \<noteq> genUUID env 0 \<and> \<not> hasOrg db p) then (db, Inl err_fk)
      else (db\<lparr>org_units := org_units db @ [\<lparr>ou_TenantID = t, ou_ID = genUUID env 0, ou_ParentID = parentID, ou_Name = name,
               ou_CreatedAt = sqlNow env\<rparr>]\<rparr>, Inr (genUUID env 0)))"

definition CreateOrgUnit ::
  "'p Repo \<Rightarrow> 'p dbEnv \<Rightarrow> sqlEnv \<Rightarrow> string \<Rightarrow> string option \<Rightarrow> string \<Rightarrow> 'p Repo \<times> string result" where
  "CreateOrgUnit r penv env t parentID name = withPool r penv t (exec env 0 (sql_insertOrgUnit env t parentID name))"

definition sql_listOrgUnits :: "string \<Rightarrow> OrgUnit list stmt" where
  "sql_listOrgUnits t db =
     (db, Inr (map (\<lambda>o'. o'\<lparr>ou_TenantID := ''''\<rparr>) (sort_key ou_ID (filter (\<lambda>o'. ou_TenantID o' = t) (org_units db)))))"

definition ListOrgUnits :: "'p Repo \<Rightarrow> 'p dbEnv \<Rightarrow> sqlEnv \<Rightarrow> string \<Rightarrow> 'p Repo \<times> OrgUnit list result" where
  "ListOrgUnits r penv env t = withPool r penv t (exec env 0 (sql_listOrgUnits t))"

section \<open>Users\<close>

definition sql_insertUser :: "sqlEnv \<Rightarrow> string \<Rightarrow> User \<Rightarrow> string stmt" where
  "sql_insertUser env t u db =
     (if hasUser db (genUUID env 0) \<or> (t, us_Email u) \<in> set (map (\<lambda>x. (us_TenantID x, us_Email x)) (users db)) then (db, Inl err_unique)
      else if \<not> hasTenant db t \<or> \<not> hasOrg db (us_OrgID u) then (db, Inl err_fk)
      else (db\<lparr>users := users db @ [u\<lparr>us_TenantID := t, us_ID := genUUID env 0, us_CreatedAt := sqlNow env, us_UpdatedAt := sqlNow env\<rparr>]\<rparr>,
            Inr (genUUID env 0)))"

definition repo_CreateUser :: "'p Repo \<Rightarrow> 'p dbEnv \<Rightarrow> sqlEnv \<Rightarrow> string \<Rightarrow> User \<Rightarrow> 'p Repo \<times> string result" where
  "repo_CreateUser r penv env t u = withPool r penv t (exec env 0 (sql_insertUser env t u))"

definition sql_updateUserStatus :: "sqlEnv \<Rightarrow> string \<Rightarrow> string \<Rightarrow> string \<Rightarrow> string \<Rightarrow> unit stmt" where
  "sql_updateUserStatus env t userID status note' db =
     (let hit = (\<lambda>u. us_TenantID u = t \<and> us_ID u = userID) in
      (db\<lparr>users := map (\<lambda>u. if hit u then u\<lparr>us_Status := status, us_StatusNote := note', us_UpdatedAt := sqlNow env\<rparr> else u) (users db)\<rparr>,
       if list_ex hit (users db) then Inr () else Inl ''user not found''))"

definition user_UpdateStatus ::
  "'p Repo \<Rightarrow> 'p dbEnv \<Rightarrow> sqlEnv \<Rightarrow> string \<Rightarrow> string \<Rightarrow> string \<Rightarrow> string \<Rightarrow> 'p Repo \<times> unit result" where
  "user_UpdateStatus r penv env t userID status note' = withPool r penv t (exec env 0 (sql_updateUserStatus env t userID status note'))"

type_synonym userMatch = "string \<Rightarrow> User \<Rightarrow> bool"

definition sql_searchUsers :: "userMatch \<Rightarrow> string \<Rightarrow> string \<Rightarrow> int \<Rightarrow> User list stmt" where
  "sql_searchUsers um t q limit db =
     (db, map_sum id (map (\<lambda>u. u\<lparr>us_TenantID := '''', us_PasswordHash := ''''\<rparr>))
        (limited limit (orderDesc us_UpdatedAt (filter (\<lambda>u. us_TenantID u = t \<and> um q u) (users db)))))"

definition repo_SearchUsers ::
  "'p Repo \<Rightarrow> 'p dbEnv \<Rightarrow> sqlEnv \<Rightarrow> userMatch \<Rightarrow> string \<Rightarrow> string \<Rightarrow> int \<Rightarrow> 'p Repo \<times> User list result" where
  "repo_SearchUsers r penv env um t q limit = withPool r penv t (exec env 0 (sql_searchUsers um t q limit))"

definition sql_userByEmail :: "string \<Rightarrow> string \<Rightarrow> User stmt" where
  "sql_userByEmail t email db =
     (db, case filter (\<lambda>u. us_TenantID u = t \<and> us_Email u = email) (users db) of
            [] \<Rightarrow> Inl err_norows | u # _ \<Rightarrow> Inr (u\<lparr>us_TenantID := ''''\<rparr>))"

definition GetByEmail :: "'p Repo \<Rightarrow> 'p dbEnv \<Rightarrow> sqlEnv \<Rightarrow> string \<Rightarrow> string \<Rightarrow> 'p Repo \<times> User result" where
  "GetByEmail r penv env t email = withPool r penv t (exec env 0 (sql_userByEmail t email))"

section \<open>Aliases\<close>

definition sql_listAliases :: "string \<Rightarrow> string \<Rightarrow> string list stmt" where
  "sql_listAliases t userID db =
     (db, Inr (sort (map al_Alias (filter (\<lambda>a. al_TenantID a = t \<and> al_UserID a = userID) (user_aliases db)))))"

definition ListAliases :: "'p Repo \<Rightarrow> 'p dbEnv \<Rightarrow> sqlEnv \<Rightarrow> string \<Rightarrow> string \<Rightarrow> 'p Repo \<times> string list result" where
  "ListAliases r penv env t userID = withPool r penv t (exec env 0 (sql_listAliases t userID))"

definition auditRow :: "sqlEnv \<Rightarrow> string \<Rightarrow> string \<Rightarrow> string \<Rightarrow> string \<Rightarrow> string \<Rightarrow> string \<Rightarrow> AliasAudit" where
  "auditRow env t userID alias action ip userAgent =
     \<lparr>aa_TenantID = t, aa_ID = genUUID env 0, aa_UserID = userID, aa_Alias = alias, aa_Action = action, aa_ActedBy = userID,
      aa_IP = ip, aa_UserAgent = userAgent, aa_CreatedAt = sqlNow env\<rparr>"

text \<open>
  One statement inserts the alias (keys: the user with the alias, and with the alias in lower case) and, if a row was inserted, its audit row.
\<close>

definition sql_addAlias :: "sqlEnv \<Rightarrow> pgText \<Rightarrow> string \<Rightarrow> string \<Rightarrow> string \<Rightarrow> string \<Rightarrow> string \<Rightarrow> unit stmt" where
  "sql_addAlias env pg t userID alias ip userAgent db =
     (if list_ex (\<lambda>a. al_UserID a = userID \<and> (al_Alias a = alias \<or> pgLower pg (al_Alias a) = pgLower pg alias)) (user_aliases db)
      then (db, Inr ())
      else if genUUID env 0 \<in> set (map aa_ID (alias_audit db)) then (db, Inl err_unique)
      else if \<not> hasTenant db t \<or> \<not> hasUser db userID then (db, Inl err_fk)
      else (db\<lparr>user_aliases := user_aliases db @ [\<lparr>al_TenantID = t, al_UserID = userID, al_Alias = alias\<rparr>],
               alias_audit := alias_audit db @ [auditRow env t userID alias ''add'' ip userAgent]\<rparr>, Inr ()))"

definition repo_AddAlias ::
  "'p Repo \<Rightarrow> 'p dbEnv \<Rightarrow> sqlEnv \<Rightarrow> pgText \<Rightarrow> string \<Rightarrow> string \<Rightarrow> string \<Rightarrow> string \<Rightarrow> string \<Rightarrow> 'p Repo \<times> unit result" where
  "repo_AddAlias r penv env pg t userID alias ip userAgent = withPool r penv t (exec env 0 (sql_addAlias env pg t userID alias ip userAgent))"

definition sql_deleteAlias :: "sqlEnv \<Rightarrow> string \<Rightarrow> string \<Rightarrow> string \<Rightarrow> string \<Rightarrow> string \<Rightarrow> unit stmt" where
  "sql_deleteAlias env t userID alias ip userAgent db =
     (let hit = (\<lambda>a. al_TenantID a = t \<and> al_UserID a = userID \<and> al_Alias a = alias) in
      if \<not> list_ex hit (user_aliases db) then (db, Inr ())
      else if genUUID env 0 \<in> set (map aa_ID (alias_audit db)) then (db, Inl err_unique)
      else if \<not> hasTenant db t \<or> \<not> hasUser db userID then (db, Inl err_fk)
      else (db\<lparr>user_aliases := filter (\<lambda>a. \<not> hit a) (user_aliases db),
               alias_audit := alias_audit db @ [auditRow env t userID alias ''delete'' ip userAgent]\<rparr>, Inr ()))"

definition repo_DeleteAlias ::
  "'p Repo \<Rightarrow> 'p dbEnv \<Rightarrow> sqlEnv \<Rightarrow> string \<Rightarrow> string \<Rightarrow> string \<Rightarrow> string \<Rightarrow> string \<Rightarrow> 'p Repo \<times> unit result" where
  "repo_DeleteAlias r penv env t userID alias ip userAgent = withPool r penv t (exec env 0 (sql_deleteAlias env t userID alias ip userAgent))"

record auditFilter =
  af_from :: "time option"
  af_to :: "time option"
  af_action :: string

definition auditHit :: "auditFilter \<Rightarrow> AliasAudit \<Rightarrow> bool" where
  "auditHit f x \<longleftrightarrow>
     (case af_from f of None \<Rightarrow> True | Some a \<Rightarrow> a \<le> aa_CreatedAt x)
   \<and> (case af_to f of None \<Rightarrow> True | Some b \<Rightarrow> aa_CreatedAt x \<le> b)
   \<and> (TrimSpace (af_action f) \<noteq> '''' \<longrightarrow> aa_Action x = ToLower (TrimSpace (af_action f)))"

definition auditKey :: "AliasAudit \<Rightarrow> time \<times> string" where
  "auditKey x = (aa_CreatedAt x, aa_ID x)"

definition sql_listAudit :: "string \<Rightarrow> string \<Rightarrow> int \<Rightarrow> auditFilter \<Rightarrow> (time \<times> string) option \<Rightarrow> AliasAudit list stmt" where
  "sql_listAudit t userID limit f cursor db =
     (db, map_sum id (map (\<lambda>x. x\<lparr>aa_TenantID := ''''\<rparr>)) (limited limit (orderDesc auditKey
        (filter (\<lambda>x. aa_TenantID x = t \<and> aa_UserID x = userID \<and> auditHit f x
            \<and> (case cursor of None \<Rightarrow> True | Some (at, i) \<Rightarrow> aa_CreatedAt x < at \<or> aa_CreatedAt x = at \<and> aa_ID x < i)) (alias_audit db)))))"

definition repo_ListAliasAudit ::
  "'p Repo \<Rightarrow> 'p dbEnv \<Rightarrow> sqlEnv \<Rightarrow> string \<Rightarrow> string \<Rightarrow> int \<Rightarrow> auditFilter \<Rightarrow> time option \<Rightarrow> string option \<Rightarrow> 'p Repo \<times> AliasAudit list result" where
  "repo_ListAliasAudit r penv env t userID limit f cursorCreatedAt cursorID =
     withPool r penv t (exec env 0 (sql_listAudit t userID limit f
       (case (cursorCreatedAt, cursorID) of (Some at, Some i) \<Rightarrow> Some (at, i) | _ \<Rightarrow> None)))"

section \<open>The service\<close>

text \<open>\<open>bcrypt.GenerateFromPassword\<close> and \<open>bcrypt.CompareHashAndPassword\<close>.\<close>

record bcryptLib =
  GenerateFromPassword :: "string \<Rightarrow> string result"
  CompareHashAndPassword :: "string \<Rightarrow> string \<Rightarrow> unit result"

definition usvc_CreateUser :: "bcryptLib \<Rightarrow> 'p Repo \<Rightarrow> 'p dbEnv \<Rightarrow> sqlEnv \<Rightarrow> string \<Rightarrow> User \<Rightarrow> 'p Repo \<times> string result" where
  "usvc_CreateUser bc r penv env t u0 =
     (let u1 = (if us_Status u0 = '''' then u0\<lparr>us_Status := ''offline''\<rparr> else u0);
          u = (if us_Role u1 = '''' then u1\<lparr>us_Role := ''user''\<rparr> else u1) in
      if us_PasswordHash u = '''' then (r, Inl ''password is required'')
      else case GenerateFromPassword bc (us_PasswordHash u) of
          Inl e \<Rightarrow> (r, Inl e)
        | Inr hashed \<Rightarrow> repo_CreateUser r penv env t (u\<lparr>us_PasswordHash := hashed\<rparr>))"

definition usvc_SearchUsers ::
  "'p Repo \<Rightarrow> 'p dbEnv \<Rightarrow> sqlEnv \<Rightarrow> userMatch \<Rightarrow> string \<Rightarrow> string \<Rightarrow> int \<Rightarrow> 'p Repo \<times> User list result" where
  "usvc_SearchUsers r penv env um t q limit = repo_SearchUsers r penv env um t q (clampLimit 100 20 limit)"

definition usvc_Authenticate :: "bcryptLib \<Rightarrow> 'p Repo \<Rightarrow> 'p dbEnv \<Rightarrow> sqlEnv \<Rightarrow> string \<Rightarrow> string \<Rightarrow> string \<Rightarrow> 'p Repo \<times> User result" where
  "usvc_Authenticate bc r penv env t email password =
     (case GetByEmail r penv env t email of
        (r', Inl e) \<Rightarrow> (r', Inl e)
      | (r', Inr u) \<Rightarrow>
          (case CompareHashAndPassword bc (us_PasswordHash u) password of
             Inl _ \<Rightarrow> (r', Inl ''invalid credentials'')
           | Inr _ \<Rightarrow> (r', Inr (u\<lparr>us_PasswordHash := ''''\<rparr>))))"

text \<open>
  The pattern of an alias on its UTF-8 bytes: 1 to 40 runes, each an ASCII letter, digit or underscore or one of the
  Hangul syllables U+AC00 to U+D7A3, which are three bytes each.
\<close>

definition wordChar :: "char \<Rightarrow> bool" where
  "wordChar c \<longleftrightarrow> (let n = of_char c :: nat in 0x30 \<le> n \<and> n \<le> 0x39 \<or> 0x41 \<le> n \<and> n \<le> 0x5A \<or> n = 0x5F \<or> 0x61 \<le> n \<and> n \<le> 0x7A)"

definition contByte :: "char \<Rightarrow> bool" where
  "contByte c \<longleftrightarrow> 0x80 \<le> (of_char c :: nat) \<and> (of_char c :: nat) \<le> 0xBF"

definition hangul :: "char \<Rightarrow> string \<Rightarrow> bool" where
  "hangul c s = (case s of
      d # e # _ \<Rightarrow> 0xE0 \<le> (of_char c :: nat) \<and> (of_char c :: nat) \<le> 0xEF \<and> contByte d \<and> contByte e
        \<and> (let n = (of_char c - 0xE0) * 0x1000 + (of_char d - 0x80) * 0x40 + (of_char e - 0x80 :: nat) in 0xAC00 \<le> n \<and> n \<le> 0xD7A3)
    | _ \<Rightarrow> False)"

fun aliasRunes :: "string \<Rightarrow> nat option" where
  "aliasRunes [] = Some 0"
| "aliasRunes (c # s) =
     (if wordChar c then map_option Suc (aliasRunes s)
      else if hangul c s then map_option Suc (aliasRunes (drop 2 s))
      else None)"

definition aliasPattern :: "string \<Rightarrow> bool" where
  "aliasPattern s = (case aliasRunes s of None \<Rightarrow> False | Some n \<Rightarrow> 1 \<le> n \<and> n \<le> 40)"

definition usvc_AddAlias ::
  "'p Repo \<Rightarrow> 'p dbEnv \<Rightarrow> sqlEnv \<Rightarrow> pgText \<Rightarrow> string \<Rightarrow> string \<Rightarrow> string \<Rightarrow> string \<Rightarrow> string \<Rightarrow> 'p Repo \<times> unit result" where
  "usvc_AddAlias r penv env pg t userID alias0 ip userAgent =
     (let alias = TrimSpace alias0 in
      if alias = '''' then (r, Inl ''alias is required'')
      else if 40 < length alias then (r, Inl ''alias is too long'')
      else if \<not> aliasPattern alias then (r, Inl ''alias may only contain letters, digits, underscore, and Korean characters'')
      else repo_AddAlias r penv env pg t userID (ToLower alias) ip userAgent)"

definition usvc_DeleteAlias ::
  "'p Repo \<Rightarrow> 'p dbEnv \<Rightarrow> sqlEnv \<Rightarrow> string \<Rightarrow> string \<Rightarrow> string \<Rightarrow> string \<Rightarrow> string \<Rightarrow> 'p Repo \<times> unit result" where
  "usvc_DeleteAlias r penv env t userID alias0 ip userAgent =
     (let alias = TrimSpace alias0 in
      if alias = '''' then (r, Inl ''alias is required'')
      else if \<not> aliasPattern alias then (r, Inl ''alias format is invalid'')
      else repo_DeleteAlias r penv env t userID (ToLower alias) ip userAgent)"

text \<open>The checks of the audit filter, the same in the data base server and in \<open>orgHub\<close>.\<close>

definition checkFilter :: "auditFilter \<Rightarrow> auditFilter result" where
  "checkFilter f0 =
     (let f = f0\<lparr>af_action := ToLower (TrimSpace (af_action f0))\<rparr> in
      if af_action f \<notin> {'''', ''add'', ''delete''} then Inl ''action must be add or delete''
      else case (af_from f, af_to f) of
          (Some a, Some b) \<Rightarrow> if b < a then Inl ''from must be before to'' else Inr f
        | _ \<Rightarrow> Inr f)"

definition usvc_ListAliasAudit ::
  "'p Repo \<Rightarrow> 'p dbEnv \<Rightarrow> sqlEnv \<Rightarrow> string \<Rightarrow> string \<Rightarrow> int \<Rightarrow> auditFilter \<Rightarrow> time option \<Rightarrow> string option \<Rightarrow> 'p Repo \<times> AliasAudit list result" where
  "usvc_ListAliasAudit r penv env t userID limit f0 cursorCreatedAt cursorID =
     (case checkFilter f0 of
        Inl e \<Rightarrow> (r, Inl e)
      | Inr f \<Rightarrow> repo_ListAliasAudit r penv env t userID (clampLimit 200 50 limit) f cursorCreatedAt cursorID)"


section \<open>The shape of aliases\<close>

lemma wordChar_lower: "wordChar c \<Longrightarrow> wordChar (lower_char c)"
  by (auto simp: wordChar_def lower_char_def Let_def)

lemma lower_char_high: "0x80 \<le> (of_char c :: nat) \<Longrightarrow> lower_char c = c"
  by (simp add: lower_char_def Let_def)

lemma hangul_facts:
  assumes "hangul c (d # e # s)"
  shows "0xE0 \<le> (of_char c :: nat)" "contByte d" "contByte e" "c \<noteq> CHR 0xE2"
proof -
  show h: "0xE0 \<le> (of_char c :: nat)" "contByte d" "contByte e" using assms by (simp_all add: hangul_def)
  show "c \<noteq> CHR 0xE2"
  proof
    assume "c = CHR 0xE2"
    then have "(of_char c :: nat) = 0xE2" by simp
    then show False using assms h unfolding hangul_def contByte_def Let_def list.case by linarith
  qed
qed

lemma hangul_prefix: "hangul c (d # e # s) = hangul c (d # e # s')"
  by (simp add: hangul_def)

lemma wordChar_small: "wordChar c \<Longrightarrow> (of_char c :: nat) < 0x80"
  by (auto simp: wordChar_def Let_def)

lemma ToLower_step:
  assumes "c \<noteq> CHR 0xC4" "c \<noteq> CHR 0xE2"
  shows "ToLower (c # s) = lower_char c # ToLower s"
  using assms by simp

lemma ToLower_small: "(of_char c :: nat) < 0xC0 \<Longrightarrow> ToLower (c # s) = lower_char c # ToLower s"
  by (rule ToLower_step) auto

lemma ToLower_hangul:
  assumes "hangul c (d # e # s)"
  shows "ToLower (c # d # e # s') = c # d # e # ToLower s'"
proof -
  note f = hangul_facts[OF assms]
  have "c \<noteq> CHR 0xC4" using f(1) by auto
  then have "ToLower (c # d # e # s') = lower_char c # ToLower (d # e # s')" using f(4) by (rule ToLower_step)
  also have "ToLower (d # e # s') = lower_char d # lower_char e # ToLower s'"
    using f(2,3) unfolding contByte_def by (subst ToLower_small, linarith, subst ToLower_small) simp_all
  finally show ?thesis using f(1-3) unfolding contByte_def by (simp add: lower_char_high)
qed

lemma alias_induct [consumes 1, case_names Nil word syllable]:
  assumes "aliasRunes s = Some n"
    and "P [] 0"
    and "\<And>c s n. wordChar c \<Longrightarrow> aliasRunes s = Some n \<Longrightarrow> P s n \<Longrightarrow> P (c # s) (Suc n)"
    and "\<And>c d e s n. \<not> wordChar c \<Longrightarrow> hangul c (d # e # s) \<Longrightarrow> aliasRunes s = Some n \<Longrightarrow> P s n \<Longrightarrow> P (c # d # e # s) (Suc n)"
  shows "P s n"
  using assms(1)
proof (induction s arbitrary: n rule: aliasRunes.induct)
  case (2 c s)
  show ?case
  proof (cases "wordChar c")
    case True
    then obtain m where "aliasRunes s = Some m" "n = Suc m" using 2(3) by auto
    then show ?thesis using 2(1)[OF True, of m] assms(3)[OF True, of s m] by simp
  next
    case False
    then have h: "hangul c s" using 2(3) by (simp split: if_splits)
    then obtain d e s' where s: "s = d # e # s'" by (auto simp: hangul_def split: list.splits)
    then obtain m where "aliasRunes s' = Some m" "n = Suc m" using 2(3) False h by auto
    then show ?thesis using 2(2)[OF False h] assms(4)[of c d e s' m] False h s by simp
  qed
qed (use assms(2) in simp)

lemma aliasRunes_lower:
  assumes "aliasRunes s = Some n"
  shows "aliasRunes (ToLower s) = Some n \<and> ToLower (ToLower s) = ToLower s \<and> length (ToLower s) = length s
    \<and> n \<le> length s \<and> length s \<le> 3 * n"
  using assms
proof (induction rule: alias_induct)
  case (word c s n)
  then have "(of_char c :: nat) < 0xC0" "(of_char (lower_char c) :: nat) < 0xC0"
    using wordChar_small[of c] wordChar_small[of "lower_char c"] wordChar_lower[of c] by linarith+
  with word show ?case by (simp add: ToLower_small wordChar_lower del: ToLower.simps)
next
  case (syllable c d e s n)
  then show ?case using hangul_prefix[of c d e "ToLower s" s] by (simp add: ToLower_hangul del: ToLower.simps)
qed simp

definition alias_wf :: "string \<Rightarrow> bool" where
  "alias_wf a \<longleftrightarrow> aliasPattern a \<and> ToLower a = a \<and> length a \<le> 40"

lemma alias_wf_ToLower: "aliasPattern a \<Longrightarrow> length a \<le> 40 \<Longrightarrow> alias_wf (ToLower a)"
  by (auto simp: alias_wf_def aliasPattern_def aliasRunes_lower split: option.splits)


section \<open>Aliases and their audit log\<close>

definition listed :: "Database \<Rightarrow> string \<Rightarrow> string \<Rightarrow> string \<Rightarrow> bool" where
  "listed db t u a \<longleftrightarrow> list_ex (\<lambda>x. al_TenantID x = t \<and> al_UserID x = u \<and> al_Alias x = a) (user_aliases db)"

text \<open>The last entry of the log on an alias of a user.\<close>

definition lastAction :: "Database \<Rightarrow> string \<Rightarrow> string \<Rightarrow> string \<Rightarrow> string option" where
  "lastAction db t u a =
     (case rev (filter (\<lambda>x. aa_TenantID x = t \<and> aa_UserID x = u \<and> aa_Alias x = a) (alias_audit db)) of
        [] \<Rightarrow> None | x # _ \<Rightarrow> Some (aa_Action x))"

definition alias_inv :: "Database \<Rightarrow> bool" where
  "alias_inv db \<longleftrightarrow>
     (\<forall>t u a. listed db t u a \<longleftrightarrow> lastAction db t u a = Some ''add'')
   \<and> (\<forall>x \<in> set (user_aliases db). alias_wf (al_Alias x))
   \<and> distinct (map (\<lambda>x. (al_UserID x, al_Alias x)) (user_aliases db))"

lemma lastAction_audit:
  "alias_audit db' = alias_audit db @ [auditRow env t u a act ip ua] \<Longrightarrow>
   lastAction db' t' u' a' = (if (t', u', a') = (t, u, a) then Some act else lastAction db t' u' a')"
  by (simp add: lastAction_def auditRow_def)

lemma alias_inv_add:
  assumes "alias_inv db" "alias_wf a"
  shows "alias_inv (fst (sql_addAlias env pg t u a ip ua db))"
proof (cases "fst (sql_addAlias env pg t u a ip ua db) = db")
  case False
  let ?db = "db\<lparr>user_aliases := user_aliases db @ [\<lparr>al_TenantID = t, al_UserID = u, al_Alias = a\<rparr>],
      alias_audit := alias_audit db @ [auditRow env t u a ''add'' ip ua]\<rparr>"
  have db: "fst (sql_addAlias env pg t u a ip ua db) = ?db"
    and fresh: "\<not> list_ex (\<lambda>x. al_UserID x = u \<and> (al_Alias x = a \<or> pgLower pg (al_Alias x) = pgLower pg a)) (user_aliases db)"
    using False by (auto simp: sql_addAlias_def split: if_splits)
  have "listed ?db t' u' a' = ((t', u', a') = (t, u, a) \<or> listed db t' u' a')" for t' u' a'
    by (auto simp: listed_def)
  moreover have "(u, a) \<notin> set (map (\<lambda>x. (al_UserID x, al_Alias x)) (user_aliases db))"
    using fresh by (auto simp: list_ex_iff)
  ultimately show ?thesis
    using assms lastAction_audit[of ?db db env t u a "''add''" ip ua] unfolding db alias_inv_def by auto
qed (use assms in simp)

lemma alias_inv_delete:
  assumes "alias_inv db"
  shows "alias_inv (fst (sql_deleteAlias env t u a ip ua db))"
proof (cases "fst (sql_deleteAlias env t u a ip ua db) = db")
  case False
  let ?hit = "\<lambda>x. al_TenantID x = t \<and> al_UserID x = u \<and> al_Alias x = a"
  let ?db = "db\<lparr>user_aliases := filter (\<lambda>x. \<not> ?hit x) (user_aliases db), alias_audit := alias_audit db @ [auditRow env t u a ''delete'' ip ua]\<rparr>"
  have db: "fst (sql_deleteAlias env t u a ip ua db) = ?db"
    using False unfolding sql_deleteAlias_def Let_def by (simp split: if_splits)
  have "listed ?db t' u' a' = ((t', u', a') \<noteq> (t, u, a) \<and> listed db t' u' a')" for t' u' a'
    by (auto simp: listed_def list_ex_iff)
  then show ?thesis
    using assms lastAction_audit[of ?db db env t u a "''delete''" ip ua] unfolding db alias_inv_def
    by (auto simp: distinct_map_filter)
qed (use assms in simp)

lemma withPool_all:
  assumes "\<And>p. P (pools r p)" "\<And>db. P db \<Longrightarrow> P (fst (st db))"
  shows "P (pools (fst (withPool r penv t st)) p)"
proof (cases "snd (DBForTenant (router r) t penv) = Inr p")
  case True
  then show ?thesis using withPool_result[OF True, of st] assms by simp
next
  case False
  then show ?thesis using withPool_frame[OF False, of st] assms by simp
qed

lemma exec_keeps: "(\<And>db. P db \<Longrightarrow> P (fst (st db))) \<Longrightarrow> P db \<Longrightarrow> P (fst (exec env k st db))"
  by (simp add: exec_def split: option.split)

text \<open>Any requests on aliases, and between them anything that leaves the two tables alone.\<close>

inductive alias_reach :: "'p Repo \<Rightarrow> 'p Repo \<Rightarrow> bool" for r0 where
  start: "alias_reach r0 r0"
| add: "alias_reach r0 r \<Longrightarrow> alias_reach r0 (fst (usvc_AddAlias r penv env pg t u a ip ua))"
| delete: "alias_reach r0 r \<Longrightarrow> alias_reach r0 (fst (usvc_DeleteAlias r penv env t u a ip ua))"
| other: "alias_reach r0 r \<Longrightarrow> (\<And>p. user_aliases (pools r' p) = user_aliases (pools r p) \<and> alias_audit (pools r' p) = alias_audit (pools r p))
    \<Longrightarrow> alias_reach r0 r'"

lemma alias_inv_reach:
  assumes "alias_reach r0 r" and "\<And>p. alias_inv (pools r0 p)"
  shows "alias_inv (pools r p)"
  using assms(1)
proof (induction arbitrary: p)
  case (add r penv env pg t u a ip ua)
  have "alias_inv (pools (fst (repo_AddAlias r penv env pg t u a' ip ua)) p)" if "alias_wf a'" for a'
    unfolding repo_AddAlias_def by (rule withPool_all[where P = alias_inv, OF add.IH]) (use that in \<open>auto intro: exec_keeps alias_inv_add\<close>)
  then show ?case using add.IH alias_wf_ToLower[of "TrimSpace a"] by (auto simp: usvc_AddAlias_def Let_def)
next
  case (delete r penv env t u a ip ua)
  have "alias_inv (pools (fst (repo_DeleteAlias r penv env t u a' ip ua)) p)" for a'
    unfolding repo_DeleteAlias_def by (rule withPool_all[where P = alias_inv, OF delete.IH]) (auto intro: exec_keeps alias_inv_delete)
  then show ?case using delete.IH by (auto simp: usvc_DeleteAlias_def Let_def)
next
  case (other r r')
  then show ?case using other.IH[of p] by (simp add: alias_inv_def listed_def lastAction_def)
qed (rule assms(2))


text \<open>
  C22: The audit log tells the truth. However aliases are added and deleted, through whatever tenants and with whatever failures, from empty
  tables on: a user has an alias exactly if the last entry of the log on it says it was added; every stored alias has 1 to 40
  runes of the allowed kinds, at most 40 bytes and no upper-case letter; and no user has the same alias twice.
\<close>

theorem alias_log_faithful:
  assumes "alias_reach r0 r" and "\<And>p. user_aliases (pools r0 p) = [] \<and> alias_audit (pools r0 p) = []"
  shows "(listed (pools r p) t u a \<longleftrightarrow> lastAction (pools r p) t u a = Some ''add'')
    \<and> (listed (pools r p) t u a \<longrightarrow> aliasPattern a \<and> length a \<le> 40 \<and> ToLower a = a)
    \<and> distinct (map (\<lambda>x. (al_UserID x, al_Alias x)) (user_aliases (pools r p)))"
proof -
  have "alias_inv (pools r0 p)" for p using assms(2)[of p] by (simp add: alias_inv_def listed_def lastAction_def)
  then have "alias_inv (pools r p)" by (rule alias_inv_reach[OF assms(1)])
  moreover have "alias_wf a" if "\<forall>x \<in> set (user_aliases (pools r p)). alias_wf (al_Alias x)" "listed (pools r p) t u a"
    using that by (auto simp: listed_def list_ex_iff)
  ultimately show ?thesis unfolding alias_inv_def by (meson alias_wf_def)
qed

definition userRepoEx :: "Database \<Rightarrow> string Repo" where
  "userRepoEx db = \<lparr>router = NewTenantDBRouterWithProvider ''shared'', pools = (\<lambda>_. db)\<rparr>"

definition lowerText :: pgText where
  "lowerText = \<lparr>pgMatch = (\<lambda>q b. q = b), pgMentions = (\<lambda>_. []), pgLower = map lower_char, pgLeft120 = id, pgBeforeAt = id\<rparr>"

lemma userRepoEx_pool: "snd (DBForTenant (router (userRepoEx db)) ''acme'' acmeEnv) = Inr ''pg://acme''"
  by (simp add: dbr.answer TrimSpace_eval userRepoEx_def acmeEnv_def acme_def in_force_def db_view_def
      NewTenantDBRouterWithProvider_def db_wants_def)

definition aliasEx :: "string Repo" where
  "aliasEx = fst (usvc_AddAlias (userRepoEx chatDB) acmeEnv chatEnv lowerText ''acme'' ''ada'' ''Lovelace'' ''ip'' ''ua'')"

lemma aliasEx_listed: "listed (pools aliasEx ''pg://acme'') ''acme'' ''ada'' ''lovelace''"
proof -
  have p: "aliasPattern ''Lovelace''" by (simp add: aliasPattern_def wordChar_def)
  have l: "ToLower ''Lovelace'' = ''lovelace''" by (simp add: lower_char_def char_of_def bit_simps)
  have "fst (exec chatEnv 0 (sql_addAlias chatEnv lowerText ''acme'' ''ada'' ''lovelace'' ''ip'' ''ua'') chatDB)
    = chatDB\<lparr>user_aliases := [\<lparr>al_TenantID = ''acme'', al_UserID = ''ada'', al_Alias = ''lovelace''\<rparr>],
        alias_audit := [auditRow chatEnv ''acme'' ''ada'' ''lovelace'' ''add'' ''ip'' ''ua'']\<rparr>"
    by (simp add: exec_def chatEnv_def) (simp add: sql_addAlias_def chatDB_def emptyDB_def hasTenant_def hasUser_def chatTenant_def userRow_def)
  then show ?thesis
    using withPool_result[OF userRepoEx_pool, of chatDB "exec chatEnv 0 (sql_addAlias chatEnv lowerText ''acme'' ''ada'' ''lovelace'' ''ip'' ''ua'')"] p l
    by (simp add: aliasEx_def usvc_AddAlias_def Let_def TrimSpace_eval repo_AddAlias_def listed_def del: ToLower.simps)
       (simp add: userRepoEx_def)
qed

theorem alias_log_faithful_witness:
  "lastAction (pools aliasEx ''pg://acme'') ''acme'' ''ada'' ''lovelace'' = Some ''add'' \<and> aliasPattern ''lovelace''"
proof -
  have "alias_reach (userRepoEx chatDB) aliasEx" unfolding aliasEx_def by (intro alias_reach.intros)
  moreover have "user_aliases (pools (userRepoEx chatDB) p) = [] \<and> alias_audit (pools (userRepoEx chatDB) p) = []" for p
    by (simp add: userRepoEx_def chatDB_def emptyDB_def)
  ultimately show ?thesis
    using alias_log_faithful[of "userRepoEx chatDB" aliasEx "''pg://acme''" "''acme''" "''ada''" "''lovelace''"] aliasEx_listed by simp
qed

text \<open>A Korean alias of 14 syllables satisfies the pattern, but its 42 bytes are over the limit, which counts bytes.\<close>

lemma AddAlias_korean_too_long:
  defines "ga \<equiv> [CHR 0xEA, CHR 0xB0, CHR 0x80]"
  shows "aliasPattern (concat (replicate 14 ga)) \<and> length (concat (replicate 14 ga)) = 42"
  unfolding ga_def by (simp add: eval_nat_numeral) (simp add: aliasPattern_def wordChar_def hangul_def contByte_def)


section \<open>Logging in\<close>

text \<open>The documented behaviour of \<open>bcrypt\<close> that a login relies on: a hash accepts the password it was made from.\<close>

definition bcrypt_ok :: "bcryptLib \<Rightarrow> bool" where
  "bcrypt_ok bc \<longleftrightarrow> (\<forall>p h. GenerateFromPassword bc p = Inr h \<longrightarrow> CompareHashAndPassword bc h p = Inr ())"

text \<open>The row that \<open>CreateUser\<close> stores for a user, with the defaults of the service and the hash of the password.\<close>

definition newUser :: "sqlEnv \<Rightarrow> string \<Rightarrow> User \<Rightarrow> string \<Rightarrow> User" where
  "newUser env t u h = u\<lparr>us_TenantID := t, us_ID := genUUID env 0, us_CreatedAt := sqlNow env, us_UpdatedAt := sqlNow env,
     us_Status := (if us_Status u = '''' then ''offline'' else us_Status u), us_Role := (if us_Role u = '''' then ''user'' else us_Role u),
     us_PasswordHash := h\<rparr>"

lemma usvc_CreateUser_outcome:
  assumes "usvc_CreateUser bc r penv env t u = (r1, Inr i)"
  obtains h pool where "GenerateFromPassword bc (us_PasswordHash u) = Inr h" "snd (DBForTenant (router r) t penv) = Inr pool"
    "router r1 = fst (DBForTenant (router r) t penv)" "i = genUUID env 0"
    "pools r1 = (pools r)(pool := (pools r pool)\<lparr>users := users (pools r pool) @ [newUser env t u h]\<rparr>)"
    "(t, us_Email u) \<notin> set (map (\<lambda>x. (us_TenantID x, us_Email x)) (users (pools r pool)))"
proof -
  define v where "v = (let u1 = (if us_Status u = '''' then u\<lparr>us_Status := ''offline''\<rparr> else u)
      in if us_Role u1 = '''' then u1\<lparr>us_Role := ''user''\<rparr> else u1)"
  have v: "us_PasswordHash v = us_PasswordHash u" "us_Email v = us_Email u" by (simp_all add: v_def Let_def)
  have new: "v\<lparr>us_PasswordHash := h, us_TenantID := t, us_ID := genUUID env 0, us_CreatedAt := sqlNow env, us_UpdatedAt := sqlNow env\<rparr> = newUser env t u h" for h
    by (simp add: v_def Let_def newUser_def)
  obtain h where h: "GenerateFromPassword bc (us_PasswordHash u) = Inr h"
    and run: "repo_CreateUser r penv env t (v\<lparr>us_PasswordHash := h\<rparr>) = (r1, Inr i)"
    using assms unfolding usvc_CreateUser_def v_def[unfolded Let_def, symmetric] Let_def v(1)
    by (auto split: if_splits sum.splits)
  obtain pool where pool: "snd (DBForTenant (router r) t penv) = Inr pool" and router: "router r1 = fst (DBForTenant (router r) t penv)"
    and ins: "sql_insertUser env t (v\<lparr>us_PasswordHash := h\<rparr>) (pools r pool) = (pools r1 pool, Inr i)" "pools r1 = (pools r)(pool := pools r1 pool)"
    using run by (auto simp: repo_CreateUser_def withPool_def exec_def split: prod.splits sum.splits option.splits)
  have "(t, us_Email u) \<notin> set (map (\<lambda>x. (us_TenantID x, us_Email x)) (users (pools r pool)))" "i = genUUID env 0"
    "pools r1 pool = (pools r pool)\<lparr>users := users (pools r pool) @ [newUser env t u h]\<rparr>"
    using ins(1) by (auto simp: sql_insertUser_def v new split: if_splits)
  then show thesis using that[OF h pool router] ins(2) by metis
qed



definition bcEx :: bcryptLib where
  "bcEx = \<lparr>GenerateFromPassword = (\<lambda>p. Inr (''hash of '' @ p)),
     CompareHashAndPassword = (\<lambda>h p. if h = ''hash of '' @ p then Inr () else Inl ''no'')\<rparr>"

definition orgDB :: Database where
  "orgDB = chatDB\<lparr>org_units := [\<lparr>ou_TenantID = ''acme'', ou_ID = ''o'', ou_ParentID = None, ou_Name = ''Org'', ou_CreatedAt = 0\<rparr>]\<rparr>"

definition eve :: User where
  "eve = (userRow ''eve'')\<lparr>us_PasswordHash := ''pw'', us_Role := '''', us_Status := ''''\<rparr>"

lemma eve_created: "\<exists>r1. usvc_CreateUser bcEx (userRepoEx orgDB) acmeEnv chatEnv ''acme'' eve = (r1, Inr ''id0'')"
proof -
  let ?u = "eve\<lparr>us_Status := ''offline'', us_Role := ''user'', us_PasswordHash := ''hash of pw''\<rparr>"
  have "snd (sql_insertUser chatEnv ''acme'' ?u orgDB) = Inr ''id0''"
    by (simp add: sql_insertUser_def orgDB_def chatDB_def emptyDB_def hasUser_def hasTenant_def hasOrg_def userRow_def chatTenant_def eve_def)
       (simp add: chatEnv_def)
  moreover have "fault chatEnv 0 = None" by (simp add: chatEnv_def)
  ultimately have "snd (repo_CreateUser (userRepoEx orgDB) acmeEnv chatEnv ''acme'' ?u) = Inr ''id0''"
    using withPool_result[OF userRepoEx_pool, of orgDB "exec chatEnv 0 (sql_insertUser chatEnv ''acme'' ?u)"]
    by (simp add: repo_CreateUser_def exec_def userRepoEx_def)
  then have "usvc_CreateUser bcEx (userRepoEx orgDB) acmeEnv chatEnv ''acme'' eve
      = (fst (repo_CreateUser (userRepoEx orgDB) acmeEnv chatEnv ''acme'' ?u), Inr ''id0'')"
    by (simp add: usvc_CreateUser_def eve_def bcEx_def Let_def prod_eq_iff)
  then show ?thesis by blast
qed


end
