(* ===== verification/Paging.thy ===== *)
theory Paging
  imports Database
begin

text \<open>
  Keyset pagination as the list endpoints do it: a page asks the store for one row more than the
  limit; if it comes, the page is cut to the limit and its last row becomes the cursor of the next
  page, encoded as text. The locale \<open>cursor_paging\<close> is the contract between a service and its
  store; its result is that following the cursors visits every row exactly once, newest first.
\<close>

section \<open>Pages and walks\<close>

definition below :: "'k::linorder option \<Rightarrow> 'k \<Rightarrow> bool" where
  "below cur k = (case cur of None \<Rightarrow> True | Some c \<Rightarrow> k < c)"

text \<open>The tail of the services: cut to the limit and make the next cursor.\<close>

definition cutPage :: "('a \<Rightarrow> string) \<Rightarrow> int \<Rightarrow> 'a list \<Rightarrow> 'a list \<times> string" where
  "cutPage cursorOf limit items =
     (if limit < int (length items)
      then (take (nat limit) items, cursorOf (last (take (nat limit) items)))
      else (items, ''''))"

text \<open>Following the cursors of a page function, at most \<open>fuel\<close> pages.\<close>

fun walk :: "nat \<Rightarrow> (string \<Rightarrow> ('a list \<times> string) result) \<Rightarrow> string \<Rightarrow> 'a list result" where
  "walk 0 page cursor = Inl ''too many pages''"
| "walk (Suc n) page cursor =
     (case page cursor of
        Inl e \<Rightarrow> Inl e
      | Inr (items, nextCursor) \<Rightarrow>
          if nextCursor = '''' then Inr items
          else (case walk n page nextCursor of Inl e \<Rightarrow> Inl e | Inr rest \<Rightarrow> Inr (items @ rest)))"

section \<open>Rows in order\<close>

lemma filter_orderDesc: "filter P (orderDesc key rows) = orderDesc key (filter P rows)"
  by (simp add: orderDesc_def filter_sort rev_filter[symmetric])

lemma orderDesc_strict:
  assumes "distinct (map key rows)"
  shows "sorted_wrt (\<lambda>x y. key y < key x) (orderDesc key rows)"
proof -
  have "distinct (map key (orderDesc key rows))"
    using assms by (simp add: orderDesc_def distinct_map)
  moreover have "sorted_wrt (\<lambda>x y. key y \<le> key x) (orderDesc key rows)" by (rule orderDesc_sorted)
  ultimately show ?thesis
    by (induction "orderDesc key rows" arbitrary: rows rule: list.induct)
       (force simp: sorted_wrt_iff_nth_less order_le_less distinct_conv_nth)+
qed

lemma filter_below_suffix:
  fixes key :: "'a \<Rightarrow> 'k::linorder"
  assumes "sorted_wrt (\<lambda>x y. key y < key x) (xs @ ys)" "xs \<noteq> []"
  shows "filter (\<lambda>x. key x < key (last xs)) (xs @ ys) = ys"
proof -
  obtain zs z where xs: "xs = zs @ [z]" using assms(2) by (metis rev_exhaust)
  have "\<forall>x \<in> set zs. key z < key x" "\<forall>y \<in> set ys. key y < key z"
    using assms(1) xs by (auto simp: sorted_wrt_append)
  then have "filter (\<lambda>x. key x < key z) zs = []" "filter (\<lambda>x. key x < key z) ys = ys"
    by (auto simp: filter_empty_conv filter_id_conv dest: order.asym)
  then show ?thesis using xs by simp
qed

section \<open>The contract\<close>

locale cursor_paging =
  fixes key :: "'a \<Rightarrow> 'k::linorder"
    and enc :: "'k \<Rightarrow> string"
    and dec :: "string \<Rightarrow> 'k option"
    and ok :: "'s \<Rightarrow> bool"
    and fetch :: "'s \<Rightarrow> int \<Rightarrow> 'k option \<Rightarrow> 'a list"
    and rows :: "'s \<Rightarrow> 'a list"
    and most :: int
  assumes fetch_rows: "ok s \<Longrightarrow> 0 < n \<Longrightarrow> n \<le> most \<Longrightarrow>
       fetch s n cur = take (nat n) (filter (\<lambda>x. below cur (key x)) (orderDesc key (rows s)))"
    and distinct_keys: "ok s \<Longrightarrow> distinct (map key (rows s))"
    and dec_enc: "ok s \<Longrightarrow> x \<in> set (rows s) \<Longrightarrow> dec (enc (key x)) = Some (key x)"
    and enc_nonblank: "ok s \<Longrightarrow> x \<in> set (rows s) \<Longrightarrow> TrimSpace (enc (key x)) \<noteq> ''''"
begin

definition page :: "'s \<Rightarrow> int \<Rightarrow> string \<Rightarrow> ('a list \<times> string) result" where
  "page s limit cursor =
     (if TrimSpace cursor = '''' then Inr (cutPage (\<lambda>x. enc (key x)) limit (fetch s (limit + 1) None))
      else case dec cursor of
          None \<Rightarrow> Inl ''cursor is invalid''
        | Some k \<Rightarrow> Inr (cutPage (\<lambda>x. enc (key x)) limit (fetch s (limit + 1) (Some k))))"

lemma page_rest:
  assumes ok: "ok s" and "orderDesc key (rows s) = seen @ rest" "0 < limit" "limit + 1 \<le> most"
    and "seen = [] \<and> TrimSpace cursor = '''' \<or> seen \<noteq> [] \<and> cursor = enc (key (last seen))"
  shows "page s limit cursor =
    (if nat limit < length rest then Inr (take (nat limit) rest, enc (key (rest ! (nat limit - 1)))) else Inr (rest, ''''))"
proof -
  let ?L = "orderDesc key (rows s)"
  have strict: "sorted_wrt (\<lambda>x y. key y < key x) ?L" by (rule orderDesc_strict[OF distinct_keys[OF ok]])
  obtain cur where cur: "page s limit cursor = Inr (cutPage (\<lambda>x. enc (key x)) limit (fetch s (limit + 1) cur))"
    "filter (\<lambda>x. below cur (key x)) ?L = rest"
  proof (cases "seen = []")
    case True
    then show ?thesis using that[of None] assms by (auto simp: page_def below_def)
  next
    case False
    have "last seen \<in> set (rows s)" using assms(2) False by (metis Un_iff last_in_set set_append set_orderDesc)
    moreover have "filter (\<lambda>x. key x < key (last seen)) ?L = rest"
      using filter_below_suffix[of key seen rest] strict assms(2) False by simp
    ultimately show ?thesis
      using that[of "Some (key (last seen))"] assms(5) False by (simp add: page_def below_def enc_nonblank[OF ok] dec_enc[OF ok])
  qed
  have "fetch s (limit + 1) cur = take (nat (limit + 1)) rest"
    using fetch_rows[OF ok, of "limit + 1" cur] assms(3,4) cur(2) by simp
  moreover have "last (take (nat limit) rest) = rest ! (nat limit - 1)" if "nat limit < length rest"
    using that assms(3) by (subst last_conv_nth) (auto simp: min_def)
  ultimately show ?thesis
    using assms(3) unfolding cur(1) cutPage_def by (auto simp: min_def nat_add_distrib)
qed

lemma walk_rest:
  assumes ok: "ok s" and "orderDesc key (rows s) = seen @ rest" "0 < limit" "limit + 1 \<le> most" "length rest < fuel"
    and "seen = [] \<and> TrimSpace cursor = '''' \<or> seen \<noteq> [] \<and> cursor = enc (key (last seen))"
  shows "walk fuel (page s limit) cursor = Inr rest"
  using assms
proof (induction fuel arbitrary: seen rest cursor)
  case (Suc fuel)
  note pg = page_rest[OF Suc.prems(1-4,6)]
  show ?case
  proof (cases "nat limit < length rest")
    case True
    let ?items = "take (nat limit) rest" and ?next = "enc (key (rest ! (nat limit - 1)))"
    have last: "last (seen @ ?items) = rest ! (nat limit - 1)"
      using True Suc.prems(3) by (subst last_append, subst last_conv_nth) (auto simp: min_def)
    have "rest ! (nat limit - 1) \<in> set rest" using True by (intro nth_mem) auto
    then have "rest ! (nat limit - 1) \<in> set (rows s)" using Suc.prems(2) by (metis Un_iff set_append set_orderDesc)
    then have ne: "?next \<noteq> ''''" using enc_nonblank[OF ok] TrimSpace_nonblank by blast
    have "walk fuel (page s limit) ?next = Inr (drop (nat limit) rest)"
    proof (rule Suc.IH[OF ok])
      show "orderDesc key (rows s) = (seen @ ?items) @ drop (nat limit) rest" using Suc.prems(2) by simp
      show "seen @ ?items = [] \<and> TrimSpace ?next = '''' \<or> seen @ ?items \<noteq> [] \<and> ?next = enc (key (last (seen @ ?items)))"
        using last True Suc.prems(3) by auto
    qed (use Suc.prems True in auto)
    then show ?thesis using pg True ne by simp
  next
    case False
    then show ?thesis using pg by simp
  qed
qed simp

text \<open>Following the cursors from the first page visits every row once, newest first.\<close>

lemma walk_all:
  assumes "ok s" "0 < limit" "limit + 1 \<le> most" "length (rows s) < fuel"
  shows "walk fuel (page s limit) '''' = Inr (orderDesc key (rows s))"
  using assms by (intro walk_rest[of s "[]"]) auto

end

end
