(* ===== verification/ChatService.thy ===== *)
theory ChatService
  imports ChatRepo Paging SessionHub Http
begin

text \<open>
  The chat server: \<open>server/chat/service/chat_service.go\<close>, the vector client of
  \<open>vectorman_client.go\<close> and the tenant metadata of \<open>dbman_client.go\<close>. The \<open>dbman\<close> server that the service calls is a record of
  operations on a state.
\<close>

record 's chatStore =
  cs_createRoom :: "'s \<Rightarrow> string \<Rightarrow> ChatRoom \<Rightarrow> string list \<Rightarrow> 's \<times> string result"
  cs_addMember :: "'s \<Rightarrow> string \<Rightarrow> string \<Rightarrow> string \<Rightarrow> 's \<times> unit result"
  cs_isMember :: "'s \<Rightarrow> string \<Rightarrow> string \<Rightarrow> string \<Rightarrow> 's \<times> bool result"
  cs_createMessage :: "'s \<Rightarrow> Message \<Rightarrow> 's \<times> Message result"
  cs_markRead :: "'s \<Rightarrow> string \<Rightarrow> string \<Rightarrow> string \<Rightarrow> string \<Rightarrow> 's \<times> unit result"
  cs_listMessages :: "'s \<Rightarrow> string \<Rightarrow> string \<Rightarrow> int \<Rightarrow> string option \<Rightarrow> 's \<times> Message list result"
  cs_searchMessages :: "'s \<Rightarrow> string \<Rightarrow> string \<Rightarrow> string option \<Rightarrow> int \<Rightarrow> string option \<Rightarrow> 's \<times> Message list result"
  cs_readers :: "'s \<Rightarrow> string \<Rightarrow> string \<Rightarrow> string \<Rightarrow> 's \<times> MessageRead list result"
  cs_lastRead :: "'s \<Rightarrow> string \<Rightarrow> string \<Rightarrow> string \<Rightarrow> 's \<times> string result"
  cs_unread :: "'s \<Rightarrow> string \<Rightarrow> string \<Rightarrow> string \<Rightarrow> 's \<times> nat result"
  cs_unreads :: "'s \<Rightarrow> string \<Rightarrow> string \<Rightarrow> 's \<times> RoomUnread list result"
  cs_listRooms :: "'s \<Rightarrow> string \<Rightarrow> string \<Rightarrow> int \<Rightarrow> time option \<Rightarrow> string option \<Rightarrow> 's \<times> ChatRoomSummary list result"

section \<open>Tenant metadata\<close>

definition GetTenantRedisMeta :: "Tenant result \<Rightarrow> TenantRedisMeta result" where
  "GetTenantRedisMeta tenant =
     (case tenant of
        Inl e \<Rightarrow> Inl e
      | Inr t \<Rightarrow> Inr \<lparr>rd_DeploymentMode = ToLower (TrimSpace (tn_DeploymentMode t)),
                      rd_DedicatedRedisAddr = TrimSpace (tn_DedicatedRedisAddr t), rd_IsActive = tn_IsActive t\<rparr>)"

definition GetTenantMQMeta :: "Tenant result \<Rightarrow> TenantMQMeta result" where
  "GetTenantMQMeta tenant =
     (case tenant of
        Inl e \<Rightarrow> Inl e
      | Inr t \<Rightarrow> Inr \<lparr>mq_DeploymentMode = ToLower (TrimSpace (tn_DeploymentMode t)),
                      mq_DedicatedLavinMQURL = TrimSpace (tn_DedicatedLavinMQURL t), mq_IsActive = tn_IsActive t\<rparr>)"

section \<open>The vector client\<close>

record VectormanClient =
  vc_endpoint :: string
  vc_enabled :: bool

definition NewVectormanClient :: "string \<Rightarrow> bool \<Rightarrow> VectormanClient" where
  "NewVectormanClient ep en = \<lparr>vc_endpoint = trimRightSlash (TrimSpace ep), vc_enabled = en\<rparr>"

text \<open>\<open>post\<close>: \<open>http\<close> is what the HTTP exchange gave for the URL and the payload.\<close>

definition vc_post :: "VectormanClient \<Rightarrow> (string \<Rightarrow> json \<Rightarrow> json outcome) \<Rightarrow> string \<Rightarrow> json \<Rightarrow> json result" where
  "vc_post m http path payload =
     (case http (vc_endpoint m @ path) payload of
        ReqErr e \<Rightarrow> Inl e
      | DoErr e \<Rightarrow> Inl e
      | Resp code decoded \<Rightarrow>
          if 300 \<le> code then Inl (''vectorman status '' @ show_int code) else decoded)"

definition IndexMessage ::
  "VectormanClient \<Rightarrow> (string \<Rightarrow> json \<Rightarrow> json outcome) \<Rightarrow> string \<Rightarrow> string \<Rightarrow> string \<Rightarrow> unit result" where
  "IndexMessage m http messageID roomID body =
     (if \<not> vc_enabled m then Inr ()
      else case vc_post m http ''/api/v1/vectors/messages/index''
          (JObj [(''message_id'', JStr messageID), (''room_id'', JStr roomID), (''text'', JStr body)]) of
        Inl e \<Rightarrow> Inl e | Inr _ \<Rightarrow> Inr ())"

fun jstring :: "json \<Rightarrow> string option" where
  "jstring (JStr s) = Some s"
| "jstring _ = None"

definition joption :: "string option \<Rightarrow> json" where
  "joption v = (case v of None \<Rightarrow> JNull | Some s \<Rightarrow> JStr s)"

definition SemanticSearch ::
  "VectormanClient \<Rightarrow> (string \<Rightarrow> json \<Rightarrow> json outcome) \<Rightarrow> string \<Rightarrow> string option \<Rightarrow> int \<Rightarrow> string list result" where
  "SemanticSearch m http query roomID limit =
     (if \<not> vc_enabled m then Inr []
      else case vc_post m http ''/api/v1/vectors/messages/search''
          (JObj [(''query'', JStr query), (''room_id'', joption roomID), (''limit'', JNum limit)]) of
        Inl e \<Rightarrow> Inl e
      | Inr resp \<Rightarrow>
          (case jget ''ids'' resp of
             None \<Rightarrow> Inr []
           | Some (JArr raw) \<Rightarrow> Inr (List.map_filter jstring raw)
           | Some _ \<Rightarrow> Inl ''invalid ids payload''))"

section \<open>Cursors\<close>

definition encodeMessageCursor :: "string \<Rightarrow> string" where
  "encodeMessageCursor messageID = EncodeToString messageID"

definition decodeMessageCursor :: "string \<Rightarrow> string result" where
  "decodeMessageCursor cursor =
     (case DecodeString cursor of
        None \<Rightarrow> Inl ''illegal base64 data''
      | Some decoded \<Rightarrow>
          let messageID = TrimSpace decoded in
          if messageID = '''' then Inl ''invalid cursor'' else Inr messageID)"

definition roomCursorTime :: "ChatRoomSummary \<Rightarrow> time" where
  "roomCursorTime item = (case su_LatestMessageAt item of Some at \<Rightarrow> at | None \<Rightarrow> su_CreatedAt item)"

definition encodeRoomCursor :: "time \<Rightarrow> string \<Rightarrow> string" where
  "encodeRoomCursor createdAt roomID = EncodeToString (show_int (wrap64 createdAt) @ '':'' @ roomID)"

definition decodeRoomCursor :: "string \<Rightarrow> (time \<times> string) result" where
  "decodeRoomCursor cursor =
     (case DecodeString cursor of
        None \<Rightarrow> Inl ''illegal base64 data''
      | Some decoded \<Rightarrow>
          (case SplitN2 decoded (CHR '':'') of
             [a, b] \<Rightarrow>
               (case ParseInt a of
                  (_, Some _) \<Rightarrow> Inl ''strconv.ParseInt: parsing error''
                | (nanos, None) \<Rightarrow>
                    let roomID = TrimSpace b in
                    if roomID = '''' then Inl ''invalid cursor room id'' else Inr (nanos, roomID))
           | _ \<Rightarrow> Inl ''invalid cursor format''))"

section \<open>Messages\<close>

record 's ChatService =
  ch_store :: "'s chatStore"
  ch_mq :: bool
  ch_useMQ :: bool
  ch_vector :: VectormanClient

definition IsMQEnabled :: "'s ChatService \<Rightarrow> bool" where
  "IsMQEnabled svc \<longleftrightarrow> ch_useMQ svc \<and> ch_mq svc"

definition messageCreated :: "Message \<Rightarrow> json" where
  "messageCreated m = JObj [(''event'', JStr ''message.created''), (''message_id'', JStr (ms_ID m)), (''room_id'', JStr (ms_RoomID m)),
     (''sender_id'', JStr (ms_SenderID m)), (''body'', JStr (ms_Body m)), (''created_at'', jtime (ms_CreatedAt m))]"

text \<open>
  What \<open>CreateMessage\<close> sends besides the call that stores the message: \<open>MQPublish\<close> is \<open>mq.Publish\<close> with the
  tenant, the key and the event, \<open>VecIndex\<close> is \<open>vector.IndexMessage\<close>. Their errors, and that of marking the
  message as read, are dropped.
\<close>

datatype chatEffect = MQPublish string string json | VecIndex string string string

definition svc_CreateMessage :: "'s ChatService \<Rightarrow> 's \<Rightarrow> Message \<Rightarrow> 's \<times> Message result \<times> chatEffect list" where
  "svc_CreateMessage svc s msg0 =
     (let msg = (if ms_MetaJSON msg0 = NoText then msg0\<lparr>ms_MetaJSON := Text (JObj [])\<rparr> else msg0) in
      case cs_createMessage (ch_store svc) s msg of
        (s', Inl e) \<Rightarrow> (s', Inl e, [])
      | (s', Inr created) \<Rightarrow>
          (fst (cs_markRead (ch_store svc) s' (ms_TenantID msg) (ms_RoomID created) (ms_SenderID created) (ms_ID created)),
           Inr created,
           (if IsMQEnabled svc then [MQPublish (ms_TenantID msg) ''message.created'' (messageCreated created)] else [])
           @ [VecIndex (ms_ID created) (ms_RoomID created) (ms_Body created)]))"

definition cursorID :: "string \<Rightarrow> string option result" where
  "cursorID cursor =
     (if TrimSpace cursor = '''' then Inr None
      else case decodeMessageCursor cursor of Inl _ \<Rightarrow> Inl ''cursor is invalid'' | Inr i \<Rightarrow> Inr (Some i))"

definition chat_ListMessages ::
  "'s ChatService \<Rightarrow> 's \<Rightarrow> string \<Rightarrow> string \<Rightarrow> int \<Rightarrow> string \<Rightarrow> 's \<times> (Message list \<times> string) result" where
  "chat_ListMessages svc s tenantID roomID limit0 cursor =
     (let limit = clampLimit 200 50 limit0 in
      case cursorID cursor of
        Inl e \<Rightarrow> (s, Inl e)
      | Inr cid \<Rightarrow>
          (case cs_listMessages (ch_store svc) s tenantID roomID (limit + 1) cid of
             (s', Inl e) \<Rightarrow> (s', Inl e)
           | (s', Inr items) \<Rightarrow> (s', Inr (cutPage (\<lambda>m. encodeMessageCursor (ms_ID m)) limit items))))"

text \<open>The hits of the semantic search come first, in the order of the items.\<close>

definition preferIDs :: "string list \<Rightarrow> Message list \<Rightarrow> Message list" where
  "preferIDs ids items =
     (let scored = filter (\<lambda>m. ms_ID m \<in> set ids) items in
      if scored = [] then items else scored @ filter (\<lambda>m. ms_ID m \<notin> set ids) items)"

definition chat_SearchMessages ::
  "'s ChatService \<Rightarrow> (string \<Rightarrow> json \<Rightarrow> json outcome) \<Rightarrow> 's \<Rightarrow> string \<Rightarrow> string \<Rightarrow> string option \<Rightarrow> int \<Rightarrow> string
   \<Rightarrow> 's \<times> (Message list \<times> string) result" where
  "chat_SearchMessages svc http s tenantID q roomID limit0 cursor =
     (let limit = clampLimit 100 30 limit0 in
      case cursorID cursor of
        Inl e \<Rightarrow> (s, Inl e)
      | Inr cid \<Rightarrow>
          (case cs_searchMessages (ch_store svc) s tenantID q roomID (limit + 1) cid of
             (s', Inl e) \<Rightarrow> (s', Inl e)
           | (s', Inr items0) \<Rightarrow>
               let (items, nextCursor) = cutPage (\<lambda>m. encodeMessageCursor (ms_ID m)) limit items0 in
               if cid \<noteq> None then (s', Inr (items, nextCursor))
               else case SemanticSearch (ch_vector svc) http q roomID limit of
                   Inl _ \<Rightarrow> (s', Inr (items, nextCursor))
                 | Inr ids \<Rightarrow> if ids = [] then (s', Inr (items, nextCursor))
                              else (s', Inr (preferIDs ids items, nextCursor))))"

text \<open>\<open>BuildMessageMeta\<close>; a nil slice of emojis is \<open>None\<close> and becomes \<open>null\<close>. Go writes the keys in order.\<close>

definition normalizedFileIDs :: "string option \<Rightarrow> string list \<Rightarrow> string list" where
  "normalizedFileIDs fileID fileIDs = seen_loop TrimSpace [] [] (case fileID of None \<Rightarrow> fileIDs | Some f \<Rightarrow> f # fileIDs)"

definition BuildMessageMeta :: "string option \<Rightarrow> string list \<Rightarrow> string list option \<Rightarrow> json" where
  "BuildMessageMeta fileID fileIDs emojis =
     (let ids = normalizedFileIDs fileID fileIDs in
      JObj ([(''emojis'', case emojis of None \<Rightarrow> JNull | Some es \<Rightarrow> jstrs es)]
        @ (if 0 < length ids then [(''file_id'', JStr (ids ! 0)), (''file_ids'', jstrs ids)] else [])))"

text \<open>The methods that pass their arguments on to the store.\<close>

definition chat_CreateRoom :: "'s ChatService \<Rightarrow> 's \<Rightarrow> string \<Rightarrow> ChatRoom \<Rightarrow> string list \<Rightarrow> 's \<times> string result" where
  "chat_CreateRoom svc s tenantID room memberIDs = cs_createRoom (ch_store svc) s tenantID room memberIDs"

definition chat_AddMember :: "'s ChatService \<Rightarrow> 's \<Rightarrow> string \<Rightarrow> string \<Rightarrow> string \<Rightarrow> 's \<times> unit result" where
  "chat_AddMember svc s tenantID roomID userID = cs_addMember (ch_store svc) s tenantID roomID userID"

definition chat_IsRoomMember :: "'s ChatService \<Rightarrow> 's \<Rightarrow> string \<Rightarrow> string \<Rightarrow> string \<Rightarrow> 's \<times> bool result" where
  "chat_IsRoomMember svc s tenantID roomID userID = cs_isMember (ch_store svc) s tenantID roomID userID"

definition chat_MarkReadUpTo :: "'s ChatService \<Rightarrow> 's \<Rightarrow> string \<Rightarrow> string \<Rightarrow> string \<Rightarrow> string \<Rightarrow> 's \<times> unit result" where
  "chat_MarkReadUpTo svc s tenantID roomID userID messageID = cs_markRead (ch_store svc) s tenantID roomID userID messageID"

definition chat_GetMessageReaders :: "'s ChatService \<Rightarrow> 's \<Rightarrow> string \<Rightarrow> string \<Rightarrow> string \<Rightarrow> 's \<times> MessageRead list result" where
  "chat_GetMessageReaders svc s tenantID roomID messageID = cs_readers (ch_store svc) s tenantID roomID messageID"

definition chat_GetLastReadMessageID :: "'s ChatService \<Rightarrow> 's \<Rightarrow> string \<Rightarrow> string \<Rightarrow> string \<Rightarrow> 's \<times> string result" where
  "chat_GetLastReadMessageID svc s tenantID roomID userID = cs_lastRead (ch_store svc) s tenantID roomID userID"

definition chat_GetUnreadCount :: "'s ChatService \<Rightarrow> 's \<Rightarrow> string \<Rightarrow> string \<Rightarrow> string \<Rightarrow> 's \<times> nat result" where
  "chat_GetUnreadCount svc s tenantID roomID userID = cs_unread (ch_store svc) s tenantID roomID userID"

definition chat_GetUnreadCounts :: "'s ChatService \<Rightarrow> 's \<Rightarrow> string \<Rightarrow> string \<Rightarrow> 's \<times> RoomUnread list result" where
  "chat_GetUnreadCounts svc s tenantID userID = cs_unreads (ch_store svc) s tenantID userID"

lemmas chat_passes [simp] = chat_CreateRoom_def chat_AddMember_def chat_IsRoomMember_def chat_MarkReadUpTo_def chat_GetMessageReaders_def chat_GetLastReadMessageID_def chat_GetUnreadCount_def chat_GetUnreadCounts_def

section \<open>Rooms\<close>

definition roomCursor :: "string \<Rightarrow> (time option \<times> string option) result" where
  "roomCursor cursor =
     (if TrimSpace cursor = '''' then Inr (None, None)
      else case decodeRoomCursor cursor of
          Inl _ \<Rightarrow> Inl ''cursor is invalid''
        | Inr (createdAt, roomID) \<Rightarrow> Inr (Some createdAt, Some roomID))"

definition chat_ListMyRooms ::
  "'s ChatService \<Rightarrow> 's \<Rightarrow> string \<Rightarrow> string \<Rightarrow> int \<Rightarrow> string \<Rightarrow> 's \<times> (ChatRoomSummary list \<times> string) result" where
  "chat_ListMyRooms svc s tenantID userID limit0 cursor =
     (let limit = clampLimit 200 50 limit0 in
      case roomCursor cursor of
        Inl e \<Rightarrow> (s, Inl e)
      | Inr (cAt, cRoom) \<Rightarrow>
          (case cs_listRooms (ch_store svc) s tenantID userID (limit + 1) cAt cRoom of
             (s', Inl e) \<Rightarrow> (s', Inl e)
           | (s', Inr items) \<Rightarrow> (s', Inr (cutPage (\<lambda>x. encodeRoomCursor (roomCursorTime x) (su_RoomID x)) limit items))))"


section \<open>The store of the running system\<close>

text \<open>The data base server as the store: its services over the repository.\<close>

definition repoStore :: "'p dbEnv \<Rightarrow> sqlEnv \<Rightarrow> pgText \<Rightarrow> 'p Repo chatStore" where
  "repoStore penv env pg =
     \<lparr>cs_createRoom = (\<lambda>r. CreateRoom r penv env), cs_addMember = (\<lambda>r. AddMember r penv env),
      cs_isMember = (\<lambda>r. IsRoomMember r penv env), cs_createMessage = (\<lambda>r. CreateMessage r penv env),
      cs_markRead = (\<lambda>r. MarkReadUpTo r penv env), cs_listMessages = (\<lambda>r. svc_ListMessages r penv env),
      cs_searchMessages = (\<lambda>r. svc_SearchMessages r penv env pg), cs_readers = (\<lambda>r. GetMessageReaders r penv env),
      cs_lastRead = (\<lambda>r. GetLastReadMessageID r penv env), cs_unread = (\<lambda>r. GetUnreadCount r penv env),
      cs_unreads = (\<lambda>r. GetUnreadCounts r penv env), cs_listRooms = (\<lambda>r. svc_ListMyRooms r penv env pg)\<rparr>"

section \<open>Cursors round trip\<close>

definition good_id :: "string \<Rightarrow> bool" where
  "good_id i \<longleftrightarrow> i \<noteq> '''' \<and> TrimSpace i = i"

lemma decode_encodeMessageCursor: "good_id i \<Longrightarrow> decodeMessageCursor (encodeMessageCursor i) = Inr i"
  by (simp add: decodeMessageCursor_def encodeMessageCursor_def DecodeString_EncodeToString good_id_def)

lemma decode_encodeRoomCursor:
  assumes "in_int64 at" "good_id i"
  shows "decodeRoomCursor (encodeRoomCursor at i) = Inr (at, i)"
proof -
  have "wrap64 at = at" using assms(1) by (intro wrap64_id) (simp_all add: in_int64_def)
  moreover have "SplitN2 (show_int at @ CHR '':'' # i) CHR '':'' = [show_int at, i]"
    by (rule SplitN2_append[OF colon_notin_show_int])
  ultimately show ?thesis
    using assms by (simp add: decodeRoomCursor_def encodeRoomCursor_def DecodeString_EncodeToString ParseInt_show good_id_def)
qed

lemma b64_char_plain: "k < 64 \<Longrightarrow> plain_char (b64_char k)"
  by (auto simp: plain_char_def b64_char_def)

lemma TrimSpace_EncodeToString: "s \<noteq> '''' \<Longrightarrow> TrimSpace (EncodeToString s) \<noteq> ''''"
proof -
  assume "s \<noteq> ''''"
  then obtain c cs where e: "EncodeToString s = c # cs"
    by (cases s rule: EncodeToString.cases) auto
  have plain: "plain_char x" if "x \<in> set (EncodeToString s)" for x
    using that b64_sextets_bound by (auto simp: EncodeToString_sextets b64_char_plain)
  then have "TrimSpace (c # cs) = c # cs"
    using e by (intro TrimSpace_hd_last) (metis last_in_set list.discI list.set_intros(1))+
  then show ?thesis using e by simp
qed


section \<open>Walking through a room's messages\<close>

definition ofResult :: "'a list result \<Rightarrow> 'a list" where
  "ofResult r = (case r of Inl _ \<Rightarrow> [] | Inr xs \<Rightarrow> xs)"

definition roomMessages :: "string \<Rightarrow> string \<Rightarrow> Database \<Rightarrow> Message list" where
  "roomMessages t roomID db = map scanMessage (filter (\<lambda>m. ms_TenantID m = t \<and> ms_RoomID m = roomID) (messages db))"

definition messages_pk :: "Database \<Rightarrow> bool" where
  "messages_pk db \<longleftrightarrow> distinct (map ms_ID (messages db)) \<and> (\<forall>m \<in> set (messages db). good_id (ms_ID m))"

definition fetchMessages :: "string \<Rightarrow> string \<Rightarrow> Database \<Rightarrow> int \<Rightarrow> string option \<Rightarrow> Message list" where
  "fetchMessages t roomID db n cur = ofResult (snd (sql_listMessages t roomID (clampLimit 200 50 n) cur db))"

definition okOption :: "'a result \<Rightarrow> 'a option" where
  "okOption r = (case r of Inl _ \<Rightarrow> None | Inr x \<Rightarrow> Some x)"

lemma ms_ID_scan [simp]: "ms_ID (scanMessage m) = ms_ID m"
  by (simp add: scanMessage_def)

lemma sort_key_map: "sort_key key (map f rows) = map f (sort_key (\<lambda>x. key (f x)) rows)"
proof (induction rows)
  case (Cons x rows)
  have "insort_key key (f x) (map f ys) = map f (insort_key (\<lambda>x. key (f x)) x ys)" for ys
    by (induction ys) auto
  with Cons show ?case by simp
qed simp

lemma orderDesc_map: "orderDesc key (map f rows) = map f (orderDesc (\<lambda>x. key (f x)) rows)"
  by (simp add: orderDesc_def sort_key_map rev_map)

lemma fetchMessages_rows:
  assumes "0 < n" "n \<le> 200"
  shows "fetchMessages t room db n cur =
    take (nat n) (filter (\<lambda>x. below cur (ms_ID x)) (orderDesc ms_ID (roomMessages t room db)))"
proof -
  have eq: "beforeID cur = below cur" by (auto simp: beforeID_def below_def fun_eq_iff split: option.splits)
  have "filter (\<lambda>m. ms_TenantID m = t \<and> ms_RoomID m = room \<and> below cur (ms_ID m)) (messages db)
      = filter (\<lambda>x. below cur (ms_ID x)) (filter (\<lambda>m. ms_TenantID m = t \<and> ms_RoomID m = room) (messages db))"
    by (simp add: conj_ac)
  then show ?thesis
    using assms
    by (simp add: fetchMessages_def sql_listMessages_def clampLimit_in_range limited_def ofResult_def eq roomMessages_def
        orderDesc_map filter_map o_def take_map filter_orderDesc)
qed

interpretation msgs: cursor_paging ms_ID encodeMessageCursor "\<lambda>c. okOption (decodeMessageCursor c)" messages_pk
    "fetchMessages t roomID" "roomMessages t roomID" 200 for t roomID
proof
  fix s n cur x
  show "0 < n \<Longrightarrow> n \<le> 200 \<Longrightarrow> fetchMessages t roomID s n cur =
      take (nat n) (filter (\<lambda>x. below cur (ms_ID x)) (orderDesc ms_ID (roomMessages t roomID s)))"
    by (rule fetchMessages_rows)
  assume ok: "messages_pk s"
  show "distinct (map ms_ID (roomMessages t roomID s))"
    using ok by (auto simp: messages_pk_def roomMessages_def o_def distinct_map_filter)
  assume "x \<in> set (roomMessages t roomID s)"
  then have "good_id (ms_ID x)" using ok by (auto simp: messages_pk_def roomMessages_def)
  then show "okOption (decodeMessageCursor (encodeMessageCursor (ms_ID x))) = Some (ms_ID x)"
    "TrimSpace (encodeMessageCursor (ms_ID x)) \<noteq> ''''"
    by (simp add: decode_encodeMessageCursor okOption_def)
      (simp add: \<open>good_id (ms_ID x)\<close>[unfolded good_id_def] encodeMessageCursor_def TrimSpace_EncodeToString)
qed

text \<open>On a data base that does not change meanwhile, the service's pages are the pages of the contract.\<close>

lemma chat_ListMessages_page:
  assumes "ch_store svc = repoStore penv env pg" "snd (DBForTenant (router r) t penv) = Inr pool" "fault env 0 = None"
    and "0 < limit" "limit \<le> 199"
  shows "snd (chat_ListMessages svc r t room limit cursor) = msgs.page t room (pools r pool) limit cursor"
proof -
  have out: "snd (cs_listMessages (ch_store svc) r t room n cur) = Inr (fetchMessages t room (pools r pool) n cur)" for n cur
    using withPool_result[OF assms(2), of "exec env 0 (sql_listMessages t room (clampLimit 200 50 n) cur)"] assms(3)
      clampLimit_bounds[of 50 200 n]
    by (simp add: assms(1) repoStore_def svc_ListMessages_def ListMessages_def exec_def fetchMessages_def ofResult_def
        sql_listMessages_def limited_def)
  have out': "snd (case cs_listMessages (ch_store svc) r t room n cur of (s', Inl e) \<Rightarrow> (s', Inl e)
      | (s', Inr items) \<Rightarrow> (s', Inr (f items))) = Inr (f (fetchMessages t room (pools r pool) n cur))"
    for n cur and f :: "Message list \<Rightarrow> Message list \<times> string"
    using out[of n cur] by (auto split: prod.splits sum.splits)
  have "clampLimit 200 50 limit = limit" using assms(4,5) by (simp add: clampLimit_in_range)
  then show ?thesis
    unfolding msgs.page_def
    by (cases "decodeMessageCursor cursor") (simp_all add: chat_ListMessages_def cursorID_def okOption_def out')
qed

lemma messages_walk:
  assumes "ch_store svc = repoStore penv env pg" "snd (DBForTenant (router r) t penv) = Inr pool" "fault env 0 = None"
    and "messages_pk (pools r pool)" "0 < limit" "limit \<le> 199" "length (roomMessages t room (pools r pool)) < fuel"
  shows "walk fuel (\<lambda>cur. snd (chat_ListMessages svc r t room limit cur)) ''''
    = Inr (orderDesc ms_ID (roomMessages t room (pools r pool)))"
proof -
  have "(\<lambda>cur. snd (chat_ListMessages svc r t room limit cur)) = msgs.page t room (pools r pool) limit"
    using chat_ListMessages_page[OF assms(1-3,5,6)] by blast
  then show ?thesis using msgs.walk_all[OF assms(4,5), of t room fuel] assms(6,7) by simp
qed

section \<open>Walking through a user's rooms\<close>

definition rooms_pk :: "pgText \<Rightarrow> string \<Rightarrow> string \<Rightarrow> Database \<Rightarrow> bool" where
  "rooms_pk pg t userID db \<longleftrightarrow>
     distinct (map (\<lambda>m. (me_RoomID m, me_UserID m)) (room_members db)) \<and> distinct (map cr_ID (chat_rooms db))
   \<and> distinct (map us_ID (users db))
   \<and> (\<forall>s \<in> set (myRooms pg t userID db). good_id (su_RoomID s) \<and> in_int64 (fst (activityKey s)))"

definition fetchRooms :: "pgText \<Rightarrow> string \<Rightarrow> string \<Rightarrow> Database \<Rightarrow> int \<Rightarrow> (time \<times> string) option \<Rightarrow> ChatRoomSummary list" where
  "fetchRooms pg t userID db n cur = ofResult (snd (sql_listRooms pg t userID (clampLimit 200 50 n) cur db))"

lemma su_RoomID_summaryOf [simp]: "su_RoomID (summaryOf pg t me cr db) = cr_ID cr"
  by (simp add: summaryOf_def Let_def)

lemma at_most_one:
  "distinct (map key rows) \<Longrightarrow> length (filter (\<lambda>x. P x \<and> key x = k) rows) \<le> 1"
proof (induction rows)
  case (Cons x rows)
  then have "key x = k \<Longrightarrow> filter (\<lambda>x. P x \<and> key x = k) rows = []" by (auto simp: filter_empty_conv image_iff)
  with Cons show ?case by (cases "key x = k") simp_all
qed simp

lemma distinct_join:
  assumes "\<And>x. length (f x) \<le> 1" "\<And>x y. y \<in> set (f x) \<Longrightarrow> g y = h x" "distinct (map h xs)"
  shows "distinct (map g (concat (map f xs)))"
  using assms(3)
proof (induction xs)
  case (Cons x xs)
  have "distinct (map g (f x))" using assms(1)[of x] by (cases "f x") simp_all
  with Cons show ?case using assms(2) by fastforce
qed simp

text \<open>The joins of the room list give at most one row per membership.\<close>

lemma myRooms_distinct:
  assumes "rooms_pk pg t u db"
  shows "distinct (map su_RoomID (myRooms pg t u db))"
  unfolding myRooms_def
proof (rule distinct_join[where h = me_RoomID])
  fix rm x
  let ?rooms = "filter (\<lambda>c. cr_TenantID c = t \<and> cr_ID c = me_RoomID rm) (chat_rooms db)"
  let ?users = "filter (\<lambda>x. us_TenantID x = t \<and> us_ID x = u) (users db)"
  let ?join = "concat (map (\<lambda>cr. map (\<lambda>me. summaryOf pg t me cr db) ?users) ?rooms)"
  have "length ?rooms \<le> 1" "length ?users \<le> 1"
    using assms at_most_one[of cr_ID "chat_rooms db"] at_most_one[of us_ID "users db"] by (simp_all add: rooms_pk_def)
  then show "length ?join \<le> 1" by (cases ?rooms) simp_all
  show "x \<in> set ?join \<Longrightarrow> su_RoomID x = me_RoomID rm" by auto
next
  let ?rms = "filter (\<lambda>m. me_TenantID m = t \<and> me_UserID m = u) (room_members db)"
  have "distinct (map (\<lambda>m. (me_RoomID m, me_UserID m)) ?rms)"
    using assms by (simp add: rooms_pk_def distinct_map_filter)
  then show "distinct (map me_RoomID ?rms)" by (auto simp: distinct_map inj_on_def)
qed

lemma activityKey_snd [simp]: "snd (activityKey s) = su_RoomID s"
  by (simp add: activityKey_def)

lemma activityKey_time: "fst (activityKey s) = roomCursorTime s"
  by (simp add: activityKey_def roomCursorTime_def)

lemma beforeRoom_below: "beforeRoom cur s \<longleftrightarrow> below cur (activityKey s)"
  by (auto simp: beforeRoom_def below_def less_prod_def activityKey_def split: option.splits)

lemma fetchRooms_rows:
  assumes "0 < n" "n \<le> 200"
  shows "fetchRooms pg t u db n cur =
    take (nat n) (filter (\<lambda>x. below cur (activityKey x)) (orderDesc activityKey (myRooms pg t u db)))"
  using assms by (simp add: fetchRooms_def sql_listRooms_def clampLimit_in_range limited_def ofResult_def
      beforeRoom_below[abs_def] filter_orderDesc)

definition encRoom :: "time \<times> string \<Rightarrow> string" where
  "encRoom k = encodeRoomCursor (fst k) (snd k)"

interpretation rooms: cursor_paging activityKey encRoom "\<lambda>c. okOption (decodeRoomCursor c)" "rooms_pk pg t u"
    "fetchRooms pg t u" "myRooms pg t u" 200 for pg t u
proof
  fix s n cur x
  show "0 < n \<Longrightarrow> n \<le> 200 \<Longrightarrow> fetchRooms pg t u s n cur =
      take (nat n) (filter (\<lambda>x. below cur (activityKey x)) (orderDesc activityKey (myRooms pg t u s)))"
    by (rule fetchRooms_rows)
  assume ok: "rooms_pk pg t u s"
  show "distinct (map activityKey (myRooms pg t u s))"
    using myRooms_distinct[OF ok] distinct_map[of snd "map activityKey (myRooms pg t u s)"] by (simp add: o_def)
  assume "x \<in> set (myRooms pg t u s)"
  then have good: "good_id (su_RoomID x)" "in_int64 (fst (activityKey x))" using ok by (auto simp: rooms_pk_def)
  then show "okOption (decodeRoomCursor (encRoom (activityKey x))) = Some (activityKey x)"
    by (simp add: encRoom_def decode_encodeRoomCursor okOption_def prod_eq_iff)
  show "TrimSpace (encRoom (activityKey x)) \<noteq> ''''"
    unfolding encRoom_def encodeRoomCursor_def by (rule TrimSpace_EncodeToString) simp
qed

lemma chat_ListMyRooms_page:
  assumes "ch_store svc = repoStore penv env pg" "snd (DBForTenant (router r) t penv) = Inr pool" "fault env 0 = None"
    and "0 < limit" "limit \<le> 199"
  shows "snd (chat_ListMyRooms svc r t u limit cursor) = rooms.page pg t u (pools r pool) limit cursor"
proof -
  define parts where "parts = (\<lambda>c :: (time \<times> string) option. case c of None \<Rightarrow> (None, None) | Some (at, rid) \<Rightarrow> (Some at, Some rid))"
  have out: "snd (cs_listRooms (ch_store svc) r t u n (fst (parts c)) (snd (parts c))) = Inr (fetchRooms pg t u (pools r pool) n c)" for n c
    using withPool_result[OF assms(2), of "exec env 0 (sql_listRooms pg t u (clampLimit 200 50 n) c)"] assms(3)
      clampLimit_bounds[of 50 200 n]
    by (cases c) (auto simp: parts_def assms(1) repoStore_def svc_ListMyRooms_def ListMyRooms_def exec_def fetchRooms_def
        ofResult_def sql_listRooms_def limited_def)
  have out': "snd (case cs_listRooms (ch_store svc) r t u n (fst (parts c)) (snd (parts c)) of (s', Inl e) \<Rightarrow> (s', Inl e)
      | (s', Inr items) \<Rightarrow> (s', Inr (f items))) = Inr (f (fetchRooms pg t u (pools r pool) n c))"
    for n c and f :: "ChatRoomSummary list \<Rightarrow> ChatRoomSummary list \<times> string"
    using out[of n c] by (auto split: prod.splits sum.splits)
  have none: "parts None = (None, None)" and some: "parts (Some (at, rid)) = (Some at, Some rid)" for at rid
    by (simp_all add: parts_def)
  note pages = out'[of _ _ None, unfolded none fst_conv snd_conv] out'[of _ _ "Some (at, rid)" for at rid, unfolded some fst_conv snd_conv]
  have "clampLimit 200 50 limit = limit" using assms(4,5) by (simp add: clampLimit_in_range)
  then show ?thesis
    unfolding rooms.page_def
    by (cases "decodeRoomCursor cursor")
      (auto simp: chat_ListMyRooms_def roomCursor_def okOption_def pages encRoom_def activityKey_time)
qed

lemma rooms_walk:
  assumes "ch_store svc = repoStore penv env pg" "snd (DBForTenant (router r) t penv) = Inr pool" "fault env 0 = None"
    and "rooms_pk pg t u (pools r pool)" "0 < limit" "limit \<le> 199" "length (myRooms pg t u (pools r pool)) < fuel"
  shows "walk fuel (\<lambda>cur. snd (chat_ListMyRooms svc r t u limit cur)) ''''
    = Inr (orderDesc activityKey (myRooms pg t u (pools r pool)))"
proof -
  have "(\<lambda>cur. snd (chat_ListMyRooms svc r t u limit cur)) = rooms.page pg t u (pools r pool) limit"
    using chat_ListMyRooms_page[OF assms(1-3,5,6)] by blast
  then show ?thesis using rooms.walk_all[OF assms(4,5), of fuel] assms(6,7) by simp
qed


section \<open>What a new message leaves behind\<close>

lemma markRead_keeps_messages: "messages (fst (sql_markRead env t r u mid db)) = messages db"
  by (auto simp: sql_markRead_def Let_def)

lemma withPool_keeps:
  assumes "\<And>db. f (fst (st db)) = f db"
  shows "f (pools (fst (withPool r penv t st)) pool) = f (pools r pool)"
  using assms by (auto simp: withPool_def split: prod.splits sum.splits) (metis fst_conv)

lemma MarkReadUpTo_messages: "messages (pools (fst (MarkReadUpTo r penv env t room u mid)) pool) = messages (pools r pool)"
  unfolding MarkReadUpTo_def
  by (rule withPool_keeps) (simp add: exec_def markRead_keeps_messages split: option.split)

lemma insertMessage_cases:
  "case exec env 0 (sql_insertMessage env m) db of
     (db', Inl e) \<Rightarrow> db' = db
   | (db', Inr m') \<Rightarrow> db' = db\<lparr>messages := messages db @ [m']\<rparr> \<and> m' = m\<lparr>ms_ID := genUUID env 0, ms_CreatedAt := sqlNow env\<rparr>"
  by (auto simp: exec_def sql_insertMessage_def Let_def split: option.splits)

lemma CreateMessage_cases:
  "case CreateMessage r penv env m of
     (r', Inl e) \<Rightarrow> pools r' = pools r
   | (r', Inr m') \<Rightarrow> (\<exists>pool. snd (DBForTenant (router r) (ms_TenantID m) penv) = Inr pool
        \<and> pools r' = (pools r)(pool := (pools r pool)\<lparr>messages := messages (pools r pool) @ [m']\<rparr>))
        \<and> m' = m\<lparr>ms_ID := genUUID env 0, ms_CreatedAt := sqlNow env\<rparr>"
proof (cases "snd (DBForTenant (router r) (ms_TenantID m) penv)")
  case (Inr pool)
  then show ?thesis
    using insertMessage_cases[where env = env and m = m and db = "pools r pool"]
    by (auto simp: CreateMessage_def withPool_def split: prod.splits sum.splits)
qed (auto simp: CreateMessage_def withPool_def split: prod.splits)

definition metaOf :: "Message \<Rightarrow> Message" where
  "metaOf m = (if ms_MetaJSON m = NoText then m\<lparr>ms_MetaJSON := Text (JObj [])\<rparr> else m)"

lemma metaOf_tenant [simp]: "ms_TenantID (metaOf m) = ms_TenantID m"
  by (simp add: metaOf_def)

section \<open>Search\<close>

lemma preferIDs_partition:
  "preferIDs ids items = filter (\<lambda>m. ms_ID m \<in> set ids) items @ filter (\<lambda>m. ms_ID m \<notin> set ids) items"
  by (auto simp: preferIDs_def Let_def filter_empty_conv filter_id_conv)

section \<open>Properties\<close>


definition plainText :: pgText where
  "plainText = \<lparr>pgMatch = (\<lambda>q b. q = b), pgMentions = (\<lambda>_. []), pgLower = id, pgLeft120 = id, pgBeforeAt = id\<rparr>"

definition chatSvc :: "string Repo ChatService" where
  "chatSvc = \<lparr>ch_store = repoStore acmeEnv chatEnv plainText,
     ch_mq = True, ch_useMQ = True, ch_vector = NewVectormanClient ''http://v/'' True\<rparr>"

definition chatRepoEx :: "Database \<Rightarrow> string Repo" where
  "chatRepoEx db = \<lparr>router = NewTenantDBRouterWithProvider ''shared'', pools = (\<lambda>_. db)\<rparr>"

lemma chatRepoEx_pool: "snd (DBForTenant (router (chatRepoEx db)) ''acme'' acmeEnv) = Inr ''pg://acme''"
  by (simp add: dbr.answer TrimSpace_eval chatRepoEx_def acmeEnv_def acme_def in_force_def db_view_def
      NewTenantDBRouterWithProvider_def db_wants_def)

lemma chatRepoEx_pools [simp]: "pools (chatRepoEx db) p = db"
  by (simp add: chatRepoEx_def)

lemma chatEnv_fault [simp]: "fault chatEnv k = None"
  by (simp add: chatEnv_def)

lemma good_ids: "good_id ''m1''" "good_id ''m2''" "good_id ''r''"
  by (simp_all add: good_id_def TrimSpace_eval)

lemma readDB_messages: "messages readDB = [msgAt ''m1'' 10, msgAt ''m2'' 20]"
  by (simp add: readDB_def)



text \<open>
  Listing one's rooms. In the same way the cursors of \<open>ListMyRooms\<close>, made of the time of the last activity and
  the room id, lead through every room of the user exactly once, the most recently active first.
\<close>

theorem ListMyRooms_walk:
  assumes "ch_store svc = repoStore penv env pg" and "snd (DBForTenant (router r) t penv) = Inr pool" and "fault env 0 = None"
    and "rooms_pk pg t u (pools r pool)" and "0 < limit" and "limit \<le> 199"
    and "length (myRooms pg t u (pools r pool)) < fuel"
  shows "walk fuel (\<lambda>cur. snd (chat_ListMyRooms svc r t u limit cur)) ''''
    = Inr (orderDesc activityKey (myRooms pg t u (pools r pool)))"
  by (rule rooms_walk) (use assms in auto)

definition roomRow :: "string \<Rightarrow> time \<Rightarrow> ChatRoom" where
  "roomRow i at = \<lparr>cr_TenantID = ''acme'', cr_ID = i, cr_Name = i, cr_RoomType = ''group'', cr_CreatedBy = ''ada'', cr_CreatedAt = at\<rparr>"

definition memberOf :: "string \<Rightarrow> string \<Rightarrow> memberRow" where
  "memberOf i u = \<lparr>me_TenantID = ''acme'', me_RoomID = i, me_UserID = u, me_JoinedAt = 0\<rparr>"

definition roomsDB :: Database where
  "roomsDB = readDB\<lparr>chat_rooms := [roomRow ''r'' 1, roomRow ''m2'' 5], room_members := [memberOf ''r'' ''ada'', memberOf ''m2'' ''ada'']\<rparr>"

lemma roomsDB_sel:
  "chat_rooms roomsDB = [roomRow ''r'' 1, roomRow ''m2'' 5]" "room_members roomsDB = [memberOf ''r'' ''ada'', memberOf ''m2'' ''ada'']"
  "users roomsDB = [userRow ''ada'', userRow ''bob'']" "messages roomsDB = [msgAt ''m1'' 10, msgAt ''m2'' 20]"
  by (simp_all add: roomsDB_def readDB_def chatDB_def)

lemma roomsDB_rooms:
  "myRooms plainText ''acme'' ''ada'' roomsDB =
     [summaryOf plainText ''acme'' (userRow ''ada'') (roomRow ''r'' 1) roomsDB, summaryOf plainText ''acme'' (userRow ''ada'') (roomRow ''m2'' 5) roomsDB]"
  by (simp add: myRooms_def roomsDB_sel) (simp add: roomRow_def memberOf_def userRow_def)

lemma roomsDB_latest:
  "latestMessage ''acme'' ''r'' roomsDB = Some (msgAt ''m2'' 20)" "latestMessage ''acme'' ''m2'' roomsDB = None"
  by (simp_all add: latestMessage_def roomsDB_sel) (simp_all add: msgAt_def orderDesc_def)

lemma roomsDB_keys:
  "activityKey (summaryOf plainText ''acme'' (userRow ''ada'') (roomRow ''r'' 1) roomsDB) = (20, ''r'')"
  "activityKey (summaryOf plainText ''acme'' (userRow ''ada'') (roomRow ''m2'' 5) roomsDB) = (5, ''m2'')"
  by (simp_all add: activityKey_def summaryOf_def Let_def roomsDB_latest roomRow_def) (simp_all add: msgAt_def)

theorem ListMyRooms_walk_witness:
  "walk 3 (\<lambda>cur. snd (chat_ListMyRooms chatSvc (chatRepoEx roomsDB) ''acme'' ''ada'' 1 cur)) ''''
     = Inr [summaryOf plainText ''acme'' (userRow ''ada'') (roomRow ''r'' 1) roomsDB, summaryOf plainText ''acme'' (userRow ''ada'') (roomRow ''m2'' 5) roomsDB]"
proof -
  have pk: "rooms_pk plainText ''acme'' ''ada'' roomsDB"
    by (simp add: rooms_pk_def roomsDB_rooms roomsDB_sel roomsDB_keys in_int64_def)
       (simp add: roomRow_def memberOf_def userRow_def good_ids)
  have "orderDesc activityKey (myRooms plainText ''acme'' ''ada'' roomsDB) = myRooms plainText ''acme'' ''ada'' roomsDB"
    by (simp add: orderDesc_def roomsDB_rooms roomsDB_keys)
  then show ?thesis
    using ListMyRooms_walk[of chatSvc acmeEnv chatEnv plainText "chatRepoEx roomsDB" "''acme''"
        "''pg://acme''" "''ada''" 1 3] pk
    by (simp add: chatRepoEx_pool roomsDB_rooms chatSvc_def)
qed

lemma svc_CreateMessage_outcome:
  assumes "ch_store svc = repoStore penv env pg" and "svc_CreateMessage svc r msg = (r', out, effs)"
  shows "case out of
     Inl e \<Rightarrow> pools r' = pools r \<and> effs = []
   | Inr m \<Rightarrow> (\<exists>pool. snd (DBForTenant (router r) (ms_TenantID msg) penv) = Inr pool
       \<and> (\<forall>p. messages (pools r' p) = (if p = pool then messages (pools r p) @ [m] else messages (pools r p))))
       \<and> m = (metaOf msg)\<lparr>ms_ID := genUUID env 0, ms_CreatedAt := sqlNow env\<rparr>
       \<and> effs = (if ch_useMQ svc \<and> ch_mq svc then [MQPublish (ms_TenantID msg) ''message.created'' (messageCreated m)] else [])
              @ [VecIndex (ms_ID m) (ms_RoomID m) (ms_Body m)]"
proof -
  note run = assms(2)[unfolded svc_CreateMessage_def metaOf_def[symmetric] Let_def assms(1)]
  show ?thesis
  proof (cases "CreateMessage r penv env (metaOf msg)")
    case (Pair r1 res)
    show ?thesis
    proof (cases res)
      case (Inl e)
      then show ?thesis using run CreateMessage_cases[where r = r and penv = penv and env = env and m = "metaOf msg"] Pair by (auto simp: repoStore_def)
    next
      case (Inr m)
      have "out = Inr m" "r' = fst (MarkReadUpTo r1 penv env (ms_TenantID msg) (ms_RoomID m) (ms_SenderID m) (ms_ID m))"
        using run Pair Inr by (simp_all add: repoStore_def)
      then show ?thesis
        using run CreateMessage_cases[where r = r and penv = penv and env = env and m = "metaOf msg"] Pair Inr
        by (auto simp: repoStore_def MarkReadUpTo_messages IsMQEnabled_def)
    qed
  qed
qed

text \<open>
  What a new message leaves behind. If \<open>CreateMessage\<close> succeeds, exactly one message was appended, in the tenant's
  data base: the given one with a new id and the current time (and empty metadata as an empty object), which is also the
  result; one event with it is published if the queue is enabled, and it is offered for indexing. If it fails, no
  data base has changed and nothing was published.
\<close>

theorem CreateMessage_stored:
  assumes "ch_store svc = repoStore penv env pg" and "svc_CreateMessage svc r msg = (r', out, effs)"
  shows "case out of
     Inl e \<Rightarrow> pools r' = pools r \<and> effs = []
   | Inr m \<Rightarrow> (\<exists>pool. snd (DBForTenant (router r) (ms_TenantID msg) penv) = Inr pool
       \<and> (\<forall>p. messages (pools r' p) = (if p = pool then messages (pools r p) @ [m] else messages (pools r p))))
       \<and> m = (metaOf msg)\<lparr>ms_ID := genUUID env 0, ms_CreatedAt := sqlNow env\<rparr>
       \<and> effs = (if ch_useMQ svc \<and> ch_mq svc then [MQPublish (ms_TenantID msg) ''message.created'' (messageCreated m)] else [])
              @ [VecIndex (ms_ID m) (ms_RoomID m) (ms_Body m)]"
  by (rule svc_CreateMessage_outcome[OF assms])

definition newMsg :: Message where
  "newMsg = \<lparr>ms_TenantID = ''acme'', ms_ID = '''', ms_RoomID = ''r'', ms_SenderID = ''ada'', ms_Body = ''hello'', ms_MetaJSON = NoText, ms_CreatedAt = 0\<rparr>"

definition newCreated :: Message where
  "newCreated = newMsg\<lparr>ms_ID := ''id0'', ms_CreatedAt := 100, ms_MetaJSON := Text (JObj [])\<rparr>"

lemma chatSvc_creates:
  assumes "ms_TenantID m = ''acme''" "ms_RoomID m = ''r''" "ms_SenderID m = ''ada''" "ms_MetaJSON m \<noteq> BadText"
  shows "fst (snd (svc_CreateMessage chatSvc (chatRepoEx roomsDB) m)) = Inr ((metaOf m)\<lparr>ms_ID := ''id0'', ms_CreatedAt := 100\<rparr>)"
proof -
  have t: "tenants roomsDB = [chatTenant]" by (simp add: roomsDB_def readDB_def chatDB_def)
  have "hasTenant roomsDB ''acme''" "hasRoom roomsDB ''r''" "hasUser roomsDB ''ada''" "''id0'' \<notin> set (map ms_ID (messages roomsDB))"
    by (simp_all add: hasTenant_def hasRoom_def hasUser_def roomsDB_sel t) (simp_all add: chatTenant_def roomRow_def userRow_def msgAt_def)
  moreover have "\<exists>j. ms_MetaJSON (metaOf m) = Text j" using assms(4) by (cases "ms_MetaJSON m") (simp_all add: metaOf_def)
  ultimately have "snd (sql_insertMessage chatEnv (metaOf m) roomsDB) = Inr ((metaOf m)\<lparr>ms_ID := ''id0'', ms_CreatedAt := 100\<rparr>)"
    using assms by (auto simp: sql_insertMessage_def metaOf_def chatEnv_def Let_def)
  with withPool_result[OF chatRepoEx_pool, of roomsDB "exec chatEnv 0 (sql_insertMessage chatEnv (metaOf m))"]
  have "snd (CreateMessage (chatRepoEx roomsDB) acmeEnv chatEnv (metaOf m)) = Inr ((metaOf m)\<lparr>ms_ID := ''id0'', ms_CreatedAt := 100\<rparr>)"
    by (simp add: CreateMessage_def exec_def assms(1))
  then show ?thesis
    unfolding svc_CreateMessage_def metaOf_def[symmetric] Let_def
    by (cases "CreateMessage (chatRepoEx roomsDB) acmeEnv chatEnv (metaOf m)") (simp add: chatSvc_def repoStore_def)
qed

lemma newMsg_created: "fst (snd (svc_CreateMessage chatSvc (chatRepoEx roomsDB) newMsg)) = Inr newCreated"
  by (subst chatSvc_creates) (simp_all add: newMsg_def newCreated_def metaOf_def)

theorem CreateMessage_stored_witness:
  "case svc_CreateMessage chatSvc (chatRepoEx roomsDB) newMsg of (r', out, effs) \<Rightarrow>
     messages (pools r' ''pg://acme'') = messages roomsDB @ [newCreated] \<and> messages (pools r' ''shared'') = messages roomsDB
     \<and> effs = [MQPublish ''acme'' ''message.created'' (messageCreated newCreated), VecIndex ''id0'' ''r'' ''hello'']"
proof (cases "svc_CreateMessage chatSvc (chatRepoEx roomsDB) newMsg")
  case (fields r' out effs)
  have "out = Inr newCreated" using newMsg_created fields by simp
  moreover have "ch_store chatSvc = repoStore acmeEnv chatEnv plainText" "ch_useMQ chatSvc" "ch_mq chatSvc"
    by (simp_all add: chatSvc_def)
  moreover have "ms_TenantID newMsg = ''acme''" "ms_ID newCreated = ''id0''" "ms_RoomID newCreated = ''r''" "ms_Body newCreated = ''hello''"
    by (simp_all add: newMsg_def newCreated_def)
  ultimately show ?thesis
    using CreateMessage_stored[of chatSvc acmeEnv chatEnv plainText, OF _ fields] chatRepoEx_pool fields by simp
qed

definition withoutVector :: "'s ChatService \<Rightarrow> 's ChatService" where
  "withoutVector svc = svc\<lparr>ch_vector := (ch_vector svc)\<lparr>vc_enabled := False\<rparr>\<rparr>"

definition hits :: "'s ChatService \<Rightarrow> (string \<Rightarrow> json \<Rightarrow> json outcome) \<Rightarrow> string \<Rightarrow> string option \<Rightarrow> int \<Rightarrow> string \<Rightarrow> string list" where
  "hits svc http q room limit cursor =
     (case SemanticSearch (ch_vector svc) http q room (clampLimit 100 30 limit) of
        Inl _ \<Rightarrow> [] | Inr ids \<Rightarrow> if TrimSpace cursor = '''' then ids else [])"

text \<open>
  The semantic index only reorders. Whatever the vector server answers, \<open>SearchMessages\<close> has the errors, the
  cursor and the page that it has without the vector server, except that on the first page the messages that the
  vector server named come before the others, both groups in their old order; an error of the vector server
  changes nothing.
\<close>

theorem SearchMessages_reorders:
  "case (chat_SearchMessages svc http s t q room limit cursor, chat_SearchMessages (withoutVector svc) http s t q room limit cursor) of
     ((s1, Inr (items, nc)), (s2, Inr (items0, nc0))) \<Rightarrow> s1 = s2 \<and> nc = nc0
       \<and> items = filter (\<lambda>m. ms_ID m \<in> set (hits svc http q room limit cursor)) items0
               @ filter (\<lambda>m. ms_ID m \<notin> set (hits svc http q room limit cursor)) items0
   | (r1, r2) \<Rightarrow> r1 = r2"
  unfolding preferIDs_partition[symmetric]
proof -
  have none: "preferIDs [] items = items" for items by (simp add: preferIDs_def)
  have cur: "cursorID cursor = Inr None \<longleftrightarrow> TrimSpace cursor = ''''" by (auto simp: cursorID_def split: sum.splits)
  show "case (chat_SearchMessages svc http s t q room limit cursor, chat_SearchMessages (withoutVector svc) http s t q room limit cursor) of
     ((s1, Inr (items, nc)), (s2, Inr (items0, nc0))) \<Rightarrow> s1 = s2 \<and> nc = nc0 \<and> items = preferIDs (hits svc http q room limit cursor) items0
   | (r1, r2) \<Rightarrow> r1 = r2"
    by (cases "cursorID cursor")
      (use cur in \<open>auto simp: chat_SearchMessages_def withoutVector_def SemanticSearch_def Let_def hits_def none
        split: prod.splits sum.splits if_splits option.splits\<close>)
qed

text \<open>
  The kind of a message agrees with how it was sent. The room list classifies a message whose metadata
  \<open>BuildMessageMeta\<close> made as a file exactly if it was sent with a file id that is not blank, else as an emoji
  exactly if it was sent with an emoji, else as text.
\<close>

theorem messageKind_of_BuildMessageMeta:
  assumes "ms_MetaJSON m = Text (BuildMessageMeta fileID fileIDs emojis)"
  shows "messageKind (Some m) =
    (if \<exists>f \<in> set_option fileID \<union> set fileIDs. TrimSpace f \<noteq> '''' then ''file''
     else if \<exists>es. emojis = Some es \<and> es \<noteq> [] then ''emoji'' else ''text'')"
proof -
  let ?ids = "normalizedFileIDs fileID fileIDs"
  let ?raw = "case fileID of None \<Rightarrow> fileIDs | Some f \<Rightarrow> f # fileIDs"
  have set: "set ?ids = {v. v \<in> TrimSpace ` set ?raw \<and> v \<noteq> ''''}"
    by (auto simp: normalizedFileIDs_def seen_loop_spec)
  have raw: "set ?raw = set_option fileID \<union> set fileIDs" by (cases fileID) auto
  have ids: "?ids = [] \<longleftrightarrow> \<not> (\<exists>f \<in> set_option fileID \<union> set fileIDs. TrimSpace f \<noteq> '''')"
    unfolding set_empty[symmetric] set raw by auto
  have hf: "hasFile m \<longleftrightarrow> ?ids \<noteq> []"
    by (auto simp: hasFile_def assms BuildMessageMeta_def Let_def nonEmptyArray_def nonEmptyText_def jstrs_def)
  have "hasEmoji m \<longleftrightarrow> (\<exists>es. emojis = Some es \<and> es \<noteq> [])"
    by (cases emojis) (auto simp: hasEmoji_def assms BuildMessageMeta_def Let_def nonEmptyArray_def jstrs_def)
  then show ?thesis using hf ids by (simp add: messageKind_def)
qed

definition fileMsg :: Message where
  "fileMsg = newMsg\<lparr>ms_MetaJSON := Text (BuildMessageMeta (Some '' '') [''f1''] (Some [''smile'']))\<rparr>"

theorem messageKind_of_BuildMessageMeta_witness: "messageKind (Some fileMsg) = ''file''"
proof -
  have "TrimSpace ''f1'' \<noteq> ''''" by (simp add: TrimSpace_eval)
  with messageKind_of_BuildMessageMeta[of fileMsg "Some '' ''" "[''f1'']" "Some [''smile'']"]
  show ?thesis by (simp add: fileMsg_def)
qed

section \<open>Defects\<close>

text \<open>
  The services ask for one row more than the limit, and the data base server replaces a limit above 200 by 50. A page
  of 200 messages is therefore cut to 50 with no cursor: the older messages of the room cannot be reached with
  that limit.
\<close>

lemma ListMessages_200:
  assumes "ch_store svc = repoStore penv env pg" "snd (DBForTenant (router r) t penv) = Inr pool" "fault env 0 = None"
  shows "snd (chat_ListMessages svc r t room 200 '''') = Inr (take 50 (orderDesc ms_ID (roomMessages t room (pools r pool))), '''')"
proof -
  have "snd (cs_listMessages (ch_store svc) r t room 201 None) = Inr (fetchMessages t room (pools r pool) 50 None)"
    using withPool_result[OF assms(2), of "exec env 0 (sql_listMessages t room 50 None)"] assms(3)
    by (simp add: assms(1) repoStore_def svc_ListMessages_def ListMessages_def exec_def fetchMessages_def ofResult_def
        sql_listMessages_def limited_def clampLimit_def)
  moreover have "fetchMessages t room (pools r pool) 50 None = take 50 (orderDesc ms_ID (roomMessages t room (pools r pool)))"
    using fetchMessages_rows[of 50] by (simp add: below_def)
  ultimately show ?thesis
    by (cases "cs_listMessages (ch_store svc) r t room 201 None")
      (simp add: chat_ListMessages_def cursorID_def clampLimit_def cutPage_def)
qed


end
