(* ===== verification/Realtime.thy ===== *)
theory Realtime
  imports ChatService
begin

text \<open>
  The web sockets of the chat server, \<open>server/chat/service/realtime_service.go\<close>: the rooms with
  their connections and subscriptions, the loop that reads a client's frames, stores messages at
  most once per client message id and relays everything over the room's Redis channel. Redis is
  a record of operations on a state of its own; a connection is known by its number.
\<close>

section \<open>Reading frames\<close>

text \<open>
  \<open>encoding/json\<close> into a struct: a key selects the field with the same name up to the case (with the two
  non-ASCII letters that fold to \<open>k\<close> and \<open>s\<close>), later values overwrite earlier ones, \<open>null\<close> leaves a field as it is
  and a value of another type is an error. Frames are JSON values with integral numbers.
\<close>

fun foldName :: "string \<Rightarrow> string" where
  "foldName [] = []"
| "foldName (c # s) =
     (if HasPrefix (c # s) [CHR 0xE2, CHR 0x84, CHR 0xAA] then CHR ''k'' # foldName (drop 2 s)
      else if HasPrefix (c # s) [CHR 0xC5, CHR 0xBF] then CHR ''s'' # foldName (drop 1 s)
      else lower_char c # foldName s)"

definition fieldValues :: "string \<Rightarrow> (string \<times> json) list \<Rightarrow> json list" where
  "fieldValues name fs = map snd (filter (\<lambda>(k, _). foldName k = foldName name) fs)"

definition decodeStr :: "json \<Rightarrow> string \<Rightarrow> string result" where
  "decodeStr j old = (case j of JNull \<Rightarrow> Inr old | JStr s \<Rightarrow> Inr s | _ \<Rightarrow> Inl ''cannot unmarshal into string'')"

definition decodeStrPtr :: "json \<Rightarrow> string option \<Rightarrow> string option result" where
  "decodeStrPtr j old = (case j of JNull \<Rightarrow> Inr None | JStr s \<Rightarrow> Inr (Some s) | _ \<Rightarrow> Inl ''cannot unmarshal into string'')"

fun decodeElems :: "json list \<Rightarrow> string list result" where
  "decodeElems [] = Inr []"
| "decodeElems (j # js) =
     (case decodeStr j '''' of
        Inl e \<Rightarrow> Inl e
      | Inr s \<Rightarrow> (case decodeElems js of Inl e \<Rightarrow> Inl e | Inr ss \<Rightarrow> Inr (s # ss)))"

text \<open>A nil slice is \<open>None\<close>.\<close>

definition decodeStrs :: "json \<Rightarrow> string list option \<Rightarrow> string list option result" where
  "decodeStrs j old =
     (case j of
        JNull \<Rightarrow> Inr None
      | JArr js \<Rightarrow> (case decodeElems js of Inl e \<Rightarrow> Inl e | Inr ss \<Rightarrow> Inr (Some ss))
      | _ \<Rightarrow> Inl ''cannot unmarshal into []string'')"

fun decodeField :: "(json \<Rightarrow> 'a \<Rightarrow> 'a result) \<Rightarrow> 'a \<Rightarrow> json list \<Rightarrow> 'a result" where
  "decodeField dec v [] = Inr v"
| "decodeField dec v (j # js) = (case dec j v of Inl e \<Rightarrow> Inl e | Inr v' \<Rightarrow> decodeField dec v' js)"

definition bindR :: "'a result \<Rightarrow> ('a \<Rightarrow> 'b result) \<Rightarrow> 'b result" where
  "bindR r f = (case r of Inl e \<Rightarrow> Inl e | Inr x \<Rightarrow> f x)"

record wsEnvelope =
  ev_Type :: string
  ev_RoomID :: string
  ev_UserID :: string
  ev_TargetID :: string
  ev_Payload :: json

text \<open>\<open>json.Unmarshal(raw, &env)\<close>; \<open>None\<close> is a frame that is not JSON.\<close>

definition unmarshalEnvelope :: "json option \<Rightarrow> wsEnvelope result" where
  "unmarshalEnvelope raw =
     (case raw of
        None \<Rightarrow> Inl ''invalid character''
      | Some JNull \<Rightarrow> Inr \<lparr>ev_Type = '''', ev_RoomID = '''', ev_UserID = '''', ev_TargetID = '''', ev_Payload = JNull\<rparr>
      | Some (JObj fs) \<Rightarrow>
          bindR (decodeField decodeStr '''' (fieldValues ''type'' fs)) (\<lambda>ty.
          bindR (decodeField decodeStr '''' (fieldValues ''room_id'' fs)) (\<lambda>room.
          bindR (decodeField decodeStr '''' (fieldValues ''user_id'' fs)) (\<lambda>user.
          bindR (decodeField decodeStr '''' (fieldValues ''target_id'' fs)) (\<lambda>tgt.
          bindR (decodeField (\<lambda>j _. Inr j) JNull (fieldValues ''payload'' fs)) (\<lambda>payload.
            Inr \<lparr>ev_Type = ty, ev_RoomID = room, ev_UserID = user, ev_TargetID = tgt, ev_Payload = payload\<rparr>)))))
      | Some _ \<Rightarrow> Inl ''cannot unmarshal into wsEnvelope'')"

definition envelopeJson :: "wsEnvelope \<Rightarrow> json" where
  "envelopeJson env = JObj [(''type'', JStr (ev_Type env)), (''room_id'', JStr (ev_RoomID env)), (''user_id'', JStr (ev_UserID env)),
     (''target_id'', JStr (ev_TargetID env)), (''payload'', ev_Payload env)]"

text \<open>
  The metadata is a JSON string that holds JSON text. A string that holds the text of a tree is represented by the tree, marked as text, and a
  string that is no JSON by a question mark.
\<close>

definition metaJson :: "jsonText \<Rightarrow> json" where
  "metaJson t = (case t of NoText \<Rightarrow> JStr '''' | BadText \<Rightarrow> JStr ''?'' | Text j \<Rightarrow> JArr [JStr ''text'', j])"

definition messageJson :: "Message \<Rightarrow> json" where
  "messageJson m = JObj [(''tenant_id'', JStr (ms_TenantID m)), (''id'', JStr (ms_ID m)), (''room_id'', JStr (ms_RoomID m)),
     (''sender_id'', JStr (ms_SenderID m)), (''body'', JStr (ms_Body m)), (''meta_json'', metaJson (ms_MetaJSON m)),
     (''created_at'', jtime (ms_CreatedAt m))]"

record wsMessagePayload =
  wp_ClientMsgID :: string
  wp_Body :: string
  wp_FileID :: "string option"
  wp_FileIDs :: "string list option"
  wp_Emojis :: "string list option"

definition unmarshalPayload :: "json \<Rightarrow> wsMessagePayload result" where
  "unmarshalPayload j =
     (case j of
        JNull \<Rightarrow> Inr \<lparr>wp_ClientMsgID = '''', wp_Body = '''', wp_FileID = None, wp_FileIDs = None, wp_Emojis = None\<rparr>
      | JObj fs \<Rightarrow>
          bindR (decodeField decodeStr '''' (fieldValues ''client_msg_id'' fs)) (\<lambda>cid.
          bindR (decodeField decodeStr '''' (fieldValues ''body'' fs)) (\<lambda>body.
          bindR (decodeField decodeStrPtr None (fieldValues ''file_id'' fs)) (\<lambda>fid.
          bindR (decodeField decodeStrs None (fieldValues ''file_ids'' fs)) (\<lambda>fids.
          bindR (decodeField decodeStrs None (fieldValues ''emojis'' fs)) (\<lambda>es.
            Inr \<lparr>wp_ClientMsgID = cid, wp_Body = body, wp_FileID = fid, wp_FileIDs = fids, wp_Emojis = es\<rparr>)))))
      | _ \<Rightarrow> Inl ''cannot unmarshal into wsMessagePayload'')"

definition parseWSMessagePayload :: "json \<Rightarrow> wsMessagePayload result" where
  "parseWSMessagePayload payload =
     (case unmarshalPayload payload of
        Inl _ \<Rightarrow> Inl ''invalid message payload''
      | Inr out \<Rightarrow>
          if TrimSpace (wp_Body out) = '''' then Inl ''body required''
          else Inr (out\<lparr>wp_ClientMsgID := TrimSpace (wp_ClientMsgID out)\<rparr>))"

definition wsMessageIdempotencyKey :: "string \<Rightarrow> string \<Rightarrow> string \<Rightarrow> string \<Rightarrow> string" where
  "wsMessageIdempotencyKey tenantID roomID userID clientMsgID =
     ''ws:message:idempotency:'' @ tenantID @ '':'' @ roomID @ '':'' @ userID @ '':'' @ clientMsgID"

definition wsMessageIdempotencyTTL :: time where
  "wsMessageIdempotencyTTL = 24 * 3600 * 1000000000"

section \<open>One pass of the read loop\<close>

text \<open>Redis: \<open>SET key 1 NX EX ttl\<close>, \<open>DEL key\<close> and \<open>PUBLISH channel payload\<close> of one client.\<close>

record 'q redisOps =
  rq_SetNX :: "'q \<Rightarrow> string \<Rightarrow> time \<Rightarrow> 'q \<times> bool result"
  rq_Del :: "'q \<Rightarrow> string \<Rightarrow> 'q \<times> unit result"
  rq_Publish :: "'q \<Rightarrow> string \<Rightarrow> json \<Rightarrow> 'q \<times> unit result"

record wsConn =
  wc_tenantID :: string
  wc_roomID :: string
  wc_authUserID :: string
  wc_conn :: nat

definition roomKeyOf :: "string \<Rightarrow> string \<Rightarrow> string" where
  "roomKeyOf tenantID roomID = tenantID @ '':'' @ roomID"

definition channelOf :: "string \<Rightarrow> string \<Rightarrow> string" where
  "channelOf tenantID roomID = ''tenant:'' @ tenantID @ '':room:'' @ roomID"

text \<open>
  What a pass does to the outside: \<open>WSWrite\<close> an error frame to its own connection, \<open>WSPersisted\<close> the log line
  of a stored message with its idempotency key, \<open>WSChat\<close> what \<open>CreateMessage\<close> sent, \<open>WSPublish\<close> a
  frame on the room's channel.
\<close>

datatype wsEffect = WSWrite nat json | WSPersisted string Message | WSChat chatEffect | WSPublish string json

definition writeWSError :: "wsConn \<Rightarrow> string \<Rightarrow> wsEffect list" where
  "writeWSError c message = [WSWrite (wc_conn c) (JObj [(''type'', JStr ''error''), (''error'', JStr message)])]"

text \<open>
  Between a frame and the end of its pass other connections run, so a pass is cut where it leaves the process:
  at the call of \<open>CreateMessage\<close> and at the release of the key.
\<close>

datatype wsTask = Idle | Creating wsEnvelope wsMessagePayload string | Releasing string

definition ws_relay :: "'q redisOps \<Rightarrow> wsConn \<Rightarrow> 'q \<Rightarrow> wsEnvelope \<Rightarrow> 'q \<times> wsEffect list" where
  "ws_relay ops c q env =
     (let env' = (if ev_Type env = ''webrtc_offer'' \<or> ev_Type env = ''webrtc_answer'' \<or> ev_Type env = ''webrtc_ice''
                  then env\<lparr>ev_Type := ''signal_'' @ ev_Type env\<rparr> else env);
          channel = channelOf (wc_tenantID c) (wc_roomID c)
      in (fst (rq_Publish ops q channel (envelopeJson env')), [WSPublish channel (envelopeJson env')]))"

definition ws_receive :: "'q redisOps \<Rightarrow> wsConn \<Rightarrow> 'q \<Rightarrow> json option \<Rightarrow> 'q \<times> wsTask \<times> wsEffect list" where
  "ws_receive ops c q raw =
     (case unmarshalEnvelope raw of
        Inl _ \<Rightarrow> (q, Idle, [])
      | Inr env0 \<Rightarrow>
          let env = env0\<lparr>ev_RoomID := wc_roomID c,
                ev_UserID := (if wc_authUserID c \<noteq> '''' then wc_authUserID c else ev_UserID env0)\<rparr> in
          if ev_Type env = ''message'' then
            (if TrimSpace (ev_UserID env) = '''' then (q, Idle, writeWSError c ''unauthorized'')
             else case parseWSMessagePayload (ev_Payload env) of
                 Inl e \<Rightarrow> (q, Idle, writeWSError c e)
               | Inr msgIn \<Rightarrow>
                   if wp_ClientMsgID msgIn \<noteq> '''' then
                     (let idempotencyKey = wsMessageIdempotencyKey (wc_tenantID c) (wc_roomID c) (ev_UserID env) (wp_ClientMsgID msgIn) in
                      case rq_SetNX ops q idempotencyKey wsMessageIdempotencyTTL of
                        (q', Inl _) \<Rightarrow> (q', Idle, writeWSError c ''failed to process message'')
                      | (q', Inr ok) \<Rightarrow>
                          if \<not> ok then (q', Idle, writeWSError c ''duplicate client_msg_id'')
                          else (q', Creating env msgIn idempotencyKey, []))
                   else (q, Creating env msgIn '''', []))
          else let (q', effs) = ws_relay ops c q env in (q', Idle, effs))"

definition ws_create ::
  "'s ChatService \<Rightarrow> 'q redisOps \<Rightarrow> wsConn \<Rightarrow> 'q \<Rightarrow> 's \<Rightarrow> wsEnvelope \<Rightarrow> wsMessagePayload \<Rightarrow> string
   \<Rightarrow> 'q \<times> 's \<times> wsTask \<times> wsEffect list" where
  "ws_create svc ops c q s env msgIn idempotencyKey =
     (case svc_CreateMessage svc s \<lparr>ms_TenantID = wc_tenantID c, ms_ID = '''', ms_RoomID = wc_roomID c, ms_SenderID = ev_UserID env,
         ms_Body = wp_Body msgIn,
         ms_MetaJSON = Text (BuildMessageMeta (wp_FileID msgIn) (case wp_FileIDs msgIn of None \<Rightarrow> [] | Some ids \<Rightarrow> ids) (wp_Emojis msgIn)),
         ms_CreatedAt = 0\<rparr> of
        (s', Inl _, sent) \<Rightarrow>
          if idempotencyKey \<noteq> '''' then (q, s', Releasing idempotencyKey, map WSChat sent)
          else (q, s', Idle, map WSChat sent @ writeWSError c ''failed to persist message'')
      | (s', Inr created, sent) \<Rightarrow>
          let (q', effs) = ws_relay ops c q (env\<lparr>ev_Payload := messageJson created\<rparr>) in
          (q', s', Idle, map WSChat sent @ [WSPersisted idempotencyKey created] @ effs))"

definition ws_release :: "'q redisOps \<Rightarrow> wsConn \<Rightarrow> 'q \<Rightarrow> string \<Rightarrow> 'q \<times> wsTask \<times> wsEffect list" where
  "ws_release ops c q idempotencyKey =
     (fst (rq_Del ops q idempotencyKey), Idle, writeWSError c ''failed to persist message'')"

text \<open>The whole pass, when nothing else runs meanwhile.\<close>

definition ws_pass ::
  "'s ChatService \<Rightarrow> 'q redisOps \<Rightarrow> wsConn \<Rightarrow> 'q \<times> 's \<Rightarrow> json option \<Rightarrow> ('q \<times> 's) \<times> wsEffect list" where
  "ws_pass svc ops c st raw =
     (case st of (q, s) \<Rightarrow>
      case ws_receive ops c q raw of
        (q1, Creating env msgIn key, effs1) \<Rightarrow>
          (case ws_create svc ops c q1 s env msgIn key of
             (q2, s2, Releasing key', effs2) \<Rightarrow>
               (case ws_release ops c q2 key' of (q3, _, effs3) \<Rightarrow> ((q3, s2), effs1 @ effs2 @ effs3))
           | (q2, s2, _, effs2) \<Rightarrow> ((q2, s2), effs1 @ effs2))
      | (q1, _, effs1) \<Rightarrow> ((q1, s), effs1))"

section \<open>Rooms\<close>

text \<open>A room on this server: its connections, and the client and channel that its consumer subscribed to.\<close>

record 'c roomState =
  rs_conns :: "nat list"
  rs_sub :: "'c \<times> string"

type_synonym 'c rooms = "(string \<times> 'c roomState) list"

definition ws_join :: "'c rooms \<Rightarrow> string \<Rightarrow> string \<Rightarrow> 'c \<Rightarrow> nat \<Rightarrow> 'c rooms" where
  "ws_join rs roomKey channel client conn =
     (let state = (case map_of rs roomKey of None \<Rightarrow> \<lparr>rs_conns = [], rs_sub = (client, channel)\<rparr> | Some st \<Rightarrow> st)
      in AList.update roomKey (state\<lparr>rs_conns := List.insert conn (rs_conns state)\<rparr>) rs)"

text \<open>\<open>leave\<close> also closes the connection.\<close>

definition ws_leave :: "'c rooms \<Rightarrow> string \<Rightarrow> nat \<Rightarrow> 'c rooms \<times> nat" where
  "ws_leave rs roomKey conn =
     ((case map_of rs roomKey of
         None \<Rightarrow> rs
       | Some state \<Rightarrow>
           let conns = removeAll conn (rs_conns state) in
           if length conns = 0 then AList.delete roomKey rs
           else AList.update roomKey (state\<lparr>rs_conns := conns\<rparr>) rs), conn)"

text \<open>The body of the loop of \<open>consumeRedis\<close>, and what one publication makes all consumers write.\<close>

definition consumeRedis :: "'c rooms \<Rightarrow> string \<Rightarrow> json \<Rightarrow> (nat \<times> json) list" where
  "consumeRedis rs roomKey payload =
     (case map_of rs roomKey of None \<Rightarrow> [] | Some state \<Rightarrow> map (\<lambda>conn. (conn, payload)) (rs_conns state))"

definition onPublish :: "'c rooms \<Rightarrow> 'c \<Rightarrow> string \<Rightarrow> json \<Rightarrow> (nat \<times> json) list" where
  "onPublish rs client channel payload =
     concat (map (\<lambda>(roomKey, state). if rs_sub state = (client, channel) then consumeRedis rs roomKey payload else []) rs)"

section \<open>Connecting\<close>

definition wsTenant :: "string \<Rightarrow> ctx \<Rightarrow> string" where
  "wsTenant query c =
     (let q = TrimSpace query;
          t = (case c ''auth_tenant_id'' of
                 Some (CStr a) \<Rightarrow> if TrimSpace a \<noteq> '''' then TrimSpace a else q
               | _ \<Rightarrow> q)
      in if t = '''' then ''default'' else t)"

definition wsUser :: "ctx \<Rightarrow> string" where
  "wsUser c = (case c ''auth_user_id'' of Some (CStr u) \<Rightarrow> TrimSpace u | _ \<Rightarrow> '''')"

text \<open>\<open>HandleWS\<close> up to the loop; \<open>upgrade\<close> is the new connection or the error of \<open>Upgrade\<close>.\<close>

definition HandleWS_open ::
  "'c rooms \<Rightarrow> 'c TenantRedisRouter \<Rightarrow> 'c redisEnv \<Rightarrow> string \<Rightarrow> ctx \<Rightarrow> string \<Rightarrow> nat result
   \<Rightarrow> 'c rooms \<times> 'c TenantRedisRouter \<times> (response + wsConn)" where
  "HandleWS_open rs rt renv tenantQ c roomQ upgrade =
     (let tenantID = wsTenant tenantQ c; authUserID = wsUser c; roomID = TrimSpace roomQ in
      if TrimSpace roomID = '''' then (rs, rt, Inl (400, NewErrorResponse ''room_id required''))
      else case ClientForTenant rt tenantID renv of
          (rt', Inl e) \<Rightarrow> (rs, rt', Inl (500, NewErrorResponse e))
        | (rt', Inr client) \<Rightarrow>
            (case upgrade of
               Inl e \<Rightarrow> (rs, rt', Inl (400, NewErrorResponse e))
             | Inr conn \<Rightarrow>
                 (ws_join rs (roomKeyOf tenantID roomID) (channelOf tenantID roomID) client conn, rt',
                  Inr \<lparr>wc_tenantID = tenantID, wc_roomID = roomID, wc_authUserID = authUserID, wc_conn = conn\<rparr>)))"

definition HandleWS_close :: "'c rooms \<Rightarrow> wsConn \<Rightarrow> 'c rooms \<times> nat" where
  "HandleWS_close rs c = ws_leave rs (roomKeyOf (wc_tenantID c) (wc_roomID c)) (wc_conn c)"

text \<open>\<open>PublishMessage\<close>: the last component is what was published, on which client and channel.\<close>

definition PublishMessage ::
  "'c TenantRedisRouter \<Rightarrow> 'c redisEnv \<Rightarrow> ('c \<Rightarrow> string option) \<Rightarrow> string \<Rightarrow> string \<Rightarrow> string \<Rightarrow> Message
   \<Rightarrow> 'c TenantRedisRouter \<times> unit result \<times> ('c \<times> string \<times> json) option" where
  "PublishMessage rt renv pubErr tenantID roomID userID message =
     (case ClientForTenant rt tenantID renv of
        (rt', Inl e) \<Rightarrow> (rt', Inl e, None)
      | (rt', Inr client) \<Rightarrow>
          let env = \<lparr>ev_Type = ''message'', ev_RoomID = roomID, ev_UserID = userID, ev_TargetID = '''', ev_Payload = messageJson message\<rparr> in
          (case pubErr client of
             Some e \<Rightarrow> (rt', Inl e, None)
           | None \<Rightarrow> (rt', Inr (), Some (client, channelOf tenantID roomID, envelopeJson env))))"

section \<open>Who hears a room\<close>

datatype rtEvent = RJoin string string nat | RLeave string string nat

fun rt_step :: "(string \<Rightarrow> 'c) \<Rightarrow> 'c rooms \<Rightarrow> rtEvent \<Rightarrow> 'c rooms" where
  "rt_step cl rs (RJoin t r conn) = ws_join rs (roomKeyOf t r) (channelOf t r) (cl t) conn"
| "rt_step cl rs (RLeave t r conn) = fst (ws_leave rs (roomKeyOf t r) conn)"

fun joined_step :: "(string \<Rightarrow> string \<Rightarrow> nat set) \<Rightarrow> rtEvent \<Rightarrow> string \<Rightarrow> string \<Rightarrow> nat set" where
  "joined_step J (RJoin t r conn) t' r' = (if t' = t \<and> r' = r then insert conn (J t' r') else J t' r')"
| "joined_step J (RLeave t r conn) t' r' = (if t' = t \<and> r' = r then J t' r' - {conn} else J t' r')"

definition rt_run :: "(string \<Rightarrow> 'c) \<Rightarrow> rtEvent list \<Rightarrow> 'c rooms" where
  "rt_run cl evs = foldl (rt_step cl) [] evs"

definition joined :: "rtEvent list \<Rightarrow> string \<Rightarrow> string \<Rightarrow> nat set" where
  "joined evs = foldl joined_step (\<lambda>_ _. {}) evs"

fun tenantOf :: "rtEvent \<Rightarrow> string" where
  "tenantOf (RJoin t _ _) = t"
| "tenantOf (RLeave t _ _) = t"

lemma roomKeyOf_inj: "plain t \<Longrightarrow> plain t' \<Longrightarrow> roomKeyOf t r = roomKeyOf t' r' \<longleftrightarrow> t = t' \<and> r = r'"
  by (simp add: roomKeyOf_def plain_def sep_unique)

lemma channelOf_inj: "plain t \<Longrightarrow> plain t' \<Longrightarrow> channelOf t r = channelOf t' r' \<longleftrightarrow> t = t' \<and> r = r'"
  by (simp add: channelOf_def plain_def sep_unique)

definition room_ok :: "(string \<Rightarrow> 'c) \<Rightarrow> string \<Rightarrow> string \<Rightarrow> nat set \<Rightarrow> 'c roomState option \<Rightarrow> bool" where
  "room_ok cl t r J st \<longleftrightarrow> (case st of None \<Rightarrow> J = {}
     | Some st \<Rightarrow> J \<noteq> {} \<and> set (rs_conns st) = J \<and> distinct (rs_conns st) \<and> rs_sub st = (cl t, channelOf t r))"

definition rooms_inv :: "(string \<Rightarrow> 'c) \<Rightarrow> 'c rooms \<Rightarrow> (string \<Rightarrow> string \<Rightarrow> nat set) \<Rightarrow> bool" where
  "rooms_inv cl rs J \<longleftrightarrow> distinct (map fst rs) \<and> (\<forall>k \<in> fst ` set rs. \<exists>t r. plain t \<and> k = roomKeyOf t r)
     \<and> (\<forall>t r. plain t \<longrightarrow> room_ok cl t r (J t r) (map_of rs (roomKeyOf t r)))"

lemma rooms_inv_step:
  assumes inv: "rooms_inv cl rs J" and pl: "plain (tenantOf e)"
  shows "rooms_inv cl (rt_step cl rs e) (joined_step J e)"
proof (cases e)
  case (RJoin t r conn)
  have t: "plain t" using pl RJoin by simp
  then have ok: "room_ok cl t r (J t r) (map_of rs (roomKeyOf t r))" using inv by (simp add: rooms_inv_def)
  have "room_ok cl t' r' (joined_step J e t' r') (map_of (rt_step cl rs e) (roomKeyOf t' r'))" if "plain t'" for t' r'
  proof -
    have "room_ok cl t' r' (J t' r') (map_of rs (roomKeyOf t' r'))" using inv that by (simp add: rooms_inv_def)
    then show ?thesis using ok roomKeyOf_inj[OF that t]
      by (auto simp: RJoin ws_join_def Let_def AList.update_conv' room_ok_def split: option.splits)
  qed
  moreover have "fst ` set (rt_step cl rs e) = insert (roomKeyOf t r) (fst ` set rs)" "distinct (map fst (rt_step cl rs e))"
    using inv by (simp_all add: RJoin ws_join_def Let_def dom_map_of_conv_image_fst[symmetric] AList.update_conv' rooms_inv_def AList.distinct_update)
  ultimately show ?thesis using inv t by (auto simp: rooms_inv_def)
next
  case (RLeave t r conn)
  have t: "plain t" using pl RLeave by simp
  then have ok: "room_ok cl t r (J t r) (map_of rs (roomKeyOf t r))" using inv by (simp add: rooms_inv_def)
  have "room_ok cl t' r' (joined_step J e t' r') (map_of (rt_step cl rs e) (roomKeyOf t' r'))" if "plain t'" for t' r'
  proof -
    have "room_ok cl t' r' (J t' r') (map_of rs (roomKeyOf t' r'))" using inv that by (simp add: rooms_inv_def)
    then show ?thesis using ok roomKeyOf_inj[OF that t]
      by (auto simp: RLeave ws_leave_def Let_def AList.update_conv' AList.delete_conv' room_ok_def set_empty[symmetric] distinct_removeAll
          simp del: set_empty split: option.splits)
  qed
  moreover have "fst ` set (rt_step cl rs e) \<subseteq> insert (roomKeyOf t r) (fst ` set rs)"
    by (auto simp: RLeave ws_leave_def Let_def dom_map_of_conv_image_fst[symmetric] AList.update_conv' AList.delete_conv' split: option.splits)
  moreover have "distinct (map fst (rt_step cl rs e))"
    using inv by (simp add: RLeave ws_leave_def Let_def rooms_inv_def AList.distinct_update AList.distinct_delete split: option.split)
  moreover have "\<forall>k \<in> insert (roomKeyOf t r) (fst ` set rs). \<exists>t r. plain t \<and> k = roomKeyOf t r"
    using inv t by (auto simp: rooms_inv_def)
  ultimately show ?thesis unfolding rooms_inv_def by blast
qed

lemma rooms_inv_run:
  "\<forall>e \<in> set evs. plain (tenantOf e) \<Longrightarrow> rooms_inv cl (rt_run cl evs) (joined evs)"
proof (induction evs rule: rev_induct)
  case Nil
  then show ?case by (simp add: rt_run_def joined_def rooms_inv_def room_ok_def)
next
  case (snoc e evs)
  then show ?case using rooms_inv_step[of cl "rt_run cl evs" "joined evs" e] by (simp add: rt_run_def joined_def)
qed


lemma concat_single:
  assumes "distinct (map fst al)" "map_of al k = Some v" "\<And>k' v'. (k', v') \<in> set al \<Longrightarrow> k' \<noteq> k \<Longrightarrow> f (k', v') = []"
  shows "concat (map f al) = f (k, v)"
  using assms
proof (induction al)
  case (Cons e al)
  show ?case
  proof (cases "fst e = k")
    case True
    then have "e = (k, v)" using Cons.prems(2) by (cases e) auto
    moreover have "k' \<noteq> k" if "(k', v') \<in> set al" for k' v'
      using that Cons.prems(1) True by (metis distinct.simps(2) fst_conv image_eqI list.simps(9) set_map)
    then have "\<forall>x \<in> set al. f x = []" using Cons.prems(3) by fastforce
    ultimately show ?thesis by simp
  next
    case False
    then show ?thesis using Cons by (cases e) auto
  qed
qed simp

lemma onPublish_exact:
  assumes inv: "rooms_inv cl rs J" and t: "plain t"
  shows "distinct (onPublish rs (cl t) (channelOf t r) p) \<and> set (onPublish rs (cl t) (channelOf t r) p) = {(conn, p) | conn. conn \<in> J t r}"
proof -
  let ?f = "\<lambda>(roomKey, state). if rs_sub state = (cl t, channelOf t r) then consumeRedis rs roomKey p else []"
  have d: "distinct (map fst rs)" using inv by (simp add: rooms_inv_def)
  have ok: "room_ok cl t r (J t r) (map_of rs (roomKeyOf t r))" using inv t by (simp add: rooms_inv_def)
  have other: "?f (k, st) = []" if kst: "(k, st) \<in> set rs" "k \<noteq> roomKeyOf t r" for k st
  proof -
    obtain t' r' where k: "plain t'" "k = roomKeyOf t' r'" using inv kst(1) by (force simp: rooms_inv_def)
    have "map_of rs k = Some st" using d kst(1) by simp
    then have "rs_sub st = (cl t', channelOf t' r')"
      using inv k by (auto simp: rooms_inv_def room_ok_def split: option.splits)
    then show ?thesis using kst(2) k channelOf_inj[OF k(1) t] by auto
  qed
  show ?thesis
  proof (cases "map_of rs (roomKeyOf t r)")
    case None
    then have "k \<noteq> roomKeyOf t r" if "(k, st) \<in> set rs" for k st using that by (force simp: map_of_eq_None_iff)
    then have "\<forall>x \<in> set rs. ?f x = []" using other by fastforce
    then have "onPublish rs (cl t) (channelOf t r) p = []" unfolding onPublish_def by (simp only: concat_eq_Nil_conv set_map) blast
    then show ?thesis using None ok by (simp add: room_ok_def)
  next
    case (Some st)
    then have "onPublish rs (cl t) (channelOf t r) p = map (\<lambda>conn. (conn, p)) (rs_conns st)"
      unfolding onPublish_def using concat_single[OF d Some, of ?f] other ok
      by (simp add: consumeRedis_def room_ok_def)
    then show ?thesis using Some ok by (auto simp: room_ok_def distinct_map inj_on_def)
  qed
qed


section \<open>At most once\<close>

text \<open>
  What the loop relies on of Redis while no key expires: \<open>SetNX\<close> succeeds for exactly one caller until the key is
  deleted (if its answer is lost, the key may be set or not), \<open>Del\<close> and \<open>SetNX\<close> touch no other key and \<open>Publish\<close> none.
\<close>

definition redis_ok :: "('q \<Rightarrow> string \<Rightarrow> bool) \<Rightarrow> 'q redisOps \<Rightarrow> bool" where
  "redis_ok isSet ops \<longleftrightarrow>
     (\<forall>q k d q' b. rq_SetNX ops q k d = (q', Inr b) \<longrightarrow> b = (\<not> isSet q k) \<and> (\<forall>k'. isSet q' k' \<longleftrightarrow> isSet q k' \<or> k' = k))
   \<and> (\<forall>q k d q' e. rq_SetNX ops q k d = (q', Inl e) \<longrightarrow>
        (\<forall>k'. (k' \<noteq> k \<longrightarrow> isSet q' k' = isSet q k') \<and> (isSet q k' \<longrightarrow> isSet q' k')))
   \<and> (\<forall>q k q' r. rq_Del ops q k = (q', r) \<longrightarrow> (\<forall>k'. k' \<noteq> k \<longrightarrow> isSet q' k' = isSet q k') \<and> (r = Inr () \<longrightarrow> \<not> isSet q' k))
   \<and> (\<forall>q c p q' r. rq_Publish ops q c p = (q', r) \<longrightarrow> isSet q' = isSet q)"

text \<open>
  The connections of all servers of the cluster on one Redis, each in its pass, in any interleaving; the pass of a
  connection may also end anywhere, as when its server stops.
\<close>

record ('q, 's) wsSystem =
  sy_redis :: 'q
  sy_store :: 's
  sy_task :: "nat \<Rightarrow> wsTask"
  sy_log :: "wsEffect list"

inductive ws_step :: "'q redisOps \<Rightarrow> ('q, 's) wsSystem \<Rightarrow> ('q, 's) wsSystem \<Rightarrow> bool" for ops where
  receive: "sy_task y i = Idle \<Longrightarrow> ws_receive ops c (sy_redis y) raw = (q, task, effs) \<Longrightarrow>
     ws_step ops y (y\<lparr>sy_redis := q, sy_task := (sy_task y)(i := task), sy_log := sy_log y @ effs\<rparr>)"
| create: "sy_task y i = Creating env msgIn key \<Longrightarrow>
     ws_create svc ops c (sy_redis y) (sy_store y) env msgIn key = (q, s, task, effs) \<Longrightarrow>
     ws_step ops y (y\<lparr>sy_redis := q, sy_store := s, sy_task := (sy_task y)(i := task), sy_log := sy_log y @ effs\<rparr>)"
| release: "sy_task y i = Releasing key \<Longrightarrow> ws_release ops c (sy_redis y) key = (q, task, effs) \<Longrightarrow>
     ws_step ops y (y\<lparr>sy_redis := q, sy_task := (sy_task y)(i := task), sy_log := sy_log y @ effs\<rparr>)"
| stop: "ws_step ops y (y\<lparr>sy_task := (sy_task y)(i := Idle)\<rparr>)"

inductive ws_reach :: "'q redisOps \<Rightarrow> 'q \<Rightarrow> 's \<Rightarrow> ('q, 's) wsSystem \<Rightarrow> bool" for ops q0 s0 where
  start: "ws_reach ops q0 s0 \<lparr>sy_redis = q0, sy_store = s0, sy_task = (\<lambda>_. Idle), sy_log = []\<rparr>"
| step: "ws_reach ops q0 s0 y \<Longrightarrow> ws_step ops y y' \<Longrightarrow> ws_reach ops q0 s0 y'"

fun holds :: "string \<Rightarrow> wsTask \<Rightarrow> bool" where
  "holds k (Creating _ _ key) \<longleftrightarrow> key = k"
| "holds k (Releasing key) \<longleftrightarrow> key = k"
| "holds k Idle \<longleftrightarrow> False"

fun persists :: "string \<Rightarrow> wsEffect \<Rightarrow> bool" where
  "persists k (WSPersisted key _) \<longleftrightarrow> key = k"
| "persists k _ \<longleftrightarrow> False"

definition stored :: "string \<Rightarrow> wsEffect list \<Rightarrow> nat" where
  "stored k log = length (filter (persists k) log)"

lemma stored_simps [simp]: "stored k (xs @ ys) = stored k xs + stored k ys" "stored k [] = 0"
  "stored k (e # es) = (if persists k e then 1 else 0) + stored k es" "stored k (map WSChat sent) = 0"
  by (simp_all add: stored_def filter_empty_conv)

lemma stored_error [simp]: "stored k (writeWSError c m) = 0"
  by (simp add: writeWSError_def)

lemma ws_relay_stored: "ws_relay ops c q env = (q', effs) \<Longrightarrow> stored k effs = 0"
  by (auto simp: ws_relay_def Let_def)

lemma redis_SetNX:
  assumes "redis_ok isSet ops" "rq_SetNX ops q k d = (q', Inr b)"
  shows "b \<longleftrightarrow> \<not> isSet q k" "isSet q' k' \<longleftrightarrow> isSet q k' \<or> k' = k"
  using assms(1)[unfolded redis_ok_def, THEN conjunct1, rule_format, OF assms(2)] by simp_all

lemma redis_SetNX_lost:
  assumes "redis_ok isSet ops" "rq_SetNX ops q k d = (q', Inl e)"
  shows "isSet q k' \<Longrightarrow> isSet q' k'"
  using assms(1)[unfolded redis_ok_def, THEN conjunct2, THEN conjunct1, rule_format, OF assms(2)] by simp

lemma redis_Del:
  assumes "redis_ok isSet ops"
  shows "k' \<noteq> k \<Longrightarrow> isSet (fst (rq_Del ops q k)) k' = isSet q k'" "snd (rq_Del ops q k) = Inr () \<Longrightarrow> \<not> isSet (fst (rq_Del ops q k)) k"
  using assms[unfolded redis_ok_def, THEN conjunct2, THEN conjunct2, THEN conjunct1, rule_format, OF prod.collapse[symmetric]]
  by blast+

lemma redis_Publish: "redis_ok isSet ops \<Longrightarrow> isSet (fst (rq_Publish ops q c p)) = isSet q"
  unfolding redis_ok_def by (elim conjE) (metis prod.collapse)

lemma ws_relay_live: "redis_ok isSet ops \<Longrightarrow> ws_relay ops c q env = (q', effs) \<Longrightarrow> isSet q' = isSet q"
  unfolding ws_relay_def Let_def using redis_Publish by auto

text \<open>What the three parts of a pass do to a key.\<close>

lemma ws_receive_cases:
  assumes "ws_receive ops c q raw = (q', task, effs)"
  obtains (relay) env where "ws_relay ops c q env = (q', effs)" "task = Idle"
    | (refused) key r where "rq_SetNX ops q key wsMessageIdempotencyTTL = (q', r)" "r \<noteq> Inr True" "task = Idle" "\<forall>k. stored k effs = 0"
    | (reserved) key env p where "rq_SetNX ops q key wsMessageIdempotencyTTL = (q', Inr True)" "task = Creating env p key" "effs = []"
    | (unkeyed) "q' = q" "\<forall>k. stored k effs = 0 \<and> (k \<noteq> '''' \<longrightarrow> \<not> holds k task)"
proof (cases "unmarshalEnvelope raw")
  case (Inl e)
  then show thesis using assms unkeyed by (simp add: ws_receive_def)
next
  case (Inr env0)
  define env where "env = env0\<lparr>ev_RoomID := wc_roomID c,
      ev_UserID := (if wc_authUserID c \<noteq> '''' then wc_authUserID c else ev_UserID env0)\<rparr>"
  note run = assms[unfolded ws_receive_def Inr sum.case env_def[symmetric] Let_def]
  consider (other) "ev_Type env \<noteq> ''message''" | (anon) "ev_Type env = ''message''" "TrimSpace (ev_UserID env) = ''''"
    | (bad) e where "ev_Type env = ''message''" "TrimSpace (ev_UserID env) \<noteq> ''''" "parseWSMessagePayload (ev_Payload env) = Inl e"
    | (good) p where "ev_Type env = ''message''" "TrimSpace (ev_UserID env) \<noteq> ''''" "parseWSMessagePayload (ev_Payload env) = Inr p"
    by (cases "parseWSMessagePayload (ev_Payload env)") blast+
  then show thesis
  proof cases
    case other
    then show thesis using run relay[of env] by (cases "ws_relay ops c q env") simp
  next
    case anon
    then show thesis using run unkeyed by auto
  next
    case bad
    then show thesis using run unkeyed by auto
  next
    case good
    show thesis
    proof (cases "wp_ClientMsgID p = ''''")
      case True
      then show thesis using run unkeyed good by auto
    next
      case False
      define key where "key = wsMessageIdempotencyKey (wc_tenantID c) (wc_roomID c) (ev_UserID env) (wp_ClientMsgID p)"
      obtain q1 r where set: "rq_SetNX ops q key wsMessageIdempotencyTTL = (q1, r)" by fastforce
      show thesis
      proof (cases "r = Inr True")
        case True
        then have "q' = q1" "task = Creating env p key" "effs = []" using run good False set by (simp_all add: key_def[symmetric])
        then show thesis using set True reserved[of key env p] by simp
      next
        case neq: False
        then have "q' = q1 \<and> task = Idle \<and> (\<forall>k. stored k effs = 0)" using run good False set
          by (cases r) (auto simp: key_def[symmetric])
        then show thesis using set neq refused[of key r] by simp
      qed
    qed
  qed
qed

lemma ws_receive_key:
  assumes ok: "redis_ok isSet ops" and rc: "ws_receive ops c q raw = (q', task, effs)" and "k \<noteq> ''''"
  shows "stored k effs = 0 \<and> (isSet q k \<longrightarrow> isSet q' k) \<and> (holds k task \<longrightarrow> \<not> isSet q k \<and> isSet q' k)"
  using rc
proof (cases rule: ws_receive_cases)
  case (relay env)
  then show ?thesis using ws_relay_stored ws_relay_live[OF ok] by fastforce
next
  case (refused key r)
  have "isSet q k \<longrightarrow> isSet q' k"
    using redis_SetNX[OF ok] redis_SetNX_lost[OF ok] refused(1) by (cases r) blast+
  then show ?thesis using refused by simp
next
  case (reserved key env p)
  show ?thesis using redis_SetNX[OF ok reserved(1)] reserved by auto
next
  case unkeyed
  then show ?thesis using assms(3) by simp
qed

lemma ws_create_key:
  assumes "redis_ok isSet ops" "ws_create svc ops c q s env p key = (q', s', task, effs)" "k \<noteq> ''''"
  shows "isSet q' = isSet q \<and> (if key = k then holds k task \<and> stored k effs = 0 \<or> \<not> holds k task \<and> stored k effs = 1
     else \<not> holds k task \<and> stored k effs = 0)"
  using assms(2,3) ws_relay_stored ws_relay_live[OF assms(1)]
  unfolding ws_create_def Let_def
  by (auto split: sum.splits if_splits prod.splits)

lemma ws_release_key:
  assumes "redis_ok isSet ops" "ws_release ops c q key = (q', task, effs)"
  shows "task = Idle \<and> stored k effs = 0 \<and> (k \<noteq> key \<longrightarrow> isSet q' k = isSet q k)"
  using assms(2) redis_Del(1)[OF assms(1)] by (auto simp: ws_release_def)

definition once_inv :: "('q \<Rightarrow> string \<Rightarrow> bool) \<Rightarrow> string \<Rightarrow> ('q, 's) wsSystem \<Rightarrow> bool" where
  "once_inv isSet k y \<longleftrightarrow>
     (\<forall>i j. holds k (sy_task y i) \<and> holds k (sy_task y j) \<longrightarrow> i = j)
   \<and> (\<forall>i. holds k (sy_task y i) \<longrightarrow> isSet (sy_redis y) k \<and> stored k (sy_log y) = 0)
   \<and> (stored k (sy_log y) \<noteq> 0 \<longrightarrow> isSet (sy_redis y) k) \<and> stored k (sy_log y) \<le> 1"


lemma once_inv_step:
  assumes ok: "redis_ok isSet ops" and k: "k \<noteq> ''''" and "ws_step ops y y'" "once_inv isSet k y"
  shows "once_inv isSet k y'"
  using assms(3,4)
proof (induction rule: ws_step.induct)
  case (receive y i c raw q task effs)
  then show ?case using ws_receive_key[OF ok receive(2) k] by (auto simp: once_inv_def)
next
  case (create y i env msgIn key svc c q s task effs)
  have "holds k (sy_task y i) \<longleftrightarrow> key = k" using create(1) by simp
  then have own: "key = k \<Longrightarrow> isSet (sy_redis y) k \<and> stored k (sy_log y) = 0 \<and> (\<forall>j. holds k (sy_task y j) \<longrightarrow> j = i)"
    using create.prems unfolding once_inv_def by blast
  show ?case
  proof (cases "key = k")
    case True
    then show ?thesis using own ws_create_key[OF ok create(2) k] by (auto simp: once_inv_def)
  next
    case False
    then show ?thesis using create.prems ws_create_key[OF ok create(2) k] by (auto simp: once_inv_def)
  qed
next
  case (release y i key c q task effs)
  have "holds k (sy_task y i) \<longleftrightarrow> key = k" using release(1) by simp
  then have own: "key = k \<Longrightarrow> stored k (sy_log y) = 0 \<and> (\<forall>j. holds k (sy_task y j) \<longrightarrow> j = i)"
    using release.prems unfolding once_inv_def by blast
  then show ?case using release.prems ws_release_key[OF ok release(2), of k]
    by (cases "key = k") (auto simp: once_inv_def)
next
  case (stop y i)
  then show ?case by (auto simp: once_inv_def)
qed

lemma once_inv_reach:
  assumes "redis_ok isSet ops" "k \<noteq> ''''" "ws_reach ops q0 s0 y"
  shows "once_inv isSet k y"
  using assms(3)
proof (induction rule: ws_reach.induct)
  case start
  then show ?case by (simp add: once_inv_def)
next
  case (step y y')
  then show ?case using once_inv_step[OF assms(1,2)] by blast
qed


section \<open>Properties\<close>


definition redisEx :: "string list redisOps" where
  "redisEx = \<lparr>rq_SetNX = (\<lambda>q k _. if k \<in> set q then (q, Inr False) else (k # q, Inr True)),
     rq_Del = (\<lambda>q k. (removeAll k q, Inr ())), rq_Publish = (\<lambda>q _ _. (q, Inr ()))\<rparr>"

lemma redisEx_ok: "redis_ok (\<lambda>q k. k \<in> set q) redisEx"
  by (auto simp: redis_ok_def redisEx_def split: if_splits)

definition frameEx :: json where
  "frameEx = JObj [(''type'', JStr ''message''), (''user_id'', JStr ''mallory''),
     (''payload'', JObj [(''client_msg_id'', JStr ''c1''), (''body'', JStr ''hello'')])]"

definition connEx :: "nat \<Rightarrow> wsConn" where
  "connEx n = \<lparr>wc_tenantID = ''acme'', wc_roomID = ''r'', wc_authUserID = ''ada'', wc_conn = n\<rparr>"

definition keyEx :: string where
  "keyEx = wsMessageIdempotencyKey ''acme'' ''r'' ''ada'' ''c1''"

definition envEx :: wsEnvelope where
  "envEx = \<lparr>ev_Type = ''message'', ev_RoomID = '''', ev_UserID = ''mallory'', ev_TargetID = '''',
     ev_Payload = JObj [(''client_msg_id'', JStr ''c1''), (''body'', JStr ''hello'')]\<rparr>"

definition payloadEx :: wsMessagePayload where
  "payloadEx = \<lparr>wp_ClientMsgID = ''c1'', wp_Body = ''hello'', wp_FileID = None, wp_FileIDs = None, wp_Emojis = None\<rparr>"

lemma foldName_ascii [simp]: "foldName [] = []"
  "(of_char c :: nat) < 0x80 \<Longrightarrow> foldName (c # s) = lower_char c # foldName s"
  by (auto simp: HasPrefix_iff)

lemma unmarshal_frameEx: "unmarshalEnvelope (Some frameEx) = Inr envEx"
  by (simp add: unmarshalEnvelope_def frameEx_def fieldValues_def decodeStr_def bindR_def envEx_def lower_char_def del: foldName.simps)

lemma parse_payloadEx: "parseWSMessagePayload (ev_Payload envEx) = Inr payloadEx"
  by (simp add: parseWSMessagePayload_def unmarshalPayload_def envEx_def fieldValues_def decodeStr_def bindR_def payloadEx_def
      lower_char_def TrimSpace_eval del: foldName.simps)


lemma ws_receive_frameEx:
  "ws_receive redisEx (connEx n) q (Some frameEx) =
     (if keyEx \<in> set q then (q, Idle, writeWSError (connEx n) ''duplicate client_msg_id'')
      else (keyEx # q, Creating (envEx\<lparr>ev_RoomID := ''r'', ev_UserID := ''ada''\<rparr>) payloadEx keyEx, []))"
proof -
  have "TrimSpace ''ada'' = ''ada''" by (simp add: TrimSpace_eval)
  moreover have "ev_Payload envEx = ev_Payload (envEx\<lparr>ev_RoomID := ''r'', ev_UserID := ''ada''\<rparr>)" "ev_Type envEx = ''message''"
    by (simp_all add: envEx_def)
  moreover have "wp_ClientMsgID payloadEx = ''c1''" by (simp add: payloadEx_def)
  ultimately show ?thesis
    by (simp add: ws_receive_def unmarshal_frameEx connEx_def parse_payloadEx Let_def redisEx_def keyEx_def[symmetric])
qed

definition wsMsgEx :: Message where
  "wsMsgEx = \<lparr>ms_TenantID = ''acme'', ms_ID = '''', ms_RoomID = ''r'', ms_SenderID = ''ada'', ms_Body = ''hello'',
     ms_MetaJSON = Text (BuildMessageMeta None [] None), ms_CreatedAt = 0\<rparr>"

lemma wsMsgEx_created:
  "\<exists>s' sent. svc_CreateMessage chatSvc (chatRepoEx roomsDB) wsMsgEx = (s', Inr (wsMsgEx\<lparr>ms_ID := ''id0'', ms_CreatedAt := 100\<rparr>), sent)"
proof -
  have "fst (snd (svc_CreateMessage chatSvc (chatRepoEx roomsDB) wsMsgEx)) = Inr (wsMsgEx\<lparr>ms_ID := ''id0'', ms_CreatedAt := 100\<rparr>)"
    by (subst chatSvc_creates) (simp_all add: wsMsgEx_def metaOf_def)
  then show ?thesis by (metis prod.collapse)
qed

lemma ws_create_frameEx:
  "\<exists>s' effs. ws_create chatSvc redisEx (connEx n) q (chatRepoEx roomsDB) (envEx\<lparr>ev_RoomID := ''r'', ev_UserID := ''ada''\<rparr>) payloadEx keyEx
     = (q, s', Idle, effs) \<and> stored keyEx effs = 1"
proof -
  obtain s' sent where "svc_CreateMessage chatSvc (chatRepoEx roomsDB) wsMsgEx = (s', Inr (wsMsgEx\<lparr>ms_ID := ''id0'', ms_CreatedAt := 100\<rparr>), sent)"
    using wsMsgEx_created by blast
  then show ?thesis
    by (simp add: ws_create_def connEx_def payloadEx_def wsMsgEx_def ws_relay_def Let_def redisEx_def)
qed



text \<open>
  What a message frame does. A frame of an authenticated connection with a client message id is refused as a
  duplicate, and nothing is stored or relayed, if the id is reserved; else the message is stored in the connection's tenant and
  room with the authenticated user as its sender, whatever the frame says, the id stays reserved, and the stored
  message is relayed on the room's channel. If storing fails, the id is released and only the sender hears of it.
\<close>

theorem ws_pass_message:
  assumes "redis_ok isSet ops" and "unmarshalEnvelope raw = Inr env0" and "ev_Type env0 = ''message''"
    and "TrimSpace (wc_authUserID c) \<noteq> ''''" and "parseWSMessagePayload (ev_Payload env0) = Inr p" and "wp_ClientMsgID p \<noteq> ''''"
    and "key = wsMessageIdempotencyKey (wc_tenantID c) (wc_roomID c) (wc_authUserID c) (wp_ClientMsgID p)"
    and "is_ok (snd (rq_SetNX ops q key wsMessageIdempotencyTTL))" and "\<forall>q. snd (rq_Del ops q key) = Inr ()"
    and "ws_pass svc ops c (q, s) raw = ((q', s'), effs)"
  shows "if isSet q key then s' = s \<and> effs = writeWSError c ''duplicate client_msg_id'' \<and> isSet q' = isSet q
    else case svc_CreateMessage svc s \<lparr>ms_TenantID = wc_tenantID c, ms_ID = '''', ms_RoomID = wc_roomID c, ms_SenderID = wc_authUserID c,
        ms_Body = wp_Body p,
        ms_MetaJSON = Text (BuildMessageMeta (wp_FileID p) (case wp_FileIDs p of None \<Rightarrow> [] | Some ids \<Rightarrow> ids) (wp_Emojis p)),
        ms_CreatedAt = 0\<rparr> of
      (s1, Inl e, sent) \<Rightarrow> s' = s1 \<and> isSet q' = isSet q \<and> effs = map WSChat sent @ writeWSError c ''failed to persist message''
    | (s1, Inr m, sent) \<Rightarrow> s' = s1 \<and> isSet q' = (isSet q)(key := True)
        \<and> effs = map WSChat sent @ [WSPersisted key m, WSPublish (channelOf (wc_tenantID c) (wc_roomID c))
            (envelopeJson (env0\<lparr>ev_RoomID := wc_roomID c, ev_UserID := wc_authUserID c, ev_Payload := messageJson m\<rparr>))]"
proof -
  define env where "env = env0\<lparr>ev_RoomID := wc_roomID c, ev_UserID := wc_authUserID c\<rparr>"
  obtain q1 b where set: "rq_SetNX ops q key wsMessageIdempotencyTTL = (q1, Inr b)"
    using assms(8) by (cases "rq_SetNX ops q key wsMessageIdempotencyTTL") (auto simp: is_ok_iff)
  note b = redis_SetNX[OF assms(1) set]
  have auth: "wc_authUserID c \<noteq> ''''" using assms(4) by (rule TrimSpace_nonblank)
  have rc: "ws_receive ops c q raw = (if b then (q1, Creating env p key, []) else (q1, Idle, writeWSError c ''duplicate client_msg_id''))"
    using auth assms(3-6) set by (simp add: ws_receive_def assms(2) Let_def env_def assms(7))
  show ?thesis
  proof (cases "isSet q key")
    case True
    then have "isSet q1 = isSet q" using b by (auto simp: fun_eq_iff)
    then show ?thesis using True assms(10) b rc by (auto simp: ws_pass_def)
  next
    case False
    then have q1: "isSet q1 = (isSet q)(key := True)" and ne: "key \<noteq> ''''" using b by (auto simp: fun_eq_iff assms(7) wsMessageIdempotencyKey_def)
    have undo: "isSet (fst (rq_Del ops q1 key)) = isSet q"
    proof (rule ext)
      fix k
      show "isSet (fst (rq_Del ops q1 key)) k = isSet q k"
        using redis_Del(1)[OF assms(1), of k key q1] redis_Del(2)[OF assms(1), of q1 key] assms(9) q1 False
        by (cases "k = key") simp_all
    qed
    have ty: "ev_Type env = ''message''" "ev_UserID env = wc_authUserID c" using assms(3) by (simp_all add: env_def)
    let ?msg = "\<lparr>ms_TenantID = wc_tenantID c, ms_ID = '''', ms_RoomID = wc_roomID c, ms_SenderID = wc_authUserID c, ms_Body = wp_Body p,
        ms_MetaJSON = Text (BuildMessageMeta (wp_FileID p) (case wp_FileIDs p of None \<Rightarrow> [] | Some ids \<Rightarrow> ids) (wp_Emojis p)), ms_CreatedAt = 0\<rparr>"
    obtain s1 out sent where cr: "svc_CreateMessage svc s ?msg = (s1, out, sent)" by (metis prod.collapse)
    have rc': "ws_receive ops c q raw = (q1, Creating env p key, [])" using rc b False by simp
    show ?thesis
    proof (cases out)
      case (Inl e)
      have "ws_create svc ops c q1 s env p key = (q1, s1, Releasing key, map WSChat sent)"
        using cr Inl ne by (simp add: ws_create_def ty)
      then have "q' = fst (rq_Del ops q1 key)" "s' = s1" "effs = map WSChat sent @ writeWSError c ''failed to persist message''"
        using assms(10) by (auto simp: ws_pass_def rc' ws_release_def)
      then show ?thesis using False cr Inl undo by simp
    next
      case (Inr m)
      let ?env = "envelopeJson (env0\<lparr>ev_RoomID := wc_roomID c, ev_UserID := wc_authUserID c, ev_Payload := messageJson m\<rparr>)"
      let ?ch = "channelOf (wc_tenantID c) (wc_roomID c)"
      have "ws_create svc ops c q1 s env p key
          = (fst (rq_Publish ops q1 ?ch ?env), s1, Idle, map WSChat sent @ [WSPersisted key m, WSPublish ?ch ?env])"
        using cr Inr assms(3) by (simp add: ws_create_def ty ws_relay_def Let_def) (simp add: env_def)
      then have "q' = fst (rq_Publish ops q1 ?ch ?env)" "s' = s1" "effs = map WSChat sent @ [WSPersisted key m, WSPublish ?ch ?env]"
        using assms(10) by (auto simp: ws_pass_def rc')
      then show ?thesis using False cr Inr q1 redis_Publish[OF assms(1)] by simp
    qed
  qed
qed

theorem ws_pass_message_witness:
  "\<exists>q' s' sent. ws_pass chatSvc redisEx (connEx 1) ([], chatRepoEx roomsDB) (Some frameEx) = ((q', s'),
     map WSChat sent @ [WSPersisted keyEx (wsMsgEx\<lparr>ms_ID := ''id0'', ms_CreatedAt := 100\<rparr>),
       WSPublish ''tenant:acme:room:r'' (envelopeJson (envEx\<lparr>ev_RoomID := ''r'', ev_UserID := ''ada'',
         ev_Payload := messageJson (wsMsgEx\<lparr>ms_ID := ''id0'', ms_CreatedAt := 100\<rparr>)\<rparr>))])
     \<and> (\<forall>k. k \<in> set q' \<longleftrightarrow> k = keyEx)"
proof -
  obtain q' s' effs where run: "ws_pass chatSvc redisEx (connEx 1) ([], chatRepoEx roomsDB) (Some frameEx) = ((q', s'), effs)"
    by (metis prod.collapse)
  obtain s1 sent where cr: "svc_CreateMessage chatSvc (chatRepoEx roomsDB) wsMsgEx = (s1, Inr (wsMsgEx\<lparr>ms_ID := ''id0'', ms_CreatedAt := 100\<rparr>), sent)"
    using wsMsgEx_created by blast
  have conn: "wc_tenantID (connEx n) = ''acme''" "wc_roomID (connEx n) = ''r''" "wc_authUserID (connEx n) = ''ada''" for n by (simp_all add: connEx_def)
  have pl: "wp_ClientMsgID payloadEx = ''c1''" "wp_Body payloadEx = ''hello''" "wp_FileID payloadEx = None" "wp_FileIDs payloadEx = None"
    "wp_Emojis payloadEx = None" by (simp_all add: payloadEx_def)
  have "ev_Type envEx = ''message''" "TrimSpace ''ada'' \<noteq> ''''" by (simp_all add: envEx_def TrimSpace_eval)
  then have "effs = map WSChat sent @ [WSPersisted keyEx (wsMsgEx\<lparr>ms_ID := ''id0'', ms_CreatedAt := 100\<rparr>),
       WSPublish (channelOf ''acme'' ''r'') (envelopeJson (envEx\<lparr>ev_RoomID := ''r'', ev_UserID := ''ada'',
         ev_Payload := messageJson (wsMsgEx\<lparr>ms_ID := ''id0'', ms_CreatedAt := 100\<rparr>)\<rparr>))]
     \<and> (\<lambda>k. k \<in> set q') = (\<lambda>k. k \<in> set [])(keyEx := True)"
    using ws_pass_message[OF redisEx_ok unmarshal_frameEx _ _ parse_payloadEx, of "connEx 1" keyEx "[]" chatSvc "chatRepoEx roomsDB" q' s' effs] run cr
    by (simp add: conn pl keyEx_def wsMsgEx_def redisEx_def)
  then show ?thesis using run by (auto simp: channelOf_def fun_eq_iff)
qed



section \<open>Defects\<close>

text \<open>
  The key of a room is the tenant id, a colon and the room id, and a connection that joins a key in use gets no
  subscription of its own: with colons in tenant ids, a connection of one tenant hears the room of another and
  not its own.
\<close>

lemma room_colon_leak:
  "onPublish (rt_run (\<lambda>_. ()) [RJoin ''a'' ''b:c'' 1, RJoin ''a:b'' ''c'' 2]) () (channelOf ''a'' ''b:c'') p = [(2, p), (1, p)]
   \<and> onPublish (rt_run (\<lambda>_. ()) [RJoin ''a'' ''b:c'' 1, RJoin ''a:b'' ''c'' 2]) () (channelOf ''a:b'' ''c'') p = []"
  by (simp add: rt_run_def ws_join_def roomKeyOf_def channelOf_def onPublish_def consumeRedis_def)


end
