(* ===== verification/ChatApi.thy ===== *)
theory ChatApi
  imports Realtime
begin

text \<open>
  The HTTP interface of the chat server: the handlers of \<open>server/chat/api/handler.go\<close> and the bodies of
  \<open>response.go\<close>. A handler gets the context that the middleware filled, the path and query parameters and the
  result of \<open>ShouldBindJSON\<close>, and returns the response with the new state of the store; \<open>createMessage\<close> also
  uses the Redis router, and \<open>handleWS\<close> checks the token and the membership before the web socket is opened.
\<close>

section \<open>Bodies\<close>

definition NewPaginatedResponse :: "('a \<Rightarrow> json) \<Rightarrow> 'a list \<Rightarrow> string \<Rightarrow> json" where
  "NewPaginatedResponse js items nextCursor =
     JObj ([(''items'', JArr (map js items))] @ (if nextCursor = '''' then [] else [(''next_cursor'', JStr nextCursor)]))"

definition NewHealthResponse :: "string \<Rightarrow> json" where
  "NewHealthResponse status = JObj [(''status'', JStr status)]"

definition NewRoomUnreadCountResponse :: "string \<Rightarrow> string \<Rightarrow> nat \<Rightarrow> json" where
  "NewRoomUnreadCountResponse roomID userID n =
     JObj [(''room_id'', JStr roomID), (''user_id'', JStr userID), (''unread_count'', JNum (int n))]"

definition NewReadStateResponse :: "string \<Rightarrow> string \<Rightarrow> string \<Rightarrow> json" where
  "NewReadStateResponse roomID userID lastRead =
     JObj [(''room_id'', JStr roomID), (''user_id'', JStr userID), (''last_read_message_id'', JStr lastRead)]"

definition omitempty :: "string \<Rightarrow> json option \<Rightarrow> (string \<times> json) list" where
  "omitempty k v = (case v of None \<Rightarrow> [] | Some j \<Rightarrow> [(k, j)])"

definition summaryJson :: "ChatRoomSummary \<Rightarrow> json" where
  "summaryJson x = JObj ([(''room_id'', JStr (su_RoomID x)), (''name'', JStr (su_Name x)), (''room_type'', JStr (su_RoomType x)),
       (''created_by'', JStr (su_CreatedBy x)), (''created_at'', jtime (su_CreatedAt x))]
     @ omitempty ''peer_user_id'' (map_option JStr (su_PeerUserID x)) @ omitempty ''peer_name'' (map_option JStr (su_PeerName x))
     @ omitempty ''peer_status'' (map_option JStr (su_PeerStatus x)) @ omitempty ''peer_status_note'' (map_option JStr (su_PeerStatusNote x))
     @ omitempty ''latest_message_id'' (map_option JStr (su_LatestMessageID x)) @ omitempty ''latest_message_body'' (map_option JStr (su_LatestMessageBody x))
     @ omitempty ''latest_message_kind'' (map_option JStr (su_LatestMessageKind x)) @ omitempty ''latest_message_summary'' (map_option JStr (su_LatestMessageSummary x))
     @ (if su_LatestMessageMentionTokens x = [] then [] else [(''latest_message_mention_tokens'', jstrs (su_LatestMessageMentionTokens x))])
     @ [(''latest_message_is_mentioned'', JBool (su_LatestMessageIsMentioned x))]
     @ omitempty ''latest_message_at'' (map_option jtime (su_LatestMessageAt x)) @ omitempty ''latest_message_sender'' (map_option JStr (su_LatestMessageSender x))
     @ [(''unread_count'', JNum (int (su_UnreadCount x)))])"

definition unreadJson :: "RoomUnread \<Rightarrow> json" where
  "unreadJson x = JObj [(''room_id'', JStr (ru_RoomID x)), (''unread_count'', JNum (int (ru_UnreadCount x)))]"

definition readerJson :: "MessageRead \<Rightarrow> json" where
  "readerJson x = JObj [(''tenant_id'', JStr (mr_TenantID x)), (''room_id'', JStr (mr_RoomID x)), (''message_id'', JStr (mr_MessageID x)),
     (''user_id'', JStr (mr_UserID x)), (''read_at'', jtime (mr_ReadAt x))]"

section \<open>Identity\<close>

definition chat_tenantFromContext :: "ctx \<Rightarrow> string result" where
  "chat_tenantFromContext c = (case c ''auth_tenant_id'' of Some (CStr t) \<Rightarrow> Inr t | _ \<Rightarrow> Inl ErrUnauthorized)"

definition chat_actorFromContext :: "ctx \<Rightarrow> (string \<times> string) result" where
  "chat_actorFromContext c =
     (case c ''auth_user_id'' of
        None \<Rightarrow> Inl ErrUnauthorized
      | Some rawID \<Rightarrow>
          (case c ''auth_role'' of
             None \<Rightarrow> Inl ErrUnauthorized
           | Some rawRole \<Rightarrow>
               (case rawID of
                  COther \<Rightarrow> Inl ErrUnauthorized
                | CStr userID \<Rightarrow> (case rawRole of COther \<Rightarrow> Inl ErrUnauthorized | CStr role \<Rightarrow> Inr (userID, role)))))"

text \<open>The head of the handlers: the tenant alone, or the tenant and the acting user.\<close>

definition withTenant :: "ctx \<Rightarrow> 's \<Rightarrow> (string \<Rightarrow> 's \<times> response) \<Rightarrow> 's \<times> response" where
  "withTenant c s f = (case chat_tenantFromContext c of Inl e \<Rightarrow> (s, (401, NewErrorResponse e)) | Inr t \<Rightarrow> f t)"

definition withActor :: "ctx \<Rightarrow> 's \<Rightarrow> (string \<Rightarrow> string \<Rightarrow> 's \<times> response) \<Rightarrow> 's \<times> response" where
  "withActor c s f = withTenant c s (\<lambda>t. case chat_actorFromContext c of Inl e \<Rightarrow> (s, (401, NewErrorResponse e)) | Inr (u, _) \<Rightarrow> f t u)"

definition withBody :: "'r result \<Rightarrow> 's \<Rightarrow> ('r \<Rightarrow> 's \<times> response) \<Rightarrow> 's \<times> response" where
  "withBody bind s f = (case bind of Inl e \<Rightarrow> (s, (400, NewErrorResponse e)) | Inr req \<Rightarrow> f req)"

definition answer :: "nat \<Rightarrow> nat \<Rightarrow> ('a \<Rightarrow> json) \<Rightarrow> 's \<times> 'a result \<Rightarrow> 's \<times> response" where
  "answer failed okay js out = (case out of (s', Inl e) \<Rightarrow> (s', (failed, NewErrorResponse e)) | (s', Inr x) \<Rightarrow> (s', (okay, js x)))"

lemmas head_defs = withTenant_def withActor_def withBody_def answer_def

section \<open>Handlers\<close>

record roomReq =
  rr_Name :: string
  rr_RoomType :: string
  rr_MemberIDs :: "string list"

definition api_createRoom :: "'s ChatService \<Rightarrow> 's \<Rightarrow> ctx \<Rightarrow> roomReq result \<Rightarrow> 's \<times> response" where
  "api_createRoom svc s c bind =
     withActor c s (\<lambda>tenantID actorID. withBody bind s (\<lambda>req.
       let roomType = (if rr_RoomType req = '''' then ''group'' else rr_RoomType req) in
       answer 500 201 NewIDResponse (chat_CreateRoom svc s tenantID
         \<lparr>cr_TenantID = '''', cr_ID = '''', cr_Name = rr_Name req, cr_RoomType = roomType, cr_CreatedBy = actorID, cr_CreatedAt = 0\<rparr>
         (rr_MemberIDs req))))"

definition queryInt :: "string \<Rightarrow> string option \<Rightarrow> int" where
  "queryInt dflt q = fst (Atoi (case q of None \<Rightarrow> dflt | Some v \<Rightarrow> v))"

definition api_listMyRooms :: "'s ChatService \<Rightarrow> 's \<Rightarrow> ctx \<Rightarrow> string option \<Rightarrow> string \<Rightarrow> 's \<times> response" where
  "api_listMyRooms svc s c limitQ cursor =
     withActor c s (\<lambda>tenantID actorID.
       answer 400 200 (\<lambda>(items, nc). NewPaginatedResponse summaryJson items nc)
         (chat_ListMyRooms svc s tenantID actorID (queryInt ''50'' limitQ) cursor))"

definition api_addMember :: "'s ChatService \<Rightarrow> 's \<Rightarrow> ctx \<Rightarrow> string \<Rightarrow> string result \<Rightarrow> 's \<times> response" where
  "api_addMember svc s c roomID bind =
     withTenant c s (\<lambda>tenantID. withBody bind s (\<lambda>userID.
       answer 500 200 (\<lambda>_. NewOKResponse) (chat_AddMember svc s tenantID roomID userID)))"

record messageReq =
  mq_Body :: string
  mq_FileID :: "string option"
  mq_FileIDs :: "string list"
  mq_Emojis :: "string list option"

text \<open>The store, the Redis router, the response, what \<open>CreateMessage\<close> sent and what was published on Redis.\<close>

definition api_createMessage ::
  "'s ChatService \<Rightarrow> 'c redisEnv \<Rightarrow> ('c \<Rightarrow> string option) \<Rightarrow> 's \<Rightarrow> 'c TenantRedisRouter \<Rightarrow> ctx \<Rightarrow> string \<Rightarrow> messageReq result
   \<Rightarrow> 's \<times> 'c TenantRedisRouter \<times> response \<times> chatEffect list \<times> ('c \<times> string \<times> json) option" where
  "api_createMessage svc renv pubErr s rt c roomID bind =
     (case chat_tenantFromContext c of
        Inl e \<Rightarrow> (s, rt, (401, NewErrorResponse e), [], None)
      | Inr tenantID \<Rightarrow>
     (case chat_actorFromContext c of
        Inl e \<Rightarrow> (s, rt, (401, NewErrorResponse e), [], None)
      | Inr (actorID, _) \<Rightarrow>
     (case bind of
        Inl e \<Rightarrow> (s, rt, (400, NewErrorResponse e), [], None)
      | Inr req \<Rightarrow>
     (case svc_CreateMessage svc s \<lparr>ms_TenantID = tenantID, ms_ID = '''', ms_RoomID = roomID, ms_SenderID = actorID, ms_Body = mq_Body req,
         ms_MetaJSON = Text (BuildMessageMeta (mq_FileID req) (mq_FileIDs req) (mq_Emojis req)), ms_CreatedAt = 0\<rparr> of
        (s', Inl e, sent) \<Rightarrow> (s', rt, (500, NewErrorResponse e), sent, None)
      | (s', Inr msg, sent) \<Rightarrow>
          if \<not> IsMQEnabled svc then
            (case PublishMessage rt renv pubErr tenantID roomID actorID msg of
               (rt', Inl e, pub) \<Rightarrow> (s', rt', (500, NewErrorResponse e), sent, pub)
             | (rt', Inr _, pub) \<Rightarrow> (s', rt', (201, messageJson msg), sent, pub))
          else (s', rt, (201, messageJson msg), sent, None)))))"

definition api_listMessages :: "'s ChatService \<Rightarrow> 's \<Rightarrow> ctx \<Rightarrow> string \<Rightarrow> string option \<Rightarrow> string \<Rightarrow> 's \<times> response" where
  "api_listMessages svc s c roomID limitQ cursor =
     withTenant c s (\<lambda>tenantID.
       answer 400 200 (\<lambda>(items, nc). NewPaginatedResponse messageJson items nc)
         (chat_ListMessages svc s tenantID roomID (queryInt ''50'' limitQ) cursor))"

definition api_getRoomUnreadCount :: "'s ChatService \<Rightarrow> 's \<Rightarrow> ctx \<Rightarrow> string \<Rightarrow> 's \<times> response" where
  "api_getRoomUnreadCount svc s c roomID =
     withActor c s (\<lambda>tenantID actorID.
       answer 500 200 (NewRoomUnreadCountResponse roomID actorID) (chat_GetUnreadCount svc s tenantID roomID actorID))"

definition api_getMyUnreadCounts :: "'s ChatService \<Rightarrow> 's \<Rightarrow> ctx \<Rightarrow> 's \<times> response" where
  "api_getMyUnreadCounts svc s c =
     withActor c s (\<lambda>tenantID actorID.
       answer 500 200 (\<lambda>items. JArr (map unreadJson items)) (chat_GetUnreadCounts svc s tenantID actorID))"

definition api_markRoomRead :: "'s ChatService \<Rightarrow> 's \<Rightarrow> ctx \<Rightarrow> string \<Rightarrow> string result \<Rightarrow> 's \<times> response" where
  "api_markRoomRead svc s c roomID bind =
     withActor c s (\<lambda>tenantID actorID. withBody bind s (\<lambda>messageID.
       answer 500 200 (\<lambda>_. NewOKResponse) (chat_MarkReadUpTo svc s tenantID roomID actorID messageID)))"

definition api_getMyReadState :: "'s ChatService \<Rightarrow> 's \<Rightarrow> ctx \<Rightarrow> string \<Rightarrow> 's \<times> response" where
  "api_getMyReadState svc s c roomID =
     withActor c s (\<lambda>tenantID actorID.
       answer 500 200 (NewReadStateResponse roomID actorID) (chat_GetLastReadMessageID svc s tenantID roomID actorID))"

definition api_getMessageReaders :: "'s ChatService \<Rightarrow> 's \<Rightarrow> ctx \<Rightarrow> string \<Rightarrow> string \<Rightarrow> 's \<times> response" where
  "api_getMessageReaders svc s c roomID messageID =
     withTenant c s (\<lambda>tenantID.
       answer 500 200 (\<lambda>items. JArr (map readerJson items)) (chat_GetMessageReaders svc s tenantID roomID messageID))"

definition api_searchMessages ::
  "'s ChatService \<Rightarrow> (string \<Rightarrow> json \<Rightarrow> json outcome) \<Rightarrow> 's \<Rightarrow> ctx \<Rightarrow> string \<Rightarrow> string option \<Rightarrow> string \<Rightarrow> string \<Rightarrow> 's \<times> response" where
  "api_searchMessages svc http s c q limitQ cursor roomQ =
     withTenant c s (\<lambda>tenantID.
       let roomID = (if roomQ \<noteq> '''' then Some roomQ else None) in
       answer 400 200 (\<lambda>(items, nc). NewPaginatedResponse messageJson items nc)
         (chat_SearchMessages svc http s tenantID q roomID (queryInt ''30'' limitQ) cursor))"

section \<open>Web sockets\<close>

definition wsAccessToken :: "string \<Rightarrow> string \<Rightarrow> string \<Rightarrow> string option" where
  "wsAccessToken authorization accessTokenQ tokenQ =
     (let header = TrimSpace authorization;
          fromHeader = (if HasPrefix header ''Bearer '' then TrimSpace (TrimPrefix header ''Bearer '') else '''') in
      if fromHeader \<noteq> '''' then Some fromHeader
      else let t1 = TrimSpace accessTokenQ; t2 = (if t1 = '''' then TrimSpace tokenQ else t1) in
        if t2 = '''' then None else Some t2)"

record wsRequest =
  wr_authorization :: string
  wr_accessToken :: string
  wr_token :: string
  wr_tenant :: string
  wr_room :: string

definition handleWS ::
  "'s ChatService \<Rightarrow> (string \<Rightarrow> (string \<times> string \<times> string) result) \<Rightarrow> 'c redisEnv \<Rightarrow> 's \<Rightarrow> 'c rooms \<Rightarrow> 'c TenantRedisRouter \<Rightarrow> ctx
   \<Rightarrow> wsRequest \<Rightarrow> nat result \<Rightarrow> 's \<times> 'c rooms \<times> 'c TenantRedisRouter \<times> (response + wsConn)" where
  "handleWS svc parse renv s rs rt c req upgrade =
     (case wsAccessToken (wr_authorization req) (wr_accessToken req) (wr_token req) of
        None \<Rightarrow> (s, rs, rt, Inl (401, NewErrorResponse ''bearer token is required''))
      | Some token \<Rightarrow>
     (case parse token of
        Inl _ \<Rightarrow> (s, rs, rt, Inl (401, NewErrorResponse ''invalid token''))
      | Inr (userID, tenantID, _) \<Rightarrow>
          let roomID = TrimSpace (wr_room req) in
          if roomID = '''' then (s, rs, rt, Inl (400, NewErrorResponse ''room_id required''))
          else case chat_IsRoomMember svc s tenantID roomID userID of
              (s', Inl e) \<Rightarrow> (s', rs, rt, Inl (500, NewErrorResponse e))
            | (s', Inr member) \<Rightarrow>
                if \<not> member then (s', rs, rt, Inl (403, NewErrorResponse ''room access denied''))
                else (s', HandleWS_open rs rt renv (wr_tenant req)
                  (c(''auth_access_token'' \<mapsto> CStr token, ''auth_user_id'' \<mapsto> CStr userID, ''auth_tenant_id'' \<mapsto> CStr tenantID))
                  (wr_room req) upgrade)))"

section \<open>Requests and tenants\<close>

text \<open>All requests of the REST interface, with any parameters; the context is what the middleware made of the token.\<close>

inductive chat_request ::
  "'s ChatService \<Rightarrow> 'c redisEnv \<Rightarrow> ctx \<Rightarrow> 's \<Rightarrow> 's \<Rightarrow> response \<Rightarrow> bool" for svc renv c s where
  createRoom: "api_createRoom svc s c bind = (s', resp) \<Longrightarrow> chat_request svc renv c s s' resp"
| listMyRooms: "api_listMyRooms svc s c limitQ cursor = (s', resp) \<Longrightarrow> chat_request svc renv c s s' resp"
| addMember: "api_addMember svc s c roomID bind = (s', resp) \<Longrightarrow> chat_request svc renv c s s' resp"
| createMessage: "api_createMessage svc renv pubErr s rt c roomID bind = (s', rt', resp, sent, pub) \<Longrightarrow> chat_request svc renv c s s' resp"
| listMessages: "api_listMessages svc s c roomID limitQ cursor = (s', resp) \<Longrightarrow> chat_request svc renv c s s' resp"
| getRoomUnreadCount: "api_getRoomUnreadCount svc s c roomID = (s', resp) \<Longrightarrow> chat_request svc renv c s s' resp"
| getMyUnreadCounts: "api_getMyUnreadCounts svc s c = (s', resp) \<Longrightarrow> chat_request svc renv c s s' resp"
| markRoomRead: "api_markRoomRead svc s c roomID bind = (s', resp) \<Longrightarrow> chat_request svc renv c s s' resp"
| getMyReadState: "api_getMyReadState svc s c roomID = (s', resp) \<Longrightarrow> chat_request svc renv c s s' resp"
| getMessageReaders: "api_getMessageReaders svc s c roomID messageID = (s', resp) \<Longrightarrow> chat_request svc renv c s s' resp"
| searchMessages: "api_searchMessages svc http s c q limitQ cursor roomQ = (s', resp) \<Longrightarrow> chat_request svc renv c s s' resp"

text \<open>What a request may have changed: only the data base that the router gives for the tenant.\<close>

definition onlyTenant :: "'p dbEnv \<Rightarrow> string \<Rightarrow> 'p Repo \<Rightarrow> 'p Repo \<Rightarrow> bool" where
  "onlyTenant penv t r r' \<longleftrightarrow> (\<forall>p. snd (DBForTenant (router r) t penv) \<noteq> Inr p \<longrightarrow> pools r' p = pools r p)"

lemma onlyTenant_refl [simp]: "onlyTenant penv t r r"
  by (simp add: onlyTenant_def)

lemma onlyTenant_withPool: "onlyTenant penv t r (fst (withPool r penv t st))"
  by (simp add: onlyTenant_def withPool_frame)

lemma router_withPool: "router (fst (withPool r penv t st)) = fst (DBForTenant (router r) t penv)"
  by (auto simp: withPool_def split: prod.splits sum.splits)

lemmas repo_ops = CreateRoom_def AddMember_def IsRoomMember_def CreateMessage_def MarkReadUpTo_def svc_ListMessages_def ListMessages_def
  svc_SearchMessages_def SearchMessages_def GetMessageReaders_def GetLastReadMessageID_def GetUnreadCount_def GetUnreadCounts_def
  svc_ListMyRooms_def ListMyRooms_def

lemma repoStore_only:
  "onlyTenant penv t r (fst (cs_createRoom (repoStore penv env pg) r t room ms))"
  "onlyTenant penv t r (fst (cs_addMember (repoStore penv env pg) r t rid u))"
  "onlyTenant penv t r (fst (cs_isMember (repoStore penv env pg) r t rid u))"
  "onlyTenant penv t r (fst (cs_markRead (repoStore penv env pg) r t rid u mid))"
  "onlyTenant penv t r (fst (cs_listMessages (repoStore penv env pg) r t rid n cur))"
  "onlyTenant penv t r (fst (cs_searchMessages (repoStore penv env pg) r t q ro n cur))"
  "onlyTenant penv t r (fst (cs_readers (repoStore penv env pg) r t rid mid))"
  "onlyTenant penv t r (fst (cs_lastRead (repoStore penv env pg) r t rid u))"
  "onlyTenant penv t r (fst (cs_unread (repoStore penv env pg) r t rid u))"
  "onlyTenant penv t r (fst (cs_unreads (repoStore penv env pg) r t u))"
  "onlyTenant penv t r (fst (cs_listRooms (repoStore penv env pg) r t u n at ro))"
  "onlyTenant penv (ms_TenantID m) r (fst (cs_createMessage (repoStore penv env pg) r m))"
  by (simp_all add: repoStore_def repo_ops onlyTenant_withPool)

text \<open>
  What the handlers need of the store for the isolation of tenants, for any notion \<open>E\<close> of what a request of a tenant may change: every operation changes only that
  for the tenant it is called for, and what follows the creation of a message for the same tenant still does. \<open>ok\<close> is a condition on the state at the begin of a request.
\<close>

locale isolated_store =
  fixes st :: "'s chatStore" and E :: "string \<Rightarrow> 's \<Rightarrow> 's \<Rightarrow> bool" and ok :: "'s \<Rightarrow> bool"
  assumes still: "E t s s"
    and only:
    "E t s (fst (cs_createRoom st s t room ms))"
    "E t s (fst (cs_addMember st s t rid u))"
    "E t s (fst (cs_isMember st s t rid u))"
    "E t s (fst (cs_markRead st s t rid u mid))"
    "E t s (fst (cs_listMessages st s t rid n cur))"
    "E t s (fst (cs_searchMessages st s t q ro n cur))"
    "E t s (fst (cs_readers st s t rid mid))"
    "E t s (fst (cs_lastRead st s t rid u))"
    "E t s (fst (cs_unread st s t rid u))"
    "E t s (fst (cs_unreads st s t u))"
    "E t s (fst (cs_listRooms st s t u n at ro))"
    "E (ms_TenantID m) s (fst (cs_createMessage st s m))"
    and follow: "ok s \<Longrightarrow> cs_createMessage st s m = (s1, Inr x) \<Longrightarrow> E (ms_TenantID m) s1 s2 \<Longrightarrow> E (ms_TenantID m) s s2"
begin

text \<open>The heads of the handlers pass on what the store does.\<close>

lemma only_answer: "E t s (fst out) \<Longrightarrow> E t s (fst (answer f k js out))"
  by (auto simp: answer_def split: prod.splits sum.splits)

lemma only_withTenant: "c ''auth_tenant_id'' = Some (CStr t) \<Longrightarrow> E t s (fst (f t)) \<Longrightarrow> E t s (fst (withTenant c s f))"
  by (simp add: withTenant_def chat_tenantFromContext_def)

lemma only_withActor: "c ''auth_tenant_id'' = Some (CStr t) \<Longrightarrow> (\<And>u. E t s (fst (f t u))) \<Longrightarrow> E t s (fst (withActor c s f))"
  unfolding withActor_def by (rule only_withTenant) (auto simp: still split: sum.splits)

lemma only_withBody: "(\<And>req. E t s (fst (f req))) \<Longrightarrow> E t s (fst (withBody bind s f))"
  by (auto simp: withBody_def still split: sum.splits)

lemma only_page: "E t s (fst out) \<Longrightarrow> E t s (fst (case out of (s', Inl e) \<Rightarrow> (s', Inl e) | (s', Inr items) \<Rightarrow> (s', Inr (f items))))"
  by (auto split: prod.splits sum.splits)

lemma create_only:
  assumes "ch_store svc = st" "ok s"
  shows "E (ms_TenantID msg) s (fst (svc_CreateMessage svc s msg))"
proof -
  let ?t = "ms_TenantID msg"
  obtain s1 res where c: "cs_createMessage st s (metaOf msg) = (s1, res)" by fastforce
  show ?thesis
  proof (cases res)
    case (Inl e)
    then show ?thesis using c only(12)[of "metaOf msg" s] assms(1) unfolding svc_CreateMessage_def metaOf_def[symmetric] Let_def by simp
  next
    case (Inr m)
    have "E ?t s1 (fst (cs_markRead st s1 ?t (ms_RoomID m) (ms_SenderID m) (ms_ID m)))" by (rule only)
    then have "E ?t s (fst (cs_markRead st s1 ?t (ms_RoomID m) (ms_SenderID m) (ms_ID m)))"
      using follow[OF assms(2) c[unfolded Inr]] by simp
    then show ?thesis using c Inr assms(1) unfolding svc_CreateMessage_def metaOf_def[symmetric] Let_def by simp
  qed
qed

lemma pages_only:
  assumes "ch_store svc = st"
  shows "E t s (fst (chat_ListMessages svc s t room n cur))"
    and "E t s (fst (chat_ListMyRooms svc s t u n cur))"
    and "E t s (fst (chat_SearchMessages svc http s t q ro n cur))"
proof -
  show "E t s (fst (chat_ListMessages svc s t room n cur))"
    by (auto simp: chat_ListMessages_def assms Let_def still split: sum.split intro!: only_page only)
  show "E t s (fst (chat_ListMyRooms svc s t u n cur))"
    by (auto simp: chat_ListMyRooms_def assms Let_def still split: sum.split intro!: only_page only)
  have "fst (chat_SearchMessages svc http s t q ro n cur) = (case cursorID cur of Inl _ \<Rightarrow> s
      | Inr cid \<Rightarrow> fst (cs_searchMessages (ch_store svc) s t q ro (clampLimit 100 30 n + 1) cid))"
    by (auto simp: chat_SearchMessages_def Let_def split: sum.splits prod.splits)
  then show "E t s (fst (chat_SearchMessages svc http s t q ro n cur))"
    by (auto simp: assms still split: sum.split intro!: only)
qed

lemma message_only:
  assumes "ch_store svc = st" "ok s" "c ''auth_tenant_id'' = Some (CStr t)"
  shows "E t s (fst (api_createMessage svc renv pubErr s rt c room bind))"
proof -
  have "E t s (fst (svc_CreateMessage svc s msg))" if "ms_TenantID msg = t" for msg
    using create_only[OF assms(1,2), of msg] that by simp
  note created = this[where msg = "\<lparr>ms_TenantID = t, ms_ID = i, ms_RoomID = ro, ms_SenderID = u, ms_Body = b, ms_MetaJSON = mj, ms_CreatedAt = at\<rparr>"
      for i ro u b mj at, simplified]
  have step: "fst (case out of (s', Inl e, sent) \<Rightarrow> f s' e sent | (s', Inr m, sent) \<Rightarrow> g s' m sent) = fst out"
    if "\<And>s' e sent. fst (f s' e sent) = s'" "\<And>s' m sent. fst (g s' m sent) = s'"
    for out :: "'s \<times> Message result \<times> chatEffect list" and f g
    using that by (auto split: prod.split sum.split)
  show ?thesis
    unfolding api_createMessage_def chat_tenantFromContext_def assms(3) option.case ctxval.case sum.case
    by (cases "chat_actorFromContext c"; cases bind) (auto simp: step created still split: prod.split sum.split)
qed

lemma handlers_only:
  assumes "ch_store svc = st" and t: "c ''auth_tenant_id'' = Some (CStr t)"
  shows "E t s (fst (api_createRoom svc s c bind1))"
    and "E t s (fst (api_listMyRooms svc s c limitQ cursor))"
    and "E t s (fst (api_addMember svc s c roomID bind2))"
    and "E t s (fst (api_listMessages svc s c roomID limitQ cursor))"
    and "E t s (fst (api_getRoomUnreadCount svc s c roomID))"
    and "E t s (fst (api_getMyUnreadCounts svc s c))"
    and "E t s (fst (api_markRoomRead svc s c roomID bind2))"
    and "E t s (fst (api_getMyReadState svc s c roomID))"
    and "E t s (fst (api_getMessageReaders svc s c roomID messageID))"
    and "E t s (fst (api_searchMessages svc http s c q limitQ cursor roomQ))"
  unfolding api_createRoom_def api_listMyRooms_def api_addMember_def api_listMessages_def api_getRoomUnreadCount_def
    api_getMyUnreadCounts_def api_markRoomRead_def api_getMyReadState_def api_getMessageReaders_def api_searchMessages_def Let_def chat_passes assms(1)
  by (intro only_withActor only_withTenant only_withBody only_answer only pages_only[OF assms(1)] t)+

lemma request_only:
  assumes "ch_store svc = st" "ok s" "c ''auth_tenant_id'' = Some (CStr t)"
    and "chat_request svc renv c s s' resp"
  shows "E t s s'"
  using assms(4)
proof cases
  case (createMessage pubErr rt roomID bind rt' sent pub)
  then show ?thesis
    using message_only[where svc = svc and c = c and t = t, OF assms(1-3)] by (metis fst_conv)
qed (metis fst_conv handlers_only[where svc = svc and c = c and t = t and s = s, OF assms(1,3)])+

end

lemma repoStore_same_pool:
  assumes "0 < db_cacheTTL (router r)" "cs_createMessage (repoStore penv env pg) r m = (r1, Inr x)"
  shows "snd (DBForTenant (router r1) (ms_TenantID m) penv) = snd (DBForTenant (router r) (ms_TenantID m) penv)"
proof -
  have "router (fst (cs_createMessage (repoStore penv env pg) r m)) = fst (DBForTenant (router r) (ms_TenantID m) penv)"
    by (simp add: repoStore_def CreateMessage_def router_withPool)
  then have r1: "router r1 = fst (DBForTenant (router r) (ms_TenantID m) penv)" using assms(2) by simp
  obtain pool where "snd (DBForTenant (router r) (ms_TenantID m) penv) = Inr pool"
    using assms(2) by (auto simp: repoStore_def CreateMessage_def withPool_def split: prod.splits sum.splits)
  then show ?thesis unfolding r1 by (intro dbr.again[OF assms(1)]) simp
qed

lemma repoStore_follow:
  assumes "0 < db_cacheTTL (router r)" "cs_createMessage (repoStore penv env pg) r m = (r1, Inr x)" "onlyTenant penv (ms_TenantID m) r1 r2"
  shows "onlyTenant penv (ms_TenantID m) r r2"
  using repoStore_only(12)[of penv m r env pg] repoStore_same_pool[OF assms(1,2)] assms(2,3) by (simp add: onlyTenant_def)

interpretation repo_store: isolated_store "repoStore penv env pg" "onlyTenant penv" "\<lambda>r. 0 < db_cacheTTL (router r)" for penv env pg
  by unfold_locales (rule onlyTenant_refl repoStore_only repoStore_follow; assumption)+

lemma chat_request_unauthorized:
  assumes "chat_request svc renv c r r' resp" and "chat_tenantFromContext c = Inl e"
  shows "r' = r \<and> fst resp = 401"
  using assms(1) by cases
    (use assms(2) in \<open>auto simp: head_defs api_createRoom_def api_listMyRooms_def api_addMember_def api_listMessages_def api_getRoomUnreadCount_def
      api_getMyUnreadCounts_def api_markRoomRead_def api_getMyReadState_def api_getMessageReaders_def api_searchMessages_def api_createMessage_def\<close>)

lemma chat_tenantFromContext_Inr: "chat_tenantFromContext c = Inr t \<longleftrightarrow> c ''auth_tenant_id'' = Some (CStr t)"
  by (auto simp: chat_tenantFromContext_def split: option.splits ctxval.splits)

section \<open>Properties\<close>

text \<open>
  Tenants are isolated. Whatever request of the REST interface is served, with whatever parameters, only the data base
  that the router gives for the tenant of the request's token may have changed; a request without a tenant is
  refused with status 401 and changes nothing.
\<close>

theorem chat_tenant_isolation:
  assumes "ch_store svc = repoStore penv env pg" and "0 < db_cacheTTL (router r)" and "chat_request svc renv c r r' resp"
  shows "case chat_tenantFromContext c of
     Inl _ \<Rightarrow> r' = r \<and> fst resp = 401
   | Inr t \<Rightarrow> (\<forall>p. snd (DBForTenant (router r) t penv) \<noteq> Inr p \<longrightarrow> pools r' p = pools r p)"
  using repo_store.request_only[OF assms(1,2) _ assms(3)] chat_request_unauthorized[OF assms(3)]
  by (auto split: sum.split simp: chat_tenantFromContext_Inr onlyTenant_def)

definition ctxEx :: ctx where
  "ctxEx = [''auth_user_id'' \<mapsto> CStr ''ada'', ''auth_tenant_id'' \<mapsto> CStr ''acme'', ''auth_role'' \<mapsto> CStr ''user'']"

definition redisEnvEx :: "string redisEnv" where
  "redisEnvEx = \<lparr>rd_now = 0, rd_provider = (\<lambda>_. Inl ''down''), rd_newClient = id\<rparr>"

theorem chat_tenant_isolation_witness:
  "pools (fst (api_addMember chatSvc (chatRepoEx roomsDB) ctxEx ''r'' (Inr ''bob''))) ''shared'' = roomsDB"
proof -
  obtain r' resp where req: "api_addMember chatSvc (chatRepoEx roomsDB) ctxEx ''r'' (Inr ''bob'') = (r', resp)"
    by (cases "api_addMember chatSvc (chatRepoEx roomsDB) ctxEx ''r'' (Inr ''bob'')")
  have "ch_store chatSvc = repoStore acmeEnv chatEnv plainText" by (simp add: chatSvc_def)
  moreover have "0 < db_cacheTTL (router (chatRepoEx roomsDB))" by (simp add: chatRepoEx_def NewTenantDBRouterWithProvider_def)
  moreover have "chat_tenantFromContext ctxEx = Inr ''acme''" by (simp add: chat_tenantFromContext_def ctxEx_def)
  ultimately show ?thesis
    using chat_tenant_isolation[OF _ _ chat_request.addMember[OF req, of redisEnvEx], of acmeEnv chatEnv plainText] chatRepoEx_pool[of roomsDB] req
    by simp
qed


text \<open>
  C15: Only members get a web socket. If \<open>handleWS\<close> opens a connection, the request carried a token that the token service accepts
  and the data base of the token's tenant has the token's user as a member of the room; the connection then stands for this
  user, room and tenant. Every other request is refused with an error status and joins no room, and no data base changes.
\<close>

theorem handleWS_members_only:
  assumes "ch_store svc = repoStore penv env pg" and "handleWS svc parse renv r rs rt c req upgrade = (r', rs', rt', out)"
  shows "pools r' = pools r \<and>
   (case out of
      Inl resp \<Rightarrow> rs' = rs \<and> fst resp \<in> {400, 401, 403, 500}
    | Inr conn \<Rightarrow> (\<exists>token u t role pool.
         wsAccessToken (wr_authorization req) (wr_accessToken req) (wr_token req) = Some token \<and> parse token = Inr (u, t, role)
       \<and> snd (DBForTenant (router r) t penv) = Inr pool \<and> isMember t (TrimSpace (wr_room req)) u (pools r pool)
       \<and> wc_authUserID conn = TrimSpace u \<and> wc_roomID conn = TrimSpace (wr_room req)
       \<and> wc_tenantID conn = (if TrimSpace t \<noteq> '''' then TrimSpace t else if TrimSpace (wr_tenant req) \<noteq> '''' then TrimSpace (wr_tenant req) else ''default'')
       \<and> upgrade = Inr (wc_conn conn)))"
proof -
  let ?room = "TrimSpace (wr_room req)"
  have member: "pools (fst (IsRoomMember r penv env t ?room u)) = pools r
     \<and> (\<forall>b. snd (IsRoomMember r penv env t ?room u) = Inr b \<longrightarrow>
          (\<exists>pool. snd (DBForTenant (router r) t penv) = Inr pool \<and> b = isMember t ?room u (pools r pool)))" for t u
    by (auto simp: IsRoomMember_def withPool_def exec_def split: prod.splits sum.splits option.splits)
  have opened: "case HandleWS_open rs rt renv (wr_tenant req) c' (wr_room req) upgrade of
       (rs'', rt'', Inl resp) \<Rightarrow> rs'' = rs \<and> fst resp \<in> {400, 500}
     | (rs'', rt'', Inr conn) \<Rightarrow> wc_authUserID conn = wsUser c' \<and> wc_roomID conn = ?room
         \<and> wc_tenantID conn = wsTenant (wr_tenant req) c' \<and> upgrade = Inr (wc_conn conn)" for c'
    by (auto simp: HandleWS_open_def Let_def split: prod.splits sum.splits)
  show ?thesis
  proof (cases "wsAccessToken (wr_authorization req) (wr_accessToken req) (wr_token req)")
    case (Some token)
    note tok = this
    show ?thesis
    proof (cases "parse token")
      case (Inr claims)
      then obtain u t role where claims: "parse token = Inr (u, t, role)" by (cases claims) auto
      obtain r1 res where m: "IsRoomMember r penv env t ?room u = (r1, res)" by fastforce
      let ?c = "c(''auth_access_token'' \<mapsto> CStr token, ''auth_user_id'' \<mapsto> CStr u, ''auth_tenant_id'' \<mapsto> CStr t)"
      have who: "wsUser ?c = TrimSpace u" "wsTenant (wr_tenant req) ?c = (if TrimSpace t \<noteq> '''' then TrimSpace t
          else if TrimSpace (wr_tenant req) \<noteq> '''' then TrimSpace (wr_tenant req) else ''default'')"
        by (simp_all add: wsUser_def wsTenant_def Let_def)
      obtain rs1 rt1 o1 where op: "HandleWS_open rs rt renv (wr_tenant req) ?c (wr_room req) upgrade = (rs1, rt1, o1)"
        by (cases "HandleWS_open rs rt renv (wr_tenant req) ?c (wr_room req) upgrade") auto
      note run = assms(2)[unfolded handleWS_def chat_passes tok option.case claims sum.case prod.case Let_def assms(1)]
      show ?thesis
      proof (cases "?room \<noteq> '''' \<and> res = Inr True")
        case True
        then have eq: "r' = r1" "rs' = rs1" "out = o1" using run m op by (simp_all add: repoStore_def)
        obtain pool where "snd (DBForTenant (router r) t penv) = Inr pool" "isMember t ?room u (pools r pool)" "pools r1 = pools r"
          using member[of t u] m True by auto
        then show ?thesis using opened[of ?c] op tok claims who eq by (cases o1) auto
      next
        case False
        then show ?thesis using run m member[of t u] by (cases res) (auto simp: repoStore_def split: if_splits)
      qed
    qed (use tok assms(2) in \<open>auto simp: handleWS_def\<close>)
  qed (use assms(2) in \<open>auto simp: handleWS_def\<close>)
qed

definition wsReqEx :: "string \<Rightarrow> wsRequest" where
  "wsReqEx room = \<lparr>wr_authorization = ''Bearer tok'', wr_accessToken = '''', wr_token = '''', wr_tenant = '''', wr_room = room\<rparr>"

definition parseEx :: "string \<Rightarrow> (string \<times> string \<times> string) result" where
  "parseEx token = (if token = ''tok'' then Inr (''ada'', ''acme'', ''user'') else Inl ''bad'')"

definition wsEx :: "string \<Rightarrow> string Repo \<times> string rooms \<times> string TenantRedisRouter \<times> (response + wsConn)" where
  "wsEx room = handleWS chatSvc parseEx redisEnvEx (chatRepoEx roomsDB) [] (NewTenantRedisRouter ''redis'' False) Map.empty (wsReqEx room) (Inr 7)"

lemma chatSvc_isMember:
  "snd (cs_isMember (ch_store chatSvc) (chatRepoEx roomsDB) ''acme'' room u) = Inr (isMember ''acme'' room u roomsDB)"
  using withPool_result[OF chatRepoEx_pool, of roomsDB "exec chatEnv 0 (\<lambda>db. (db, Inr (isMember ''acme'' room u db)))"]
  by (simp add: chatSvc_def repoStore_def IsRoomMember_def) (simp add: exec_def)

lemma wsEx_opened: "\<exists>conn. snd (snd (snd (wsEx ''r''))) = Inr conn"
proof -
  have "isMember ''acme'' ''r'' ''ada'' roomsDB" by (simp add: isMember_def roomsDB_def memberOf_def)
  then have m: "snd (cs_isMember (ch_store chatSvc) (chatRepoEx roomsDB) ''acme'' ''r'' ''ada'') = Inr True"
    by (simp add: chatSvc_isMember)
  have tok: "wsAccessToken ''Bearer tok'' '''' '''' = Some ''tok''"
    by (simp add: wsAccessToken_def HasPrefix_def TrimPrefix_def TrimSpace_eval Let_def)
  show ?thesis
    using m tok by (cases "cs_isMember (ch_store chatSvc) (chatRepoEx roomsDB) ''acme'' ''r'' ''ada''")
      (simp add: wsEx_def handleWS_def wsReqEx_def parseEx_def TrimSpace_eval Let_def HandleWS_open_def ClientForTenant_def
        rd_loadMeta_def NewTenantRedisRouter_def wsTenant_def)
qed

theorem handleWS_members_only_witness:
  "(\<exists>conn. snd (snd (snd (wsEx ''r''))) = Inr conn \<and> wc_tenantID conn = ''acme'' \<and> wc_authUserID conn = ''ada'' \<and> wc_conn conn = 7)
   \<and> isMember ''acme'' ''r'' ''ada'' roomsDB"
proof -
  obtain conn where conn: "snd (snd (snd (wsEx ''r''))) = Inr conn" using wsEx_opened by blast
  obtain r' rs' rt' where run: "wsEx ''r'' = (r', rs', rt', Inr conn)" using conn by (cases "wsEx ''r''") auto
  have "ch_store chatSvc = repoStore acmeEnv chatEnv plainText" by (simp add: chatSvc_def)
  from handleWS_members_only[OF this run[unfolded wsEx_def]] show ?thesis
    using conn by (auto simp: parseEx_def wsReqEx_def TrimSpace_eval split: if_splits)
qed


lemma PublishMessage_outcome:
  "PublishMessage rt renv pubErr t room u m = (rt', Inr x, pub) \<Longrightarrow>
   \<exists>client. snd (ClientForTenant rt t renv) = Inr client
     \<and> pub = Some (client, channelOf t room, envelopeJson \<lparr>ev_Type = ''message'', ev_RoomID = room, ev_UserID = u, ev_TargetID = '''', ev_Payload = messageJson m\<rparr>)"
  by (auto simp: PublishMessage_def Let_def split: prod.splits sum.splits option.splits)

lemma api_createMessage_201:
  assumes "api_createMessage svc renv pubErr s rt c room bind = (s', rt', (201, body), sent, pub)"
  obtains t u role req m where "chat_tenantFromContext c = Inr t" "chat_actorFromContext c = Inr (u, role)" "bind = Inr req"
    "svc_CreateMessage svc s \<lparr>ms_TenantID = t, ms_ID = '''', ms_RoomID = room, ms_SenderID = u, ms_Body = mq_Body req,
       ms_MetaJSON = Text (BuildMessageMeta (mq_FileID req) (mq_FileIDs req) (mq_Emojis req)), ms_CreatedAt = 0\<rparr> = (s', Inr m, sent)"
    "body = messageJson m" "if IsMQEnabled svc then pub = None else PublishMessage rt renv pubErr t room u m = (rt', Inr (), pub)"
  using assms
  by (auto simp: api_createMessage_def split: sum.splits prod.splits if_splits)



definition quietSvc :: "string Repo ChatService" where
  "quietSvc = chatSvc\<lparr>ch_useMQ := False\<rparr>"

lemma CreateMessage_useMQ: "fst (snd (svc_CreateMessage (svc\<lparr>ch_useMQ := b\<rparr>) s m)) = fst (snd (svc_CreateMessage svc s m))"
  by (auto simp: svc_CreateMessage_def Let_def split: prod.splits sum.splits)

definition postEx :: "string Repo ChatService \<Rightarrow> string Repo \<times> string TenantRedisRouter \<times> response \<times> chatEffect list \<times> (string \<times> string \<times> json) option" where
  "postEx svc = api_createMessage svc redisEnvEx (\<lambda>_. None) (chatRepoEx roomsDB) (NewTenantRedisRouter ''redis'' False) ctxEx ''r''
     (Inr \<lparr>mq_Body = ''hello'', mq_FileID = None, mq_FileIDs = [], mq_Emojis = None\<rparr>)"

lemma redisEx_client: "snd (ClientForTenant (NewTenantRedisRouter ''redis'' False) ''acme'' redisEnvEx) = Inr ''redis''"
  by (simp add: ClientForTenant_def rd_loadMeta_def NewTenantRedisRouter_def TrimSpace_eval Let_def)

lemma postEx_201: "\<exists>body. fst (snd (snd (postEx (chatSvc\<lparr>ch_useMQ := b\<rparr>)))) = (201, body)"
proof -
  let ?m = "\<lparr>ms_TenantID = ''acme'', ms_ID = '''', ms_RoomID = ''r'', ms_SenderID = ''ada'', ms_Body = ''hello'',
     ms_MetaJSON = Text (BuildMessageMeta None [] None), ms_CreatedAt = 0\<rparr>"
  obtain m where m: "fst (snd (svc_CreateMessage (chatSvc\<lparr>ch_useMQ := b\<rparr>) (chatRepoEx roomsDB) ?m)) = Inr m"
    using chatSvc_creates[of ?m] by (simp add: CreateMessage_useMQ)
  obtain rt' client where "ClientForTenant (NewTenantRedisRouter ''redis'' False) ''acme'' redisEnvEx = (rt', Inr client)"
    using redisEx_client by (cases "ClientForTenant (NewTenantRedisRouter ''redis'' False) ''acme'' redisEnvEx") auto
  then show ?thesis
    using m by (cases "svc_CreateMessage (chatSvc\<lparr>ch_useMQ := b\<rparr>) (chatRepoEx roomsDB) ?m")
      (simp add: postEx_def api_createMessage_def ctxEx_def chat_tenantFromContext_def chat_actorFromContext_def PublishMessage_def Let_def)
qed


section \<open>Defects\<close>

text \<open>
  With the queue enabled, \<open>createMessage\<close> publishes the message as an event of the queue only; nothing is published on Redis,
  where the web sockets listen, and no part of the repository consumes the queue. Such a message reaches nobody who is connected.
\<close>

lemma createMessage_MQ_silent:
  assumes "IsMQEnabled svc" "api_createMessage svc renv pubErr s rt c room bind = (s', rt', resp, sent, pub)"
  shows "pub = None"
  using assms by (auto simp: api_createMessage_def split: sum.splits prod.splits if_splits)

text \<open>\<open>handleWS\<close> demands membership of the room, but over HTTP any user of the tenant may read it.\<close>

lemma listMessages_any_user:
  "c ''auth_tenant_id'' = Some (CStr t) \<Longrightarrow>
   api_listMessages svc s c room limitQ cursor = api_listMessages svc s (c(''auth_user_id'' \<mapsto> CStr stranger)) room limitQ cursor"
  by (simp add: api_listMessages_def withTenant_def chat_tenantFromContext_def)

end
