(* ===== verification/OrgHub.thy ===== *)
theory OrgHub
  imports UserRepo ChatApi
begin

text \<open>
  The organisation server: \<open>server/orgHub/service/user_service.go\<close> and the routes and handlers of
  \<open>server/orgHub/api/handler.go\<close>, over a record of the operations of the data base server. \<open>time.Parse\<close>, the client's address and
  user agent and the result of \<open>ShouldBindJSON\<close> are arguments of the handlers.
\<close>

record 's userStore =
  os_createOrg :: "'s \<Rightarrow> string \<Rightarrow> string option \<Rightarrow> string \<Rightarrow> 's \<times> string result"
  os_listOrgs :: "'s \<Rightarrow> string \<Rightarrow> 's \<times> OrgUnit list result"
  os_createUser :: "'s \<Rightarrow> string \<Rightarrow> User \<Rightarrow> 's \<times> string result"
  os_status :: "'s \<Rightarrow> string \<Rightarrow> string \<Rightarrow> string \<Rightarrow> string \<Rightarrow> 's \<times> unit result"
  os_search :: "'s \<Rightarrow> string \<Rightarrow> string \<Rightarrow> int \<Rightarrow> 's \<times> User list result"
  os_auth :: "'s \<Rightarrow> string \<Rightarrow> string \<Rightarrow> string \<Rightarrow> 's \<times> User result"
  os_aliases :: "'s \<Rightarrow> string \<Rightarrow> string \<Rightarrow> 's \<times> string list result"
  os_addAlias :: "'s \<Rightarrow> string \<Rightarrow> string \<Rightarrow> string \<Rightarrow> string \<Rightarrow> string \<Rightarrow> 's \<times> unit result"
  os_deleteAlias :: "'s \<Rightarrow> string \<Rightarrow> string \<Rightarrow> string \<Rightarrow> string \<Rightarrow> string \<Rightarrow> 's \<times> unit result"
  os_audit :: "'s \<Rightarrow> string \<Rightarrow> string \<Rightarrow> int \<Rightarrow> auditFilter \<Rightarrow> time option \<Rightarrow> string option \<Rightarrow> 's \<times> AliasAudit list result"

section \<open>The service\<close>

text \<open>The methods of the service that pass their arguments on to the client of the data base server.\<close>

definition org_CreateOrgUnit :: "'s userStore \<Rightarrow> 's \<Rightarrow> string \<Rightarrow> string option \<Rightarrow> string \<Rightarrow> 's \<times> string result" where
  "org_CreateOrgUnit st s tenantID parentID name = os_createOrg st s tenantID parentID name"

definition org_ListOrgUnits :: "'s userStore \<Rightarrow> 's \<Rightarrow> string \<Rightarrow> 's \<times> OrgUnit list result" where
  "org_ListOrgUnits st s tenantID = os_listOrgs st s tenantID"

definition org_CreateUser :: "'s userStore \<Rightarrow> 's \<Rightarrow> string \<Rightarrow> User \<Rightarrow> 's \<times> string result" where
  "org_CreateUser st s tenantID user = os_createUser st s tenantID user"

definition org_UpdateStatus :: "'s userStore \<Rightarrow> 's \<Rightarrow> string \<Rightarrow> string \<Rightarrow> string \<Rightarrow> string \<Rightarrow> 's \<times> unit result" where
  "org_UpdateStatus st s tenantID userID status note' = os_status st s tenantID userID status note'"

definition org_Authenticate :: "'s userStore \<Rightarrow> 's \<Rightarrow> string \<Rightarrow> string \<Rightarrow> string \<Rightarrow> 's \<times> User result" where
  "org_Authenticate st s tenantID email password = os_auth st s tenantID email password"

definition org_ListAliases :: "'s userStore \<Rightarrow> 's \<Rightarrow> string \<Rightarrow> string \<Rightarrow> 's \<times> string list result" where
  "org_ListAliases st s tenantID userID = os_aliases st s tenantID userID"

definition org_AddAlias :: "'s userStore \<Rightarrow> 's \<Rightarrow> string \<Rightarrow> string \<Rightarrow> string \<Rightarrow> string \<Rightarrow> string \<Rightarrow> 's \<times> unit result" where
  "org_AddAlias st s tenantID userID alias ip userAgent = os_addAlias st s tenantID userID alias ip userAgent"

definition org_DeleteAlias :: "'s userStore \<Rightarrow> 's \<Rightarrow> string \<Rightarrow> string \<Rightarrow> string \<Rightarrow> string \<Rightarrow> string \<Rightarrow> 's \<times> unit result" where
  "org_DeleteAlias st s tenantID userID alias ip userAgent = os_deleteAlias st s tenantID userID alias ip userAgent"

lemmas org_passes [simp] = org_CreateOrgUnit_def org_ListOrgUnits_def org_CreateUser_def org_UpdateStatus_def org_Authenticate_def org_ListAliases_def org_AddAlias_def org_DeleteAlias_def

definition org_SearchUsers :: "'s userStore \<Rightarrow> 's \<Rightarrow> string \<Rightarrow> string \<Rightarrow> int \<Rightarrow> 's \<times> User list result" where
  "org_SearchUsers st s t q limit = os_search st s t q (clampLimit 100 20 limit)"

definition encodeAliasAuditCursor :: "time \<Rightarrow> string \<Rightarrow> string" where
  "encodeAliasAuditCursor createdAt i = EncodeToString (show_int (wrap64 createdAt) @ '':'' @ i)"

definition decodeAliasAuditCursor :: "string \<Rightarrow> (time \<times> string) result" where
  "decodeAliasAuditCursor cursor =
     (case DecodeString cursor of
        None \<Rightarrow> Inl ''illegal base64 data''
      | Some decoded \<Rightarrow>
          (case SplitN2 decoded (CHR '':'') of
             [a, b] \<Rightarrow>
               (case ParseInt a of
                  (_, Some _) \<Rightarrow> Inl ''strconv.ParseInt: parsing error''
                | (nanos, None) \<Rightarrow>
                    let i = TrimSpace b in
                    if i = '''' then Inl ''invalid cursor id'' else Inr (nanos, i))
           | _ \<Rightarrow> Inl ''invalid cursor format''))"

definition auditCursor :: "string \<Rightarrow> (time option \<times> string option) result" where
  "auditCursor cursor =
     (if TrimSpace cursor = '''' then Inr (None, None)
      else case decodeAliasAuditCursor cursor of
          Inl _ \<Rightarrow> Inl ''cursor is invalid''
        | Inr (at, i) \<Rightarrow> Inr (Some at, Some i))"

definition org_ListAliasAudit ::
  "'s userStore \<Rightarrow> 's \<Rightarrow> string \<Rightarrow> string \<Rightarrow> int \<Rightarrow> auditFilter \<Rightarrow> string \<Rightarrow> 's \<times> (AliasAudit list \<times> string) result" where
  "org_ListAliasAudit st s t userID limit0 f0 cursor =
     (let limit = clampLimit 200 50 limit0 in
      case checkFilter f0 of
        Inl e \<Rightarrow> (s, Inl e)
      | Inr f \<Rightarrow>
          (case auditCursor cursor of
             Inl e \<Rightarrow> (s, Inl e)
           | Inr (cAt, cID) \<Rightarrow>
               (case os_audit st s t userID (limit + 1) f cAt cID of
                  (s', Inl e) \<Rightarrow> (s', Inl e)
                | (s', Inr items) \<Rightarrow> (s', Inr (cutPage (\<lambda>x. encodeAliasAuditCursor (aa_CreatedAt x) (aa_ID x)) limit items)))))"

section \<open>Identity\<close>

definition ErrInvalidCredentials :: string where "ErrInvalidCredentials = ''invalid credentials''"
definition ErrCannotUpdateOtherUserState :: string where "ErrCannotUpdateOtherUserState = ''cannot update another user's status''"
definition ErrFromMustBeRFC3339 :: string where "ErrFromMustBeRFC3339 = ''from must use RFC3339 format''"
definition ErrToMustBeRFC3339 :: string where "ErrToMustBeRFC3339 = ''to must use RFC3339 format''"

definition org_actorFromContext :: "ctx \<Rightarrow> (string \<times> string) option" where
  "org_actorFromContext c =
     (case c ''auth_tenant_id'' of
        None \<Rightarrow> None
      | Some rawTenantID \<Rightarrow>
          (case c ''auth_user_id'' of
             None \<Rightarrow> None
           | Some rawUserID \<Rightarrow>
               (case rawTenantID of
                  COther \<Rightarrow> None
                | CStr tenantID \<Rightarrow>
                    if TrimSpace tenantID = '''' then None
                    else (case rawUserID of
                            COther \<Rightarrow> None
                          | CStr userID \<Rightarrow> if TrimSpace userID = '''' then None else Some (tenantID, userID)))))"

definition org_actorRoleFromContext :: "ctx \<Rightarrow> string option" where
  "org_actorRoleFromContext c =
     (case c ''auth_role'' of
        Some (CStr role) \<Rightarrow> if TrimSpace role = '''' then None else Some (TrimSpace role)
      | _ \<Rightarrow> None)"

definition withOrgActor :: "ctx \<Rightarrow> 's \<Rightarrow> (string \<Rightarrow> string \<Rightarrow> 's \<times> response) \<Rightarrow> 's \<times> response" where
  "withOrgActor c s f = (case org_actorFromContext c of None \<Rightarrow> (s, (401, NewErrorResponse ErrUnauthorized)) | Some (t, u) \<Rightarrow> f t u)"

section \<open>Handlers\<close>

definition orgJson :: "OrgUnit \<Rightarrow> json" where
  "orgJson x = JObj ([(''tenant_id'', JStr (ou_TenantID x)), (''id'', JStr (ou_ID x))] @ omitempty ''parent_id'' (map_option JStr (ou_ParentID x))
     @ [(''name'', JStr (ou_Name x)), (''created_at'', jtime (ou_CreatedAt x))])"

text \<open>The password hash carries the tag \<open>json:"-"\<close> and never leaves the server.\<close>

definition userJson :: "User \<Rightarrow> json" where
  "userJson x = JObj [(''tenant_id'', JStr (us_TenantID x)), (''id'', JStr (us_ID x)), (''org_id'', JStr (us_OrgID x)), (''email'', JStr (us_Email x)),
     (''name'', JStr (us_Name x)), (''title'', JStr (us_Title x)), (''role'', JStr (us_Role x)), (''status'', JStr (us_Status x)),
     (''status_note'', JStr (us_StatusNote x)), (''created_at'', jtime (us_CreatedAt x)), (''updated_at'', jtime (us_UpdatedAt x))]"

definition auditJson :: "AliasAudit \<Rightarrow> json" where
  "auditJson x = JObj [(''tenant_id'', JStr (aa_TenantID x)), (''id'', JStr (aa_ID x)), (''user_id'', JStr (aa_UserID x)), (''alias'', JStr (aa_Alias x)),
     (''action'', JStr (aa_Action x)), (''acted_by'', JStr (aa_ActedBy x)), (''ip'', JStr (aa_IP x)), (''user_agent'', JStr (aa_UserAgent x)),
     (''created_at'', jtime (aa_CreatedAt x))]"

definition org_createOrgUnit :: "'s userStore \<Rightarrow> 's \<Rightarrow> ctx \<Rightarrow> (string option \<times> string) result \<Rightarrow> 's \<times> response" where
  "org_createOrgUnit st s c bind =
     withOrgActor c s (\<lambda>t _. withBody bind s (\<lambda>(parentID, name). answer 500 201 NewIDResponse (org_CreateOrgUnit st s t parentID name)))"

definition org_listOrgUnits :: "'s userStore \<Rightarrow> 's \<Rightarrow> ctx \<Rightarrow> 's \<times> response" where
  "org_listOrgUnits st s c = withOrgActor c s (\<lambda>t _. answer 500 200 (\<lambda>items. JArr (map orgJson items)) (org_ListOrgUnits st s t))"

record userReq =
  uq_OrgID :: string
  uq_Email :: string
  uq_Password :: string
  uq_Name :: string
  uq_Title :: string
  uq_Role :: string
  uq_Status :: string
  uq_StatusNote :: string

definition org_createUser :: "'s userStore \<Rightarrow> 's \<Rightarrow> ctx \<Rightarrow> userReq result \<Rightarrow> 's \<times> response" where
  "org_createUser st s c bind =
     withOrgActor c s (\<lambda>t _. withBody bind s (\<lambda>req.
       answer 500 201 NewIDResponse (org_CreateUser st s t
         \<lparr>us_TenantID = '''', us_ID = '''', us_OrgID = uq_OrgID req, us_Email = uq_Email req, us_Name = uq_Name req, us_Title = uq_Title req,
          us_Role = uq_Role req, us_Status = uq_Status req, us_StatusNote = uq_StatusNote req, us_PasswordHash = uq_Password req,
          us_CreatedAt = 0, us_UpdatedAt = 0\<rparr>)))"

definition org_updateUserStatus :: "'s userStore \<Rightarrow> 's \<Rightarrow> ctx \<Rightarrow> string \<Rightarrow> (string \<times> string) result \<Rightarrow> 's \<times> response" where
  "org_updateUserStatus st s c targetUserID bind =
     withOrgActor c s (\<lambda>t actorID.
       case org_actorRoleFromContext c of
         None \<Rightarrow> (s, (401, NewErrorResponse ErrUnauthorized))
       | Some actorRole \<Rightarrow>
           if actorID \<noteq> targetUserID \<and> actorRole \<noteq> ''admin'' \<and> actorRole \<noteq> ''manager''
           then (s, (403, NewErrorResponse ErrCannotUpdateOtherUserState))
           else withBody bind s (\<lambda>(status, note').
             answer 500 200 (\<lambda>_. NewOKResponse) (org_UpdateStatus st s t targetUserID status note')))"

definition org_searchUsers :: "'s userStore \<Rightarrow> 's \<Rightarrow> ctx \<Rightarrow> string \<Rightarrow> string option \<Rightarrow> 's \<times> response" where
  "org_searchUsers st s c q limitQ =
     withOrgActor c s (\<lambda>t _. answer 500 200 (\<lambda>items. JArr (map userJson items)) (org_SearchUsers st s t q (queryInt ''20'' limitQ)))"

definition org_listMyAliases :: "'s userStore \<Rightarrow> 's \<Rightarrow> ctx \<Rightarrow> 's \<times> response" where
  "org_listMyAliases st s c =
     withOrgActor c s (\<lambda>t u. answer 500 200 (\<lambda>aliases. JObj [(''aliases'', jstrs aliases)]) (org_ListAliases st s t u))"

definition org_addMyAlias :: "'s userStore \<Rightarrow> 's \<Rightarrow> ctx \<Rightarrow> string result \<Rightarrow> string \<Rightarrow> string \<Rightarrow> 's \<times> response" where
  "org_addMyAlias st s c bind ip userAgent =
     withOrgActor c s (\<lambda>t u. withBody bind s (\<lambda>alias. answer 400 200 (\<lambda>_. NewOKResponse) (org_AddAlias st s t u alias ip userAgent)))"

definition org_deleteMyAlias :: "'s userStore \<Rightarrow> 's \<Rightarrow> ctx \<Rightarrow> string result \<Rightarrow> string \<Rightarrow> string \<Rightarrow> 's \<times> response" where
  "org_deleteMyAlias st s c bind ip userAgent =
     withOrgActor c s (\<lambda>t u. withBody bind s (\<lambda>alias. answer 400 200 (\<lambda>_. NewOKResponse) (org_DeleteAlias st s t u alias ip userAgent)))"

record auditReq =
  aq_limit :: "string option"
  aq_action :: string
  aq_cursor :: string
  aq_from :: string
  aq_to :: string

definition queryTime :: "(string \<Rightarrow> time option) \<Rightarrow> string \<Rightarrow> time option option" where
  "queryTime parseTime raw = (if raw = '''' then Some None else map_option Some (parseTime raw))"

definition org_listMyAliasAudit :: "'s userStore \<Rightarrow> (string \<Rightarrow> time option) \<Rightarrow> 's \<Rightarrow> ctx \<Rightarrow> auditReq \<Rightarrow> 's \<times> response" where
  "org_listMyAliasAudit st parseTime s c q =
     withOrgActor c s (\<lambda>t u.
       case queryTime parseTime (aq_from q) of
         None \<Rightarrow> (s, (400, NewErrorResponse ErrFromMustBeRFC3339))
       | Some from \<Rightarrow>
           (case queryTime parseTime (aq_to q) of
              None \<Rightarrow> (s, (400, NewErrorResponse ErrToMustBeRFC3339))
            | Some till \<Rightarrow>
                answer 400 200 (\<lambda>(items, nc). NewPaginatedResponse auditJson items nc)
                  (org_ListAliasAudit st s t u (queryInt ''50'' (aq_limit q)) \<lparr>af_from = from, af_to = till, af_action = aq_action q\<rparr> (aq_cursor q))))"

record authReq =
  lq_TenantID :: string
  lq_Email :: string
  lq_Password :: string

definition loginAuth :: "'s userStore \<Rightarrow> jwtLib \<Rightarrow> AuthService \<Rightarrow> time \<Rightarrow> 's \<Rightarrow> authReq result \<Rightarrow> 's \<times> response" where
  "loginAuth st lib auth now s bind =
     withBody bind s (\<lambda>req.
       case org_Authenticate st s (lq_TenantID req) (lq_Email req) (lq_Password req) of
         (s', Inl _) \<Rightarrow> (s', (401, NewErrorResponse ErrInvalidCredentials))
       | (s', Inr user) \<Rightarrow>
           (case GenerateToken lib auth now (us_ID user) (lq_TenantID req) (us_Role user) of
              Inl e \<Rightarrow> (s', (500, NewErrorResponse e))
            | Inr token \<Rightarrow> (s', (200, NewTokenResponse token (us_ID user) (lq_TenantID req) (us_Role user)))))"

section \<open>Routes\<close>

text \<open>The group \<open>/api/v1\<close> behind the bearer-token check, and the group for administrators and managers behind the role check.\<close>

definition authed :: "(string \<Rightarrow> (string \<times> string \<times> string) result) \<Rightarrow> string \<Rightarrow> 's \<Rightarrow> (ctx \<Rightarrow> 's \<times> response) \<Rightarrow> 's \<times> response" where
  "authed parse header s f = (case AuthRequired parse header Map.empty of Inl resp \<Rightarrow> (s, resp) | Inr c \<Rightarrow> f c)"

definition adminOrManager :: "(string \<Rightarrow> (string \<times> string \<times> string) result) \<Rightarrow> string \<Rightarrow> 's \<Rightarrow> (ctx \<Rightarrow> 's \<times> response) \<Rightarrow> 's \<times> response" where
  "adminOrManager parse header s f =
     authed parse header s (\<lambda>c. case RequireRoles [''admin'', ''manager''] c of Inl resp \<Rightarrow> (s, resp) | Inr c' \<Rightarrow> f c')"

datatype orgCall =
    OCreateOrgUnit "(string option \<times> string) result" | OListOrgUnits | OCreateUser "userReq result"
  | OUpdateStatus string "(string \<times> string) result" | OSearchUsers string "string option" | OListMyAliases
  | OAddMyAlias "string result" string string | ODeleteMyAlias "string result" string string | OListMyAliasAudit auditReq

fun org_serve ::
  "'s userStore \<Rightarrow> (string \<Rightarrow> (string \<times> string \<times> string) result) \<Rightarrow> (string \<Rightarrow> time option) \<Rightarrow> string \<Rightarrow> 's \<Rightarrow> orgCall \<Rightarrow> 's \<times> response" where
  "org_serve st parse pt header s (OCreateOrgUnit bind) = adminOrManager parse header s (\<lambda>c. org_createOrgUnit st s c bind)"
| "org_serve st parse pt header s OListOrgUnits = adminOrManager parse header s (\<lambda>c. org_listOrgUnits st s c)"
| "org_serve st parse pt header s (OCreateUser bind) = adminOrManager parse header s (\<lambda>c. org_createUser st s c bind)"
| "org_serve st parse pt header s (OUpdateStatus target bind) = authed parse header s (\<lambda>c. org_updateUserStatus st s c target bind)"
| "org_serve st parse pt header s (OSearchUsers q l) = authed parse header s (\<lambda>c. org_searchUsers st s c q l)"
| "org_serve st parse pt header s OListMyAliases = authed parse header s (\<lambda>c. org_listMyAliases st s c)"
| "org_serve st parse pt header s (OAddMyAlias bind ip ua) = authed parse header s (\<lambda>c. org_addMyAlias st s c bind ip ua)"
| "org_serve st parse pt header s (ODeleteMyAlias bind ip ua) = authed parse header s (\<lambda>c. org_deleteMyAlias st s c bind ip ua)"
| "org_serve st parse pt header s (OListMyAliasAudit q) = authed parse header s (\<lambda>c. org_listMyAliasAudit st pt s c q)"

text \<open>The data base server as the store.\<close>

definition repoUsers :: "bcryptLib \<Rightarrow> userMatch \<Rightarrow> 'p dbEnv \<Rightarrow> sqlEnv \<Rightarrow> pgText \<Rightarrow> 'p Repo userStore" where
  "repoUsers bc um penv env pg =
     \<lparr>os_createOrg = (\<lambda>r. CreateOrgUnit r penv env), os_listOrgs = (\<lambda>r. ListOrgUnits r penv env),
      os_createUser = (\<lambda>r. usvc_CreateUser bc r penv env), os_status = (\<lambda>r. user_UpdateStatus r penv env),
      os_search = (\<lambda>r. usvc_SearchUsers r penv env um), os_auth = (\<lambda>r. usvc_Authenticate bc r penv env),
      os_aliases = (\<lambda>r. ListAliases r penv env), os_addAlias = (\<lambda>r. usvc_AddAlias r penv env pg),
      os_deleteAlias = (\<lambda>r. usvc_DeleteAlias r penv env), os_audit = (\<lambda>r. usvc_ListAliasAudit r penv env)\<rparr>"


section \<open>Who may change what\<close>

text \<open>The most an ordinary user may do to a data base: change the own status and the own aliases, each alias change logged under the own name.\<close>

definition ordinary_effect :: "string \<Rightarrow> string \<Rightarrow> Database \<Rightarrow> Database \<Rightarrow> bool" where
  "ordinary_effect t u db db' \<longleftrightarrow>
     tenants db' = tenants db \<and> org_units db' = org_units db \<and> chat_rooms db' = chat_rooms db \<and> room_members db' = room_members db
   \<and> messages db' = messages db
   \<and> filter (\<lambda>x. (us_TenantID x, us_ID x) \<noteq> (t, u)) (users db') = filter (\<lambda>x. (us_TenantID x, us_ID x) \<noteq> (t, u)) (users db)
   \<and> map (\<lambda>x. (us_TenantID x, us_ID x, us_OrgID x, us_Email x, us_Role x, us_PasswordHash x)) (users db')
       = map (\<lambda>x. (us_TenantID x, us_ID x, us_OrgID x, us_Email x, us_Role x, us_PasswordHash x)) (users db)
   \<and> filter (\<lambda>a. al_UserID a \<noteq> u) (user_aliases db') = filter (\<lambda>a. al_UserID a \<noteq> u) (user_aliases db)
   \<and> (\<exists>new. alias_audit db' = alias_audit db @ new \<and> (\<forall>x \<in> set new. aa_ActedBy x = u \<and> aa_UserID x = u))"

lemma ordinary_refl [simp]: "ordinary_effect t u db db"
  by (simp add: ordinary_effect_def)

lemma ordinary_status: "ordinary_effect t u db (fst (sql_updateUserStatus env t u status nt db))"
proof -
  have "filter (\<lambda>x. (us_TenantID x, us_ID x) \<noteq> (t, u)) (map (\<lambda>x. if us_TenantID x = t \<and> us_ID x = u
      then x\<lparr>us_Status := status, us_StatusNote := nt, us_UpdatedAt := sqlNow env\<rparr> else x) xs)
    = filter (\<lambda>x. (us_TenantID x, us_ID x) \<noteq> (t, u)) xs" for xs by (induction xs) auto
  then show ?thesis by (simp add: ordinary_effect_def sql_updateUserStatus_def Let_def)
qed

lemma ordinary_addAlias: "ordinary_effect t u db (fst (sql_addAlias env pg t' u a ip ua db))"
  by (simp add: ordinary_effect_def sql_addAlias_def auditRow_def)

lemma ordinary_deleteAlias: "ordinary_effect t u db (fst (sql_deleteAlias env t' u a ip ua db))"
proof -
  have "filter (\<lambda>x. al_UserID x \<noteq> u) (filter (\<lambda>x. \<not> (al_TenantID x = t' \<and> al_UserID x = u \<and> al_Alias x = a)) xs) = filter (\<lambda>x. al_UserID x \<noteq> u) xs" for xs :: "aliasRow list"
    by (induction xs) auto
  then show ?thesis by (simp add: ordinary_effect_def sql_deleteAlias_def Let_def auditRow_def)
qed

lemma withPool_rel:
  assumes "\<And>db. R db db" "\<And>db. R db (fst (st db))"
  shows "R (pools r p) (pools (fst (withPool r penv t st)) p)"
proof (cases "snd (DBForTenant (router r) t penv) = Inr p")
  case True
  then show ?thesis using withPool_result[OF True, of st] assms(2) by simp
next
  case False
  then show ?thesis using withPool_frame[OF False, of st] assms(1) by simp
qed

lemma ordinary_pool:
  assumes "\<And>db. ordinary_effect t u db (fst (st db))"
  shows "ordinary_effect t u (pools r p) (pools (fst (withPool r penv t' (exec env k st))) p)"
  by (rule withPool_rel) (simp_all add: exec_def assms split: option.split)

lemmas read_stmts = sql_listOrgUnits_def sql_searchUsers_def sql_userByEmail_def sql_listAliases_def sql_listAudit_def

lemma repoUsers_ordinary:
  assumes st_def: "st = repoUsers bc um penv env pg"
  shows "ordinary_effect t u (pools r p) (pools (fst (os_listOrgs st r t')) p)"
    and "ordinary_effect t u (pools r p) (pools (fst (os_status st r t u status nt)) p)"
    and "ordinary_effect t u (pools r p) (pools (fst (os_search st r t' q n)) p)"
    and "ordinary_effect t u (pools r p) (pools (fst (os_aliases st r t' u')) p)"
    and "ordinary_effect t u (pools r p) (pools (fst (os_addAlias st r t' u a ip ua)) p)"
    and "ordinary_effect t u (pools r p) (pools (fst (os_deleteAlias st r t' u a ip ua)) p)"
    and "ordinary_effect t u (pools r p) (pools (fst (os_audit st r t' u' n f cAt cID)) p)"
  unfolding st_def repoUsers_def userStore.select_convs
proof -
  show "ordinary_effect t u (pools r p) (pools (fst (ListOrgUnits r penv env t')) p)"
    unfolding ListOrgUnits_def by (rule ordinary_pool) (simp add: read_stmts)
  show "ordinary_effect t u (pools r p) (pools (fst (user_UpdateStatus r penv env t u status nt)) p)"
    unfolding user_UpdateStatus_def by (rule ordinary_pool[OF ordinary_status])
  show "ordinary_effect t u (pools r p) (pools (fst (usvc_SearchUsers r penv env um t' q n)) p)"
    unfolding usvc_SearchUsers_def repo_SearchUsers_def by (rule ordinary_pool) (simp add: read_stmts)
  show "ordinary_effect t u (pools r p) (pools (fst (ListAliases r penv env t' u')) p)"
    unfolding ListAliases_def by (rule ordinary_pool) (simp add: read_stmts)
  have "ordinary_effect t u (pools r p) (pools (fst (repo_AddAlias r penv env pg t' u a' ip ua)) p)" for a'
    unfolding repo_AddAlias_def by (rule ordinary_pool[OF ordinary_addAlias])
  then show "ordinary_effect t u (pools r p) (pools (fst (usvc_AddAlias r penv env pg t' u a ip ua)) p)"
    by (simp add: usvc_AddAlias_def Let_def)
  have "ordinary_effect t u (pools r p) (pools (fst (repo_DeleteAlias r penv env t' u a' ip ua)) p)" for a'
    unfolding repo_DeleteAlias_def by (rule ordinary_pool[OF ordinary_deleteAlias])
  then show "ordinary_effect t u (pools r p) (pools (fst (usvc_DeleteAlias r penv env t' u a ip ua)) p)"
    by (simp add: usvc_DeleteAlias_def Let_def)
  have "ordinary_effect t u (pools r p) (pools (fst (repo_ListAliasAudit r penv env t' u' n' f' cAt cID)) p)" for n' f'
    unfolding repo_ListAliasAudit_def by (rule ordinary_pool) (simp add: read_stmts)
  then show "ordinary_effect t u (pools r p) (pools (fst (usvc_ListAliasAudit r penv env t' u' n f cAt cID)) p)"
    by (simp add: usvc_ListAliasAudit_def split: sum.split)
qed

lemma fst_answer [simp]: "fst (answer failed okay js out) = fst out"
  by (auto simp: answer_def split: prod.splits sum.splits)

lemma fst_page: "fst (case out of (s', Inl e) \<Rightarrow> (s', Inl e) | (s', Inr items) \<Rightarrow> (s', Inr (f items))) = fst out"
  by (auto split: prod.splits sum.splits)

lemma org_ListAliasAudit_ordinary:
  "ordinary_effect t u (pools r p) (pools (fst (org_ListAliasAudit (repoUsers bc um penv env pg) r t' u' n f cur)) p)"
  unfolding org_ListAliasAudit_def Let_def
  by (cases "checkFilter f"; cases "auditCursor cur") (auto simp: fst_page split: prod.split intro: repoUsers_ordinary[OF refl])


definition privileged :: "orgCall \<Rightarrow> bool" where
  "privileged call = (case call of OCreateOrgUnit _ \<Rightarrow> True | OListOrgUnits \<Rightarrow> True | OCreateUser _ \<Rightarrow> True | _ \<Rightarrow> False)"


definition usersEx :: "string Repo userStore" where
  "usersEx = repoUsers bcEx (\<lambda>q u. us_Name u = q) acmeEnv chatEnv lowerText"


section \<open>Tokens of a login\<close>

lemma AuthRequired_bearer:
  assumes "parse token = Inr (u, t, role)"
  shows "AuthRequired parse (''Bearer '' @ token) c = Inr (c(''auth_access_token'' \<mapsto> CStr token, ''auth_user_id'' \<mapsto> CStr u,
      ''auth_tenant_id'' \<mapsto> CStr t, ''auth_role'' \<mapsto> CStr role))"
  unfolding AuthRequired_def TrimPrefix_append Let_def using HasPrefix_append[of "''Bearer ''" token] assms by (simp only: not_True_eq_False if_False) simp

lemma usvc_Authenticate_outcome:
  assumes "snd (usvc_Authenticate bc r penv env t email pw) = Inr v"
  obtains u pool where "snd (DBForTenant (router r) t penv) = Inr pool" "u \<in> set (users (pools r pool))" "us_TenantID u = t" "us_Email u = email"
    "CompareHashAndPassword bc (us_PasswordHash u) pw = Inr ()" "v = u\<lparr>us_TenantID := '''', us_PasswordHash := ''''\<rparr>"
proof -
  obtain r' w where g: "GetByEmail r penv env t email = (r', Inr w)" and v: "CompareHashAndPassword bc (us_PasswordHash w) pw = Inr ()" "v = w\<lparr>us_PasswordHash := ''''\<rparr>"
    using assms by (auto simp: usvc_Authenticate_def split: prod.splits sum.splits)
  obtain pool where pool: "snd (DBForTenant (router r) t penv) = Inr pool" and "snd (sql_userByEmail t email (pools r pool)) = Inr w"
    using g by (auto simp: GetByEmail_def withPool_def exec_def split: prod.splits sum.splits option.splits)
  then obtain u us where "filter (\<lambda>u. us_TenantID u = t \<and> us_Email u = email) (users (pools r pool)) = u # us" "w = u\<lparr>us_TenantID := ''''\<rparr>"
    by (auto simp: sql_userByEmail_def split: list.splits)
  then have "u \<in> {u \<in> set (users (pools r pool)). us_TenantID u = t \<and> us_Email u = email}" "w = u\<lparr>us_TenantID := ''''\<rparr>"
    by (metis list.set_intros(1) set_filter)+
  then show thesis using that[OF pool, of u] v by simp
qed

text \<open>
  C18: A login hands out a token only for a password that the stored hash accepts, and the token says who logged in. If \<open>loginAuth\<close> answers 200,
  the data base of the tenant has a user with this mail address whose hash accepts the password, and every server with the same secret accepts
  the token of the answer until it expires, as this user of this tenant with this role. Every other login is refused without a token.
\<close>

theorem login_token:
  assumes "jwt_ok lib" and "loginAuth (repoUsers bc um penv env pg) lib auth now r (Inr req) = (r', (status, body))"
  shows "if status = 200
   then \<exists>token u pool. body = NewTokenResponse token (us_ID u) (lq_TenantID req) (us_Role u)
     \<and> snd (DBForTenant (router r) (lq_TenantID req) penv) = Inr pool \<and> u \<in> set (users (pools r pool))
     \<and> us_TenantID u = lq_TenantID req \<and> us_Email u = lq_Email req \<and> CompareHashAndPassword bc (us_PasswordHash u) (lq_Password req) = Inr ()
     \<and> (\<forall>server later. secret server = secret auth \<and> later < numericDate (now + ttl auth) \<longrightarrow>
          AuthRequired (ParseAuthContext lib server later) (''Bearer '' @ token) Map.empty
          = Inr [''auth_access_token'' \<mapsto> CStr token, ''auth_user_id'' \<mapsto> CStr (us_ID u), ''auth_tenant_id'' \<mapsto> CStr (lq_TenantID req), ''auth_role'' \<mapsto> CStr (us_Role u)])
   else status \<in> {401, 500} \<and> (\<exists>e. body = NewErrorResponse e)"
proof (cases "snd (usvc_Authenticate bc r penv env (lq_TenantID req) (lq_Email req) (lq_Password req))")
  case (Inr v)
  obtain r1 where auth: "usvc_Authenticate bc r penv env (lq_TenantID req) (lq_Email req) (lq_Password req) = (r1, Inr v)"
    using Inr by (metis prod.collapse)
  show ?thesis
  proof (cases "GenerateToken lib auth now (us_ID v) (lq_TenantID req) (us_Role v)")
    case (Inr token)
    note tok = this
    obtain u pool where u: "snd (DBForTenant (router r) (lq_TenantID req) penv) = Inr pool" "u \<in> set (users (pools r pool))" "us_TenantID u = lq_TenantID req"
      "us_Email u = lq_Email req" "CompareHashAndPassword bc (us_PasswordHash u) (lq_Password req) = Inr ()" "v = u\<lparr>us_TenantID := '''', us_PasswordHash := ''''\<rparr>"
      by (rule usvc_Authenticate_outcome[of bc r penv env "lq_TenantID req" "lq_Email req" "lq_Password req" v]) (use auth in simp)
    have accept: "AuthRequired (ParseAuthContext lib server later) (''Bearer '' @ token) Map.empty
          = Inr [''auth_access_token'' \<mapsto> CStr token, ''auth_user_id'' \<mapsto> CStr (us_ID u), ''auth_tenant_id'' \<mapsto> CStr (lq_TenantID req), ''auth_role'' \<mapsto> CStr (us_Role u)]"
      if "secret server = secret auth" "later < numericDate (now + ttl auth)" for server later
      using ParseAuthContext_GenerateToken[OF assms(1) tok, of server later] that u(6) by (subst AuthRequired_bearer) simp_all
    have st: "status = 200" and body: "body = NewTokenResponse token (us_ID u) (lq_TenantID req) (us_Role u)"
      using assms(2) auth tok u(6) by (simp_all add: loginAuth_def withBody_def repoUsers_def)
    show ?thesis unfolding if_P[OF st] using body u(1-5) accept by (intro exI[of _ token] exI[of _ u] exI[of _ pool] conjI allI impI) auto
  qed (use assms(2) auth in \<open>auto simp: loginAuth_def withBody_def repoUsers_def\<close>)
next
  case (Inl e)
  then show ?thesis using assms(2)
    by (cases "usvc_Authenticate bc r penv env (lq_TenantID req) (lq_Email req) (lq_Password req)") (auto simp: loginAuth_def withBody_def repoUsers_def)
qed


definition claimsEve :: Claims where
  "claimsEve = \<lparr>cl_UserID = ''eve'', cl_TenantID = ''acme'', cl_Role = ''user'', cl_IssuedAt = 0, cl_ExpiresAt = 60000000000\<rparr>"

definition loginDB :: Database where
  "loginDB = orgDB\<lparr>users := [(userRow ''eve'')\<lparr>us_PasswordHash := ''hash of pw''\<rparr>]\<rparr>"

definition loginEx :: "string \<Rightarrow> string Repo \<times> response" where
  "loginEx pw = loginAuth usersEx (jwtEx claimsEve) (NewService ''k'' 1) 0 (userRepoEx loginDB) (Inr \<lparr>lq_TenantID = ''acme'', lq_Email = ''eve@acme'', lq_Password = pw\<rparr>)"

lemma loginEx_status: "fst (snd (loginEx ''pw'')) = 200"
proof -
  have "snd (exec chatEnv 0 (sql_userByEmail ''acme'' ''eve@acme'') loginDB) = Inr ((userRow ''eve'')\<lparr>us_PasswordHash := ''hash of pw'', us_TenantID := ''''\<rparr>)"
    by (simp add: exec_def chatEnv_def sql_userByEmail_def loginDB_def userRow_def)
  then have "snd (GetByEmail (userRepoEx loginDB) acmeEnv chatEnv ''acme'' ''eve@acme'') = Inr ((userRow ''eve'')\<lparr>us_PasswordHash := ''hash of pw'', us_TenantID := ''''\<rparr>)"
    using withPool_result[OF userRepoEx_pool, of loginDB "exec chatEnv 0 (sql_userByEmail ''acme'' ''eve@acme'')"] by (simp add: GetByEmail_def userRepoEx_def)
  moreover have "GenerateToken (jwtEx claimsEve) (NewService ''k'' 1) 0 ''eve'' ''acme'' ''user'' = Inr ''tok''"
    by (simp add: GenerateToken_def jwtEx_def NewService_def numericDate_def wrap64_def claimsEve_def)
  ultimately show ?thesis
    by (cases "GetByEmail (userRepoEx loginDB) acmeEnv chatEnv ''acme'' ''eve@acme''")
      (simp add: loginEx_def loginAuth_def withBody_def usersEx_def repoUsers_def usvc_Authenticate_def bcEx_def userRow_def)
qed

theorem login_token_witness:
  "\<exists>token u. snd (snd (loginEx ''pw'')) = NewTokenResponse token (us_ID u) ''acme'' (us_Role u) \<and> u \<in> set (users loginDB) \<and> us_Email u = ''eve@acme''"
proof -
  obtain r' status body where run: "loginEx ''pw'' = (r', (status, body))" by (cases "loginEx ''pw''") auto
  have "status = 200" using loginEx_status run by simp
  then show ?thesis
    using login_token[OF jwtEx_ok run[unfolded loginEx_def usersEx_def]] run userRepoEx_pool[of loginDB] by (auto simp: userRepoEx_def)
qed


section \<open>Walking through the audit log\<close>

definition clearTenant :: "AliasAudit \<Rightarrow> AliasAudit" where
  "clearTenant x = x\<lparr>aa_TenantID := ''''\<rparr>"

definition auditRows :: "string \<Rightarrow> string \<Rightarrow> auditFilter \<Rightarrow> Database \<Rightarrow> AliasAudit list" where
  "auditRows t u f db = map clearTenant (filter (\<lambda>x. aa_TenantID x = t \<and> aa_UserID x = u \<and> auditHit f x) (alias_audit db))"

definition audit_pk :: "Database \<Rightarrow> bool" where
  "audit_pk db \<longleftrightarrow> distinct (map aa_ID (alias_audit db)) \<and> (\<forall>x \<in> set (alias_audit db). good_id (aa_ID x) \<and> in_int64 (aa_CreatedAt x))"

definition fetchAudit :: "string \<Rightarrow> string \<Rightarrow> auditFilter \<Rightarrow> Database \<Rightarrow> int \<Rightarrow> (time \<times> string) option \<Rightarrow> AliasAudit list" where
  "fetchAudit t u f db n cur = ofResult (snd (sql_listAudit t u (clampLimit 200 50 n) f cur db))"

definition encAudit :: "time \<times> string \<Rightarrow> string" where
  "encAudit k = encodeAliasAuditCursor (fst k) (snd k)"

lemma auditKey_clear [simp]: "auditKey (clearTenant x) = auditKey x"
  by (simp add: auditKey_def clearTenant_def)

lemma decode_encodeAliasAuditCursor:
  assumes "in_int64 at" "good_id i"
  shows "decodeAliasAuditCursor (encodeAliasAuditCursor at i) = Inr (at, i)"
proof -
  have "wrap64 at = at" using assms(1) by (intro wrap64_id) (simp_all add: in_int64_def)
  moreover have "SplitN2 (show_int at @ CHR '':'' # i) CHR '':'' = [show_int at, i]"
    by (rule SplitN2_append[OF colon_notin_show_int])
  ultimately show ?thesis
    using assms by (simp add: decodeAliasAuditCursor_def encodeAliasAuditCursor_def DecodeString_EncodeToString ParseInt_show good_id_def)
qed

lemma fetchAudit_rows:
  assumes "0 < n" "n \<le> 200"
  shows "fetchAudit t u f db n cur = take (nat n) (filter (\<lambda>x. below cur (auditKey x)) (orderDesc auditKey (auditRows t u f db)))"
proof -
  have cur: "(case cur of None \<Rightarrow> True | Some (at, i) \<Rightarrow> aa_CreatedAt x < at \<or> aa_CreatedAt x = at \<and> aa_ID x < i) = below cur (auditKey x)" for x :: AliasAudit
    by (auto simp: below_def auditKey_def less_prod_def split: option.splits)
  have "filter (\<lambda>x. below cur (auditKey x)) (orderDesc auditKey (auditRows t u f db))
    = map clearTenant (orderDesc auditKey (filter (\<lambda>x. aa_TenantID x = t \<and> aa_UserID x = u \<and> auditHit f x \<and> below cur (auditKey x)) (alias_audit db)))"
    unfolding auditRows_def filter_orderDesc filter_map filter_filter o_def auditKey_clear orderDesc_map by (simp add: conj_assoc)
  then show ?thesis
    using assms by (simp add: fetchAudit_def sql_listAudit_def clampLimit_in_range limited_def ofResult_def cur clearTenant_def[symmetric] take_map)
qed

interpretation audits: cursor_paging auditKey encAudit "\<lambda>c. okOption (decodeAliasAuditCursor c)" audit_pk "fetchAudit t u f" "auditRows t u f" 200
  for t u f
proof
  fix s n cur x
  show "0 < n \<Longrightarrow> n \<le> 200 \<Longrightarrow> fetchAudit t u f s n cur = take (nat n) (filter (\<lambda>x. below cur (auditKey x)) (orderDesc auditKey (auditRows t u f s)))"
    by (rule fetchAudit_rows)
  assume ok: "audit_pk s"
  have "distinct (map (snd o auditKey) (auditRows t u f s))"
    using ok by (simp add: auditRows_def audit_pk_def o_def auditKey_def clearTenant_def distinct_map_filter)
  then show "distinct (map auditKey (auditRows t u f s))"
    using distinct_map[of snd "map auditKey (auditRows t u f s)"] by simp
  assume "x \<in> set (auditRows t u f s)"
  then have good: "good_id (aa_ID x)" "in_int64 (aa_CreatedAt x)" using ok by (auto simp: auditRows_def audit_pk_def clearTenant_def)
  then show "okOption (decodeAliasAuditCursor (encAudit (auditKey x))) = Some (auditKey x)"
    by (simp add: encAudit_def auditKey_def decode_encodeAliasAuditCursor okOption_def)
  show "TrimSpace (encAudit (auditKey x)) \<noteq> ''''"
    unfolding encAudit_def encodeAliasAuditCursor_def by (rule TrimSpace_EncodeToString) simp
qed

lemma checkFilter_idem:
  assumes "checkFilter f0 = Inr f"
  shows "checkFilter f = Inr f"
proof -
  have f: "f = f0\<lparr>af_action := ToLower (TrimSpace (af_action f0))\<rparr>" and act: "af_action f \<in> {'''', ''add'', ''delete''}"
    using assms by (auto simp: checkFilter_def Let_def split: if_splits option.splits)
  have "TrimSpace ''add'' = ''add''" "TrimSpace ''delete'' = ''delete''" by (simp_all add: TrimSpace_eval)
  moreover have "ToLower ''add'' = ''add''" "ToLower ''delete'' = ''delete''" by (simp_all add: lower_char_def)
  ultimately have "ToLower (TrimSpace (af_action f)) = af_action f" using act by auto
  then show ?thesis using assms f by (auto simp: checkFilter_def Let_def split: if_splits option.splits)
qed

lemma org_ListAliasAudit_page:
  assumes "snd (DBForTenant (router r) t penv) = Inr pool" "fault env 0 = None" "checkFilter f0 = Inr f" "0 < limit" "limit \<le> 199"
  shows "snd (org_ListAliasAudit (repoUsers bc um penv env pg) r t u limit f0 cursor) = audits.page t u f (pools r pool) limit cursor"
proof -
  define parts where "parts = (\<lambda>c :: (time \<times> string) option. case c of None \<Rightarrow> (None, None) | Some (at, i) \<Rightarrow> (Some at, Some i))"
  have out: "snd (os_audit (repoUsers bc um penv env pg) r t u n f (fst (parts c)) (snd (parts c))) = Inr (fetchAudit t u f (pools r pool) n c)" for n c
    using withPool_result[OF assms(1), of "exec env 0 (sql_listAudit t u (clampLimit 200 50 n) f c)"] assms(2) clampLimit_bounds[of 50 200 n]
    by (cases c) (auto simp: parts_def repoUsers_def usvc_ListAliasAudit_def checkFilter_idem[OF assms(3)] repo_ListAliasAudit_def exec_def
        fetchAudit_def ofResult_def sql_listAudit_def limited_def)
  have out': "snd (case os_audit (repoUsers bc um penv env pg) r t u n f (fst (parts c)) (snd (parts c)) of (s', Inl e) \<Rightarrow> (s', Inl e)
      | (s', Inr items) \<Rightarrow> (s', Inr (g items))) = Inr (g (fetchAudit t u f (pools r pool) n c))"
    for n c and g :: "AliasAudit list \<Rightarrow> AliasAudit list \<times> string"
    using out[of n c] by (auto split: prod.splits sum.splits)
  have none: "parts None = (None, None)" and some: "parts (Some (at, i)) = (Some at, Some i)" for at i by (simp_all add: parts_def)
  note pages = out'[of _ _ None, unfolded none fst_conv snd_conv] out'[of _ _ "Some (at, i)" for at i, unfolded some fst_conv snd_conv]
  have "clampLimit 200 50 limit = limit" using assms(4,5) by (simp add: clampLimit_in_range)
  then show ?thesis
    unfolding audits.page_def
    by (cases "decodeAliasAuditCursor cursor")
      (auto simp: org_ListAliasAudit_def assms(3) auditCursor_def okOption_def pages encAudit_def auditKey_def)
qed

text \<open>
  Reading the audit log. Following the cursors of \<open>ListAliasAudit\<close>, with any limit up to 199 and any filter that passes the checks, reads every entry of
  the log on the user's aliases that the filter admits exactly once, the latest first.
\<close>

theorem ListAliasAudit_walk:
  assumes "snd (DBForTenant (router r) t penv) = Inr pool" and "fault env 0 = None" and "checkFilter f0 = Inr f" and "0 < limit" and "limit \<le> 199"
    and "audit_pk (pools r pool)" and "length (auditRows t u f (pools r pool)) < fuel"
  shows "walk fuel (\<lambda>cur. snd (org_ListAliasAudit (repoUsers bc um penv env pg) r t u limit f0 cur)) ''''
    = Inr (orderDesc auditKey (auditRows t u f (pools r pool)))"
proof -
  have "(\<lambda>cur. snd (org_ListAliasAudit (repoUsers bc um penv env pg) r t u limit f0 cur)) = audits.page t u f (pools r pool) limit"
    using org_ListAliasAudit_page[OF assms(1-5)] by blast
  then show ?thesis using audits.walk_all[OF assms(6,4), of t u f fuel] assms(5,7) by simp
qed


definition auditAt :: "string \<Rightarrow> string \<Rightarrow> time \<Rightarrow> AliasAudit" where
  "auditAt i act at = \<lparr>aa_TenantID = ''acme'', aa_ID = i, aa_UserID = ''ada'', aa_Alias = ''al'', aa_Action = act, aa_ActedBy = ''ada'',
     aa_IP = '''', aa_UserAgent = '''', aa_CreatedAt = at\<rparr>"

definition auditDB :: Database where
  "auditDB = orgDB\<lparr>alias_audit := [auditAt ''m1'' ''add'' 10, auditAt ''m2'' ''delete'' 20, auditAt ''r'' ''add'' 30]\<rparr>"

theorem ListAliasAudit_walk_witness:
  "walk 3 (\<lambda>cur. snd (org_ListAliasAudit usersEx (userRepoEx auditDB) ''acme'' ''ada'' 1 \<lparr>af_from = None, af_to = None, af_action = ''Add''\<rparr> cur)) ''''
     = Inr [clearTenant (auditAt ''r'' ''add'' 30), clearTenant (auditAt ''m1'' ''add'' 10)]"
proof -
  let ?raw = "\<lparr>af_from = None, af_to = None, af_action = ''Add''\<rparr>" and ?f = "\<lparr>af_from = None, af_to = None, af_action = ''add''\<rparr>"
  have add: "TrimSpace ''Add'' = ''Add''" "TrimSpace ''add'' = ''add''" "ToLower ''Add'' = ''add''" "ToLower ''add'' = ''add''"
    by (simp_all add: TrimSpace_eval lower_char_def char_of_def bit_simps)
  have f: "checkFilter ?raw = Inr ?f" by (simp add: checkFilter_def add Let_def del: ToLower.simps)
  have rows: "auditRows ''acme'' ''ada'' ?f auditDB = [clearTenant (auditAt ''m1'' ''add'' 10), clearTenant (auditAt ''r'' ''add'' 30)]"
    by (simp add: auditRows_def auditDB_def auditHit_def add del: ToLower.simps) (simp add: auditAt_def)
  have pk: "audit_pk auditDB" by (simp add: audit_pk_def auditDB_def) (simp add: auditAt_def good_ids in_int64_def)
  have "orderDesc auditKey (auditRows ''acme'' ''ada'' ?f auditDB) = [clearTenant (auditAt ''r'' ''add'' 30), clearTenant (auditAt ''m1'' ''add'' 10)]"
    by (simp add: rows orderDesc_def auditKey_def clearTenant_def auditAt_def)
  moreover have "fault chatEnv 0 = None" "pools (userRepoEx auditDB) p = auditDB" for p by (simp_all add: chatEnv_def userRepoEx_def)
  ultimately show ?thesis
    using ListAliasAudit_walk[where fuel = 3 and limit = 1 and u = "''ada''" and env = chatEnv and bc = bcEx and um = "\<lambda>q u. us_Name u = q" and pg = lowerText,
        OF userRepoEx_pool[of auditDB] _ f] pk rows unfolding usersEx_def by simp
qed

end
