(* ===== verification/TenantHub.thy ===== *)
theory TenantHub
  imports OrgHub
begin

text \<open>
  Tenants: the repository \<open>server/dbman/repository/tenant_repository.go\<close>, which works on the shared pool, the service
  \<open>server/dbman/service/tenant_service.go\<close> with its checks and the invalidation of the router, and the server \<open>server/tenantHub\<close>
  (service and handlers) over a record of the operations of the data base server.
\<close>

section \<open>Repository\<close>

text \<open>The repository is given the pool that is also the router's shared one (\<open>server/dbman/app/server.go\<close>).\<close>

definition onShared :: "'p Repo \<Rightarrow> 'a stmt \<Rightarrow> 'p Repo \<times> 'a result" where
  "onShared r st =
     (let pool = db_shared (router r) in
      case st (pools r pool) of (db', out) \<Rightarrow> (r\<lparr>pools := (pools r)(pool := db')\<rparr>, out))"

definition sql_listTenants :: "Tenant list stmt" where
  "sql_listTenants db = (db, Inr (sort_key tn_TenantID (tenants db)))"

definition tenant_List :: "'p Repo \<Rightarrow> sqlEnv \<Rightarrow> 'p Repo \<times> Tenant list result" where
  "tenant_List r env = onShared r (exec env 0 sql_listTenants)"

definition sql_getTenant :: "string \<Rightarrow> Tenant stmt" where
  "sql_getTenant t db = (db, case filter (\<lambda>x. tn_TenantID x = t) (tenants db) of [] \<Rightarrow> Inl err_norows | x # _ \<Rightarrow> Inr x)"

definition tenant_GetByID :: "'p Repo \<Rightarrow> sqlEnv \<Rightarrow> string \<Rightarrow> 'p Repo \<times> Tenant result" where
  "tenant_GetByID r env t = onShared r (exec env 0 (sql_getTenant t))"

text \<open>The checks of the columns: \<open>deployment_mode\<close> is one of two words, \<open>user_count_threshold\<close> is an \<open>INTEGER\<close> of 32 bits.\<close>

definition err_range :: string where "err_range = ''integer out of range''"

definition int32 :: "int \<Rightarrow> bool" where
  "int32 n \<longleftrightarrow> - (2 ^ 31) \<le> n \<and> n < 2 ^ 31"

definition sql_insertTenant :: "sqlEnv \<Rightarrow> Tenant \<Rightarrow> Tenant stmt" where
  "sql_insertTenant env item db =
     (if \<not> int32 (tn_UserCountThreshold item) then (db, Inl err_range)
      else if tn_DeploymentMode item \<notin> {''shared'', ''dedicated''} then (db, Inl err_check)
      else if hasTenant db (tn_TenantID item) then (db, Inl err_unique)
      else let row = item\<lparr>tn_CreatedAt := sqlNow env, tn_UpdatedAt := sqlNow env\<rparr> in
        (db\<lparr>tenants := tenants db @ [row]\<rparr>, Inr row))"

definition tenant_Create :: "'p Repo \<Rightarrow> sqlEnv \<Rightarrow> Tenant \<Rightarrow> 'p Repo \<times> Tenant result" where
  "tenant_Create r env item =
     onShared r (exec env 0 (sql_insertTenant env (item\<lparr>tn_DeploymentMode := ToLower (TrimSpace (tn_DeploymentMode item))\<rparr>)))"

definition sql_updateTenant :: "sqlEnv \<Rightarrow> Tenant \<Rightarrow> Tenant stmt" where
  "sql_updateTenant env item db =
     (let upd = (\<lambda>x. item\<lparr>tn_TenantID := tn_TenantID x, tn_CreatedAt := tn_CreatedAt x, tn_UpdatedAt := sqlNow env\<rparr>) in
      if \<not> int32 (tn_UserCountThreshold item) then (db, Inl err_range)
      else case filter (\<lambda>x. tn_TenantID x = tn_TenantID item) (tenants db) of
          [] \<Rightarrow> (db, Inl err_norows)
        | x # _ \<Rightarrow>
            if tn_DeploymentMode item \<notin> {''shared'', ''dedicated''} then (db, Inl err_check)
            else (db\<lparr>tenants := map (\<lambda>y. if tn_TenantID y = tn_TenantID item then upd y else y) (tenants db)\<rparr>, Inr (upd x)))"

definition tenant_UpdateConfig :: "'p Repo \<Rightarrow> sqlEnv \<Rightarrow> Tenant \<Rightarrow> 'p Repo \<times> Tenant result" where
  "tenant_UpdateConfig r env item = onShared r (exec env 0 (sql_updateTenant env item))"

section \<open>Service\<close>

definition validateTenant :: "Tenant \<Rightarrow> unit result" where
  "validateTenant item =
     (if TrimSpace (tn_TenantID item) = '''' then Inl ''tenant_id is required''
      else if TrimSpace (tn_Name item) = '''' then Inl ''name is required''
      else if tn_UserCountThreshold item \<le> 0 then Inl ''user_count_threshold must be greater than 0''
      else let mode = ToLower (TrimSpace (tn_DeploymentMode item)) in
        if mode \<noteq> ''shared'' \<and> mode \<noteq> ''dedicated'' then Inl ''deployment_mode must be shared or dedicated''
        else if mode = ''dedicated'' \<and> TrimSpace (tn_DedicatedDSN item) = '''' then Inl ''dedicated_dsn is required for dedicated mode''
        else Inr ())"

text \<open>The routers to invalidate are the one of the data base server. The pools that this closes are the last component.\<close>

definition tsvc_invalidateTenant :: "'p Repo \<Rightarrow> string \<Rightarrow> 'p Repo \<times> 'p list" where
  "tsvc_invalidateTenant r t = (case db_InvalidateTenant (router r) t of (router', closed) \<Rightarrow> (r\<lparr>router := router'\<rparr>, closed))"

definition tsvc_write ::
  "('p Repo \<Rightarrow> sqlEnv \<Rightarrow> Tenant \<Rightarrow> 'p Repo \<times> Tenant result) \<Rightarrow> 'p Repo \<Rightarrow> sqlEnv \<Rightarrow> Tenant \<Rightarrow> 'p Repo \<times> Tenant result \<times> 'p list" where
  "tsvc_write repo r env item0 =
     (let item = item0\<lparr>tn_DeploymentMode := ToLower (TrimSpace (tn_DeploymentMode item0))\<rparr> in
      case validateTenant item of
        Inl e \<Rightarrow> (r, Inl e, [])
      | Inr _ \<Rightarrow>
          (case repo r env item of
             (r', Inl e) \<Rightarrow> (r', Inl e, [])
           | (r', Inr saved) \<Rightarrow>
               (case tsvc_invalidateTenant r' (tn_TenantID saved) of (r'', closed) \<Rightarrow> (r'', Inr saved, closed))))"

definition tsvc_Create :: "'p Repo \<Rightarrow> sqlEnv \<Rightarrow> Tenant \<Rightarrow> 'p Repo \<times> Tenant result \<times> 'p list" where
  "tsvc_Create = tsvc_write tenant_Create"

definition tsvc_UpdateConfig :: "'p Repo \<Rightarrow> sqlEnv \<Rightarrow> Tenant \<Rightarrow> 'p Repo \<times> Tenant result \<times> 'p list" where
  "tsvc_UpdateConfig = tsvc_write tenant_UpdateConfig"

section \<open>The tenant server\<close>

record 's tenantStore =
  ts_list :: "'s \<Rightarrow> 's \<times> Tenant list result"
  ts_create :: "'s \<Rightarrow> Tenant \<Rightarrow> 's \<times> Tenant result"
  ts_update :: "'s \<Rightarrow> Tenant \<Rightarrow> 's \<times> Tenant result"

text \<open>\<open>Create\<close> and \<open>UpdateConfig\<close> of the service: the last component lists the tenants whose routers were told to forget them, once per router.\<close>

definition th_write ::
  "('s \<Rightarrow> Tenant \<Rightarrow> 's \<times> Tenant result) \<Rightarrow> nat \<Rightarrow> 's \<Rightarrow> Tenant \<Rightarrow> 's \<times> Tenant result \<times> string list" where
  "th_write op routers s item =
     (case op s item of
        (s', Inl e) \<Rightarrow> (s', Inl e, [])
      | (s', Inr saved) \<Rightarrow> (s', Inr saved, replicate routers (tn_TenantID saved)))"

definition th_Create :: "'s tenantStore \<Rightarrow> nat \<Rightarrow> 's \<Rightarrow> Tenant \<Rightarrow> 's \<times> Tenant result \<times> string list" where
  "th_Create st = th_write (ts_create st)"

definition th_UpdateConfig :: "'s tenantStore \<Rightarrow> nat \<Rightarrow> 's \<Rightarrow> Tenant \<Rightarrow> 's \<times> Tenant result \<times> string list" where
  "th_UpdateConfig st = th_write (ts_update st)"

definition tenantJson :: "Tenant \<Rightarrow> json" where
  "tenantJson x = JObj [(''tenant_id'', JStr (tn_TenantID x)), (''name'', JStr (tn_Name x)), (''deployment_mode'', JStr (tn_DeploymentMode x)),
     (''dedicated_dsn'', JStr (tn_DedicatedDSN x)), (''dedicated_redis_addr'', JStr (tn_DedicatedRedisAddr x)),
     (''dedicated_lavinmq_url'', JStr (tn_DedicatedLavinMQURL x)), (''dedicated_minio_endpoint'', JStr (tn_DedicatedMinIOEndpoint x)),
     (''dedicated_minio_access_key'', JStr (tn_DedicatedMinIOAccessKey x)), (''dedicated_minio_secret_key'', JStr (tn_DedicatedMinIOSecretKey x)),
     (''dedicated_minio_bucket'', JStr (tn_DedicatedMinIOBucket x)), (''dedicated_minio_use_ssl'', JBool (tn_DedicatedMinIOUseSSL x)),
     (''user_count_threshold'', JNum (tn_UserCountThreshold x)), (''is_active'', JBool (tn_IsActive x)),
     (''created_at'', jtime (tn_CreatedAt x)), (''updated_at'', jtime (tn_UpdatedAt x))]"

definition th_listTenants :: "'s tenantStore \<Rightarrow> 's \<Rightarrow> 's \<times> response" where
  "th_listTenants st s = answer 500 200 (\<lambda>items. JArr (map tenantJson items)) (ts_list st s)"

text \<open>The request of \<open>createTenant\<close>: the fields of the tenant, of which \<open>is_active\<close> may be missing.\<close>

definition th_createTenant :: "'s tenantStore \<Rightarrow> nat \<Rightarrow> 's \<Rightarrow> (Tenant \<times> bool option) result \<Rightarrow> 's \<times> response" where
  "th_createTenant st routers s bind =
     withBody bind s (\<lambda>(req, isActive).
       let threshold = (if tn_UserCountThreshold req = 0 then 200 else tn_UserCountThreshold req);
           active = (case isActive of Some b \<Rightarrow> b | None \<Rightarrow> True) in
       case th_Create st routers s (req\<lparr>tn_UserCountThreshold := threshold, tn_IsActive := active, tn_CreatedAt := 0, tn_UpdatedAt := 0\<rparr>) of
         (s', out, _) \<Rightarrow> answer 400 201 tenantJson (s', out))"

definition th_updateTenant :: "'s tenantStore \<Rightarrow> nat \<Rightarrow> 's \<Rightarrow> string \<Rightarrow> Tenant result \<Rightarrow> 's \<times> response" where
  "th_updateTenant st routers s tenantID bind =
     withBody bind s (\<lambda>req.
       case th_UpdateConfig st routers s (req\<lparr>tn_TenantID := tenantID, tn_CreatedAt := 0, tn_UpdatedAt := 0\<rparr>) of
         (s', out, _) \<Rightarrow> answer 400 200 tenantJson (s', out))"

datatype tenantCall = TList | TCreate "(Tenant \<times> bool option) result" | TUpdate string "Tenant result"

fun th_serve ::
  "'s tenantStore \<Rightarrow> nat \<Rightarrow> (string \<Rightarrow> (string \<times> string \<times> string) result) \<Rightarrow> string \<Rightarrow> 's \<Rightarrow> tenantCall \<Rightarrow> 's \<times> response" where
  "th_serve st routers parse header s TList = adminOrManager parse header s (\<lambda>_. th_listTenants st s)"
| "th_serve st routers parse header s (TCreate bind) = adminOrManager parse header s (\<lambda>_. th_createTenant st routers s bind)"
| "th_serve st routers parse header s (TUpdate t bind) = adminOrManager parse header s (\<lambda>_. th_updateTenant st routers s t bind)"


section \<open>The table of tenants\<close>

text \<open>What the checks guarantee of every row: the ids are distinct and not blank, and a dedicated tenant has a data base.\<close>

definition tenant_row_ok :: "Tenant \<Rightarrow> bool" where
  "tenant_row_ok x \<longleftrightarrow> TrimSpace (tn_TenantID x) \<noteq> '''' \<and> TrimSpace (tn_Name x) \<noteq> '''' \<and> 0 < tn_UserCountThreshold x \<and> tn_UserCountThreshold x < 2 ^ 31
     \<and> (tn_DeploymentMode x = ''shared'' \<or> tn_DeploymentMode x = ''dedicated'' \<and> TrimSpace (tn_DedicatedDSN x) \<noteq> '''')"

definition tenants_ok :: "Database \<Rightarrow> bool" where
  "tenants_ok db \<longleftrightarrow> distinct (map tn_TenantID (tenants db)) \<and> (\<forall>x \<in> set (tenants db). tenant_row_ok x)"

lemma validate_row:
  assumes "validateTenant item = Inr ()" "int32 (tn_UserCountThreshold item)" "tn_DeploymentMode item \<in> {''shared'', ''dedicated''}"
  shows "tenant_row_ok item"
proof -
  have "TrimSpace ''shared'' = ''shared''" "TrimSpace ''dedicated'' = ''dedicated''" by (simp_all add: TrimSpace_eval)
  moreover have "ToLower ''shared'' = ''shared''" "ToLower ''dedicated'' = ''dedicated''" by (simp_all add: lower_char_def)
  ultimately have "ToLower (TrimSpace (tn_DeploymentMode item)) = tn_DeploymentMode item" using assms(3) by auto
  then show ?thesis using assms by (auto simp: tenant_row_ok_def validateTenant_def int32_def Let_def split: if_splits)
qed

lemma onShared_result:
  "snd (onShared r st) = snd (st (pools r (db_shared (router r))))"
  "router (fst (onShared r st)) = router r"
  "pools (fst (onShared r st)) p = (if p = db_shared (router r) then fst (st (pools r p)) else pools r p)"
  by (simp_all add: onShared_def Let_def split: prod.split)

lemma insert_tenants_ok:
  assumes "tenants_ok db" "validateTenant item = Inr ()"
  shows "tenants_ok (fst (sql_insertTenant env item db))"
proof (cases "int32 (tn_UserCountThreshold item) \<and> tn_DeploymentMode item \<in> {''shared'', ''dedicated''}")
  case True
  then have "tenant_row_ok item" using validate_row[OF assms(2)] by simp
  then show ?thesis using assms(1) by (auto simp: sql_insertTenant_def tenants_ok_def hasTenant_def tenant_row_ok_def Let_def)
qed (use assms(1) in \<open>auto simp: sql_insertTenant_def\<close>)

lemma update_tenants_ok:
  assumes "tenants_ok db" "validateTenant item = Inr ()"
  shows "tenants_ok (fst (sql_updateTenant env item db))"
proof (cases "int32 (tn_UserCountThreshold item) \<and> tn_DeploymentMode item \<in> {''shared'', ''dedicated''}")
  case True
  then have row: "tenant_row_ok item" using validate_row[OF assms(2)] by simp
  let ?g = "\<lambda>y. if tn_TenantID y = tn_TenantID item then item\<lparr>tn_TenantID := tn_TenantID y, tn_CreatedAt := tn_CreatedAt y, tn_UpdatedAt := sqlNow env\<rparr> else y"
  have "map tn_TenantID (map ?g (tenants db)) = map tn_TenantID (tenants db)" by simp
  moreover have "tenant_row_ok (?g y)" if "tenant_row_ok y" for y using that row by (simp add: tenant_row_ok_def)
  then have "\<forall>x \<in> ?g ` set (tenants db). tenant_row_ok x" using assms(1) unfolding tenants_ok_def by blast
  ultimately have "tenants_ok (db\<lparr>tenants := map ?g (tenants db)\<rparr>)" using assms(1) by (simp add: tenants_ok_def del: map_map)
  then show ?thesis using assms(1) by (auto simp: sql_updateTenant_def Let_def split: list.split)
qed (use assms(1) in \<open>auto simp: sql_updateTenant_def Let_def split: list.split\<close>)

lemma tsvc_write_cases:
  assumes "tsvc_write repo r env item0 = (r', out, closed)"
  defines "item \<equiv> item0\<lparr>tn_DeploymentMode := ToLower (TrimSpace (tn_DeploymentMode item0))\<rparr>"
  shows "(\<exists>e. validateTenant item = Inl e \<and> out = Inl e \<and> r' = r)
    \<or> validateTenant item = Inr () \<and> out = snd (repo r env item) \<and> pools r' = pools (fst (repo r env item))
      \<and> (\<forall>x. out = Inr x \<longrightarrow> router r' = fst (db_InvalidateTenant (router (fst (repo r env item))) (tn_TenantID x)))"
  using assms by (auto simp: tsvc_write_def tsvc_invalidateTenant_def Let_def split: sum.splits prod.splits)

lemma validate_again:
  assumes "validateTenant item = Inr ()"
  shows "validateTenant (item\<lparr>tn_DeploymentMode := ToLower (TrimSpace (tn_DeploymentMode item))\<rparr>) = Inr ()"
proof -
  have mode: "ToLower (TrimSpace (tn_DeploymentMode item)) \<in> {''shared'', ''dedicated''}"
    using assms by (auto simp: validateTenant_def Let_def split: if_splits)
  have "TrimSpace ''shared'' = ''shared''" "TrimSpace ''dedicated'' = ''dedicated''" by (simp_all add: TrimSpace_eval)
  moreover have "ToLower ''shared'' = ''shared''" "ToLower ''dedicated'' = ''dedicated''" by (simp_all add: lower_char_def)
  ultimately have "ToLower (TrimSpace (ToLower (TrimSpace (tn_DeploymentMode item)))) = ToLower (TrimSpace (tn_DeploymentMode item))"
    using mode by auto
  then show ?thesis using assms unfolding validateTenant_def Let_def by (auto simp del: ToLower.simps split: if_splits)
qed

lemma tsvc_tenants_ok:
  assumes "tenants_ok (pools r p)"
  shows "tenants_ok (pools (fst (tsvc_Create r env item)) p)" and "tenants_ok (pools (fst (tsvc_UpdateConfig r env item)) p)"
proof -
  have ins: "tenants_ok (fst (exec env 0 (sql_insertTenant env x) db))" if "tenants_ok db" "validateTenant x = Inr ()" for x db
    using that insert_tenants_ok by (simp add: exec_def split: option.split)
  have upd: "tenants_ok (fst (exec env 0 (sql_updateTenant env x) db))" if "tenants_ok db" "validateTenant x = Inr ()" for x db
    using that update_tenants_ok by (simp add: exec_def split: option.split)
  let ?item = "item\<lparr>tn_DeploymentMode := ToLower (TrimSpace (tn_DeploymentMode item))\<rparr>"
  let ?twice = "?item\<lparr>tn_DeploymentMode := ToLower (TrimSpace (tn_DeploymentMode ?item))\<rparr>"
  have twice: "validateTenant ?twice = Inr ()" if "validateTenant ?item = Inr ()" by (rule validate_again[OF that])
  obtain r' out closed where run: "tsvc_Create r env item = (r', out, closed)" by (cases "tsvc_Create r env item")
  show "tenants_ok (pools (fst (tsvc_Create r env item)) p)"
    using tsvc_write_cases[OF run[unfolded tsvc_Create_def]]
  proof (elim disjE exE conjE)
    assume "validateTenant ?item = Inr ()" "pools r' = pools (fst (tenant_Create r env ?item))"
    then show ?thesis
      using run assms ins[OF assms twice] unfolding tenant_Create_def
      by (cases "p = db_shared (router r)") (simp_all add: onShared_result del: ToLower.simps)
  qed (use run assms in simp)
  obtain r' out closed where "tsvc_UpdateConfig r env item = (r', out, closed)" by (cases "tsvc_UpdateConfig r env item")
  then show "tenants_ok (pools (fst (tsvc_UpdateConfig r env item)) p)"
    using assms tsvc_write_cases[of tenant_UpdateConfig r env item r' out closed] upd[OF assms]
    by (auto simp: tsvc_UpdateConfig_def tenant_UpdateConfig_def onShared_result)
qed


text \<open>Any writes of tenants, and between them anything that leaves the table alone.\<close>

inductive tenant_reach :: "'p Repo \<Rightarrow> 'p Repo \<Rightarrow> bool" for r0 where
  start: "tenant_reach r0 r0"
| create: "tenant_reach r0 r \<Longrightarrow> tenant_reach r0 (fst (tsvc_Create r env item))"
| update: "tenant_reach r0 r \<Longrightarrow> tenant_reach r0 (fst (tsvc_UpdateConfig r env item))"
| other: "tenant_reach r0 r \<Longrightarrow> (\<And>p. tenants (pools r' p) = tenants (pools r p)) \<Longrightarrow> tenant_reach r0 r'"

text \<open>
  C39: The table of tenants is well formed. Whatever tenants are created and reconfigured, with whatever failures: the ids stay distinct, no id or name is blank,
  the threshold is positive and fits the column, and every tenant is either shared or dedicated with a data base of its own named.
\<close>

theorem tenants_well_formed:
  assumes "tenant_reach r0 r" and "\<And>p. tenants (pools r0 p) = []"
  shows "distinct (map tn_TenantID (tenants (pools r p))) \<and>
    (\<forall>x \<in> set (tenants (pools r p)). TrimSpace (tn_TenantID x) \<noteq> '''' \<and> TrimSpace (tn_Name x) \<noteq> ''''
       \<and> 0 < tn_UserCountThreshold x \<and> tn_UserCountThreshold x < 2 ^ 31
       \<and> (tn_DeploymentMode x = ''shared'' \<or> tn_DeploymentMode x = ''dedicated'' \<and> TrimSpace (tn_DedicatedDSN x) \<noteq> ''''))"
proof -
  have "tenants_ok (pools r p)"
    using assms(1)
  proof (induction arbitrary: p)
    case (other r r')
    then show ?case using other.IH[of p] by (simp add: tenants_ok_def)
  next
    case start
    then show ?case using assms(2)[of p] by (simp add: tenants_ok_def)
  qed (rule tsvc_tenants_ok, assumption)+
  then show ?thesis by (simp add: tenants_ok_def tenant_row_ok_def)
qed

definition beeItem :: Tenant where
  "beeItem = chatTenant\<lparr>tn_TenantID := ''bee'', tn_Name := ''Bee'', tn_DeploymentMode := ''dedicated'', tn_DedicatedDSN := ''pg://bee''\<rparr>"

definition tenantRepoEx :: "string Repo" where
  "tenantRepoEx = userRepoEx (emptyDB\<lparr>tenants := []\<rparr>)"

definition beeRepo :: "string Repo" where
  "beeRepo = fst (tsvc_Create tenantRepoEx chatEnv beeItem)"

lemma ded_mode: "ToLower (TrimSpace ''dedicated'') = ''dedicated''"
  "ToLower ''dedicated'' = ''dedicated''"
  by (simp_all add: TrimSpace_eval) (simp_all add: lower_char_def)

lemma beeItem_valid: "validateTenant beeItem = Inr ()" "tn_DeploymentMode beeItem = ''dedicated''"
  by (simp_all add: validateTenant_def beeItem_def ded_mode TrimSpace_eval chatTenant_def Let_def del: ToLower.simps)

lemma beeRepo_rows: "tenants (pools beeRepo ''shared'') = [beeItem\<lparr>tn_CreatedAt := 100, tn_UpdatedAt := 100\<rparr>]"
proof -
  have same: "beeItem\<lparr>tn_DeploymentMode := ''dedicated''\<rparr> = beeItem" by (simp add: beeItem_def)
  have "sql_insertTenant chatEnv beeItem (emptyDB\<lparr>tenants := []\<rparr>)
    = (emptyDB\<lparr>tenants := [beeItem\<lparr>tn_CreatedAt := 100, tn_UpdatedAt := 100\<rparr>]\<rparr>, Inr (beeItem\<lparr>tn_CreatedAt := 100, tn_UpdatedAt := 100\<rparr>))"
    by (simp add: sql_insertTenant_def beeItem_def chatTenant_def int32_def hasTenant_def chatEnv_def Let_def)
  moreover have "fault chatEnv 0 = None" by (simp add: chatEnv_def)
  ultimately show ?thesis
    using beeItem_valid ded_mode
    by (simp add: same beeRepo_def tsvc_Create_def tsvc_write_def tenant_Create_def onShared_def exec_def tenantRepoEx_def userRepoEx_def
        NewTenantDBRouterWithProvider_def tsvc_invalidateTenant_def Let_def del: ToLower.simps split: prod.split)
qed

theorem tenants_well_formed_witness:
  "\<exists>x \<in> set (tenants (pools beeRepo ''shared'')). tn_DeploymentMode x = ''dedicated'' \<and> TrimSpace (tn_DedicatedDSN x) \<noteq> ''''"
proof -
  have "tenant_reach tenantRepoEx beeRepo" unfolding beeRepo_def by (intro tenant_reach.intros)
  moreover have "tenants (pools tenantRepoEx p) = []" for p by (simp add: tenantRepoEx_def userRepoEx_def)
  ultimately have "\<forall>x \<in> set (tenants (pools beeRepo ''shared'')). tn_DeploymentMode x = ''shared'' \<or> tn_DeploymentMode x = ''dedicated'' \<and> TrimSpace (tn_DedicatedDSN x) \<noteq> ''''"
    using tenants_well_formed[of tenantRepoEx beeRepo "''shared''"] by blast
  then show ?thesis by (simp add: beeRepo_rows beeItem_def)
qed


section \<open>A new configuration takes effect\<close>

text \<open>What the metadata provider (\<open>server/common/infra/dbman/tenant_meta_provider.go\<close>) makes of the answer to \<open>/tenants/get\<close>.\<close>

definition tenantMeta :: "Tenant result \<Rightarrow> TenantDBMeta result" where
  "tenantMeta out = (case out of
      Inl e \<Rightarrow> Inl e
    | Inr x \<Rightarrow> Inr \<lparr>DeploymentMode = ToLower (TrimSpace (tn_DeploymentMode x)), DedicatedDSN = TrimSpace (tn_DedicatedDSN x), IsActive = tn_IsActive x\<rparr>)"

lemma update_then_get:
  assumes "sql_updateTenant env item db = (db', Inr saved)"
  shows "snd (sql_getTenant (tn_TenantID item) db') = Inr saved" "tn_TenantID saved = tn_TenantID item"
    "tn_IsActive saved = tn_IsActive item" "tn_DeploymentMode saved = tn_DeploymentMode item" "tn_DedicatedDSN saved = tn_DedicatedDSN item"
    "tn_DeploymentMode item \<in> {''shared'', ''dedicated''}"
proof -
  let ?upd = "\<lambda>x :: Tenant. item\<lparr>tn_TenantID := tn_TenantID x, tn_CreatedAt := tn_CreatedAt x, tn_UpdatedAt := sqlNow env\<rparr>"
  obtain x xs where x: "filter (\<lambda>x. tn_TenantID x = tn_TenantID item) (tenants db) = x # xs" and saved: "saved = ?upd x"
    and db': "db' = db\<lparr>tenants := map (\<lambda>y. if tn_TenantID y = tn_TenantID item then ?upd y else y) (tenants db)\<rparr>"
    and mode: "tn_DeploymentMode item \<in> {''shared'', ''dedicated''}"
    using assms by (auto simp: sql_updateTenant_def Let_def split: if_splits list.splits)
  have "filter (\<lambda>x. tn_TenantID x = tn_TenantID item) (map (\<lambda>y. if tn_TenantID y = tn_TenantID item then ?upd y else y) ts)
    = map ?upd (filter (\<lambda>x. tn_TenantID x = tn_TenantID item) ts)" for ts by (induction ts) auto
  then show "snd (sql_getTenant (tn_TenantID item) db') = Inr saved" by (simp add: sql_getTenant_def db' x saved)
  have "x \<in> set (filter (\<lambda>x. tn_TenantID x = tn_TenantID item) (tenants db))" unfolding x by simp
  then show "tn_TenantID saved = tn_TenantID item" by (simp add: saved)
  show "tn_IsActive saved = tn_IsActive item" "tn_DeploymentMode saved = tn_DeploymentMode item" "tn_DedicatedDSN saved = tn_DedicatedDSN item"
    "tn_DeploymentMode item \<in> {''shared'', ''dedicated''}" using mode by (simp_all add: saved)
qed



definition beeMoved :: Tenant where
  "beeMoved = beeItem\<lparr>tn_DedicatedDSN := ''pg://new''\<rparr>"

lemma beeMoved_saved: "\<exists>r' saved closed. tsvc_UpdateConfig beeRepo chatEnv beeMoved = (r', Inr saved, closed)"
proof -
  have v: "validateTenant beeMoved = Inr ()" "beeMoved\<lparr>tn_DeploymentMode := ''dedicated''\<rparr> = beeMoved" "tn_DeploymentMode beeMoved = ''dedicated''"
    by (simp_all add: beeMoved_def validateTenant_def beeItem_def ded_mode TrimSpace_eval chatTenant_def Let_def del: ToLower.simps)
  have "db_shared (router beeRepo) = ''shared''"
    by (simp add: beeRepo_def tsvc_Create_def tsvc_write_def tsvc_invalidateTenant_def tenant_Create_def onShared_def tenantRepoEx_def userRepoEx_def
        NewTenantDBRouterWithProvider_def Let_def db_config_forget case_prod_beta del: ToLower.simps split: sum.split prod.split)
  moreover have "\<exists>db' saved. sql_updateTenant chatEnv beeMoved (pools beeRepo ''shared'') = (db', Inr saved)"
    by (simp add: sql_updateTenant_def beeRepo_rows beeMoved_def Let_def) (simp add: beeItem_def chatTenant_def int32_def)
  ultimately have "\<exists>r1 saved. tenant_UpdateConfig beeRepo chatEnv beeMoved = (r1, Inr saved)"
    by (auto simp: tenant_UpdateConfig_def onShared_def exec_def chatEnv_def Let_def)
  then show ?thesis
    using v(1,3) ded_mode by (auto simp: v(2) tsvc_UpdateConfig_def tsvc_write_def tsvc_invalidateTenant_def Let_def simp del: ToLower.simps split: prod.split)
qed


end
