(* ===== verification/Filepath.thy ===== *)
theory Filepath
  imports Encoding
begin

text \<open>
  What the code uses of the package \<open>path/filepath\<close> on Unix: \<open>Clean\<close>, \<open>Dir\<close>, \<open>Base\<close>, \<open>Ext\<close> and \<open>Join\<close>, on byte strings.
\<close>

section \<open>Extensions\<close>

text \<open>\<open>filepath.Ext\<close>: from the last dot of the last element on.\<close>

definition Ext :: "string \<Rightarrow> string" where
  "Ext path =
     (let tail = takeWhile (\<lambda>c. c \<noteq> CHR ''/'' \<and> c \<noteq> CHR ''.'') (rev path) in
      case drop (length tail) (rev path) of
        [] \<Rightarrow> ''''
      | c # _ \<Rightarrow> if c = CHR ''.'' then drop (length path - length tail - 1) path else '''')"

lemma Ext_suffix: "\<exists>pre. path = pre @ Ext path" and Ext_slash: "CHR ''/'' \<notin> set (Ext path)"
proof -
  let ?P = "\<lambda>c. c \<noteq> CHR ''/'' \<and> c \<noteq> CHR ''.''"
  define tail where "tail = takeWhile ?P (rev path)"
  have split: "rev path = tail @ dropWhile ?P (rev path)" unfolding tail_def by simp
  have rest: "drop (length tail) (rev path) = dropWhile ?P (rev path)" using split by (metis append_eq_conv_conj)
  have tail: "CHR ''/'' \<notin> set tail" unfolding tail_def by (auto dest: set_takeWhileD)
  have "(\<exists>pre. path = pre @ Ext path) \<and> CHR ''/'' \<notin> set (Ext path)"
  proof (cases "dropWhile ?P (rev path)")
    case Nil
    then have "Ext path = ''''" unfolding Ext_def tail_def[symmetric] Let_def rest Nil by simp
    then show ?thesis by simp
  next
    case (Cons c cs)
    show ?thesis
    proof (cases "c = CHR ''.''")
      case True
      have path: "path = rev cs @ [c] @ rev tail" using split Cons by (metis append_Cons append_Nil append_assoc rev_append rev_rev_ident rev.simps(2))
      have "Ext path = drop (length path - length tail - 1) path"
        unfolding Ext_def tail_def[symmetric] Let_def rest Cons list.case True by simp
      also have "\<dots> = [c] @ rev tail" by (subst (1 2) path) simp
      finally have "Ext path = [c] @ rev tail" .
      then show ?thesis using path tail True by auto
    next
      case False
      then have "Ext path = ''''" using rest Cons by (simp add: Ext_def tail_def[symmetric] Let_def)
      then show ?thesis by simp
    qed
  qed
  then show "\<exists>pre. path = pre @ Ext path" "CHR ''/'' \<notin> set (Ext path)" by simp_all
qed

section \<open>Clean, Dir, Base, Join\<close>

text \<open>One element of the path on the stack of elements kept so far, the last one first.\<close>

definition cleanStep :: "bool \<Rightarrow> string list \<Rightarrow> string \<Rightarrow> string list" where
  "cleanStep rooted acc e =
     (if e = '''' \<or> e = ''.'' then acc
      else if e = ''..'' then
        (case acc of
           [] \<Rightarrow> if rooted then [] else [e]
         | x # xs \<Rightarrow> if x = ''..'' then (if rooted then acc else e # acc) else xs)
      else e # acc)"

fun joinWith :: "string \<Rightarrow> string list \<Rightarrow> string" where
  "joinWith sep [] = ''''"
| "joinWith sep [x] = x"
| "joinWith sep (x # y # ys) = x @ sep @ joinWith sep (y # ys)"

definition Clean :: "string \<Rightarrow> string" where
  "Clean path =
     (if path = '''' then ''.''
      else let rooted = HasPrefix path ''/''; comps = rev (foldl (cleanStep rooted) [] (Split path (CHR ''/''))) in
        if rooted then ''/'' @ joinWith ''/'' comps
        else if comps = [] then ''.'' else joinWith ''/'' comps)"

text \<open>Up to and with the last slash, and what follows it.\<close>

definition dirPart :: "string \<Rightarrow> string" where
  "dirPart path = rev (dropWhile (\<lambda>c. c \<noteq> CHR ''/'') (rev path))"

definition Dir :: "string \<Rightarrow> string" where
  "Dir path = Clean (dirPart path)"

definition Base :: "string \<Rightarrow> string" where
  "Base path =
     (if path = '''' then ''.''
      else let p = rev (dropWhile (\<lambda>c. c = CHR ''/'') (rev path)); b = rev (takeWhile (\<lambda>c. c \<noteq> CHR ''/'') (rev p)) in
        if b = '''' then ''/'' else b)"

definition Join2 :: "string \<Rightarrow> string \<Rightarrow> string" where
  "Join2 dir name =
     (if dir \<noteq> '''' then Clean (dir @ ''/'' @ name) else if name \<noteq> '''' then Clean name else '''')"

section \<open>Names in a directory\<close>

lemma Split_append: "Split (a @ sep # b) sep = Split a sep @ Split b sep"
  by (induction a) (auto split: list.splits simp: Split_nonempty)

lemma Split_plain: "sep \<notin> set s \<Longrightarrow> Split s sep = [s]"
  by (induction s) auto

lemma joinWith_snoc: "joinWith sep (xs @ [x]) = (if xs = [] then x else joinWith sep xs @ sep @ x)"
  by (induction sep xs rule: joinWith.induct) auto

lemma joinWith_neq: "joinWith sep (xs @ [x]) = '''' \<Longrightarrow> x = ''''"
  by (simp add: joinWith_snoc split: if_splits)

text \<open>An ordinary name keeps its text behind a prefix that depends on the directory only.\<close>

definition plainName :: "string \<Rightarrow> bool" where
  "plainName name \<longleftrightarrow> CHR ''/'' \<notin> set name \<and> name \<notin> {'''', ''.'', ''..''}"

lemma Join2_prefix:
  assumes "dir \<noteq> ''''"
  shows "\<exists>pre. \<forall>name. plainName name \<longrightarrow> Join2 dir name = pre @ name"
proof -
  define rooted where "rooted = HasPrefix dir ''/''"
  define acc where "acc = foldl (cleanStep rooted) [] (Split dir (CHR ''/''))"
  have root: "HasPrefix (dir @ rest) ''/'' = rooted" for rest
    using assms by (cases dir) (simp_all add: rooted_def HasPrefix_def)
  have "Join2 dir name = (if rooted then ''/'' else '''') @ (if acc = [] then '''' else joinWith ''/'' (rev acc) @ ''/'') @ name"
    if "plainName name" for name
  proof -
    have "foldl (cleanStep rooted) [] (Split (dir @ ''/'' @ name) (CHR ''/'')) = name # acc"
      using that by (simp add: Split_append Split_plain acc_def cleanStep_def plainName_def)
    then show ?thesis using assms root[of "''/'' @ name"] by (cases rooted) (simp_all add: Join2_def Clean_def Let_def joinWith_snoc)
  qed
  then show ?thesis by (metis append_assoc)
qed

lemma cleanStep_nonempty: "'''' \<notin> set acc \<Longrightarrow> '''' \<notin> set (cleanStep rooted acc e)"
  by (cases acc) (auto simp: cleanStep_def)

lemma clean_nonempty: "'''' \<notin> set acc \<Longrightarrow> '''' \<notin> set (foldl (cleanStep rooted) acc es)"
  by (induction es arbitrary: acc) (simp_all add: cleanStep_nonempty)

lemma Clean_nonempty [simp]: "Clean path \<noteq> ''''"
proof -
  have "joinWith ''/'' (rev xs) \<noteq> ''''" if "xs \<noteq> []" "'''' \<notin> set xs" for xs
    using that joinWith_neq[of "''/''" "rev (tl xs)" "hd xs"] by (cases xs) auto
  then show ?thesis using clean_nonempty[of "[]"] by (simp add: Clean_def Let_def)
qed

lemma Base_plain: "Base path \<noteq> ''/'' \<Longrightarrow> CHR ''/'' \<notin> set (Base path)"
  by (auto simp: Base_def Let_def split: if_splits dest: set_takeWhileD)

end
