(* ===== verification/FileServer.thy ===== *)
theory FileServer
  imports OrgHub Filepath
begin

text \<open>
  Files: the repository \<open>server/dbman/repository/file_repository.go\<close> and the file server \<open>server/fileman\<close> (service and handlers).
  The MinIO client and the imaging library are arguments; which objects a request touches is part of its result.
\<close>

section \<open>Repository\<close>

definition sql_insertFile :: "sqlEnv \<Rightarrow> FileObject \<Rightarrow> FileObject stmt" where
  "sql_insertFile env item db =
     (if genUUID env 0 \<in> set (map fo_ID (files db)) then (db, Inl err_unique)
      else if \<not> hasTenant db (fo_TenantID item) \<or> \<not> hasRoom db (fo_RoomID item) \<or> \<not> hasUser db (fo_UploaderID item) then (db, Inl err_fk)
      else let row = item\<lparr>fo_ID := genUUID env 0, fo_CreatedAt := sqlNow env\<rparr> in (db\<lparr>files := files db @ [row]\<rparr>, Inr row))"

definition file_Create :: "'p Repo \<Rightarrow> 'p dbEnv \<Rightarrow> sqlEnv \<Rightarrow> FileObject \<Rightarrow> 'p Repo \<times> FileObject result" where
  "file_Create r penv env item = withPool r penv (fo_TenantID item) (exec env 0 (sql_insertFile env item))"

definition sql_filesByRoom :: "string \<Rightarrow> string \<Rightarrow> int \<Rightarrow> FileObject list stmt" where
  "sql_filesByRoom t roomID limit db =
     (db, limited limit (orderDesc fo_CreatedAt (filter (\<lambda>f. fo_TenantID f = t \<and> fo_RoomID f = roomID) (files db))))"

definition SearchByRoom :: "'p Repo \<Rightarrow> 'p dbEnv \<Rightarrow> sqlEnv \<Rightarrow> string \<Rightarrow> string \<Rightarrow> int \<Rightarrow> 'p Repo \<times> FileObject list result" where
  "SearchByRoom r penv env t roomID limit = withPool r penv t (exec env 0 (sql_filesByRoom t roomID limit))"

text \<open>\<open>SearchMessages\<close> of this repository is the same statement as that of the chat repository.\<close>

definition file_SearchMessages ::
  "'p Repo \<Rightarrow> 'p dbEnv \<Rightarrow> sqlEnv \<Rightarrow> pgText \<Rightarrow> string \<Rightarrow> string \<Rightarrow> string option \<Rightarrow> int \<Rightarrow> string option \<Rightarrow> 'p Repo \<times> Message list result" where
  "file_SearchMessages r penv env pg t q roomID limit cur = withPool r penv t (exec env 0 (sql_searchMessages pg t q roomID limit cur))"

section \<open>Object keys\<close>

definition tenantObjectKey :: "string \<Rightarrow> string \<Rightarrow> string" where
  "tenantObjectKey pre objectKey =
     (let cleaned = TrimPrefix (TrimSpace objectKey) ''/''; normalizedPrefix = TrimSpace pre in
      if normalizedPrefix = '''' then cleaned
      else let p1 = TrimPrefix normalizedPrefix ''/''; p2 = (if HasSuffix p1 ''/'' then p1 else p1 @ ''/'') in
        if HasPrefix cleaned p2 then cleaned else p2 @ cleaned)"

definition thumbKeyOf :: "string \<Rightarrow> string" where
  "thumbKeyOf objectKey = TrimSuffix objectKey (Ext objectKey) @ ''_thumb.jpg''"

section \<open>The service\<close>

text \<open>\<open>ol_thumbnail\<close> is decoding, scaling to 320 by 320 and encoding as JPEG.\<close>

record ('c, 'o) objectLib =
  ol_presignPut :: "'c \<Rightarrow> string \<Rightarrow> string \<Rightarrow> string result"
  ol_presignGet :: "'c \<Rightarrow> string \<Rightarrow> string \<Rightarrow> string result"
  ol_getObject :: "'c \<Rightarrow> string \<Rightarrow> string \<Rightarrow> 'o result"
  ol_thumbnail :: "'o \<Rightarrow> string result"
  ol_putObject :: "'c \<Rightarrow> string \<Rightarrow> string \<Rightarrow> string \<Rightarrow> unit result"

text \<open>An object that was read, written or opened to the client by a URL: the client, the bucket and the key.\<close>

type_synonym 'c touch = "'c \<times> string \<times> string"

definition PresignUpload ::
  "('c, 'o) objectLib \<Rightarrow> 'c minioEnv \<Rightarrow> 'c TenantMinIORouter \<Rightarrow> string \<Rightarrow> string \<Rightarrow> 'c TenantMinIORouter \<times> string result \<times> 'c touch list" where
  "PresignUpload lib env rt tenantID objectKey =
     (case Resolve rt tenantID env of
        (rt', Inl e) \<Rightarrow> (rt', Inl e, [])
      | (rt', Inr (client, bucket, pre)) \<Rightarrow>
          let key = tenantObjectKey pre objectKey in (rt', ol_presignPut lib client bucket key, [(client, bucket, key)]))"

definition PresignDownload ::
  "('c, 'o) objectLib \<Rightarrow> 'c minioEnv \<Rightarrow> 'c TenantMinIORouter \<Rightarrow> string \<Rightarrow> string \<Rightarrow> 'c TenantMinIORouter \<times> string result \<times> 'c touch list" where
  "PresignDownload lib env rt tenantID objectKey =
     (case Resolve rt tenantID env of
        (rt', Inl e) \<Rightarrow> (rt', Inl e, [])
      | (rt', Inr (client, bucket, pre)) \<Rightarrow>
          let key = tenantObjectKey pre objectKey in (rt', ol_presignGet lib client bucket key, [(client, bucket, key)]))"

definition makeThumbnail :: "('c, 'o) objectLib \<Rightarrow> 'c \<Rightarrow> string \<Rightarrow> string \<Rightarrow> string result \<times> 'c touch list" where
  "makeThumbnail lib client bucket objectKey =
     (case ol_getObject lib client bucket objectKey of
        Inl e \<Rightarrow> (Inl e, [(client, bucket, objectKey)])
      | Inr obj \<Rightarrow>
          (case ol_thumbnail lib obj of
             Inl e \<Rightarrow> (Inl e, [(client, bucket, objectKey)])
           | Inr bytes \<Rightarrow>
               let thumbKey = thumbKeyOf objectKey; touched = [(client, bucket, objectKey), (client, bucket, thumbKey)] in
               (case ol_putObject lib client bucket thumbKey bytes of
                  Inl e \<Rightarrow> (Inl (''upload thumb: '' @ e), touched)
                | Inr _ \<Rightarrow> (Inr thumbKey, touched))))"

definition RegisterAndMaybeThumbnail ::
  "('c, 'o) objectLib \<Rightarrow> 'c minioEnv \<Rightarrow> ('s \<Rightarrow> FileObject \<Rightarrow> 's \<times> FileObject result) \<Rightarrow> 's \<Rightarrow> 'c TenantMinIORouter \<Rightarrow> FileObject
   \<Rightarrow> 's \<times> 'c TenantMinIORouter \<times> FileObject result \<times> 'c touch list" where
  "RegisterAndMaybeThumbnail lib env createFile s rt item0 =
     (case Resolve rt (fo_TenantID item0) env of
        (rt', Inl e) \<Rightarrow> (s, rt', Inl e, [])
      | (rt', Inr (client, bucket, pre)) \<Rightarrow>
          let item = item0\<lparr>fo_ObjectKey := tenantObjectKey pre (fo_ObjectKey item0)\<rparr>;
              (thumb, touched) = (if HasPrefix (fo_ContentType item) ''image/'' then makeThumbnail lib client bucket (fo_ObjectKey item) else (Inl '''', []));
              item' = (case thumb of Inr k \<Rightarrow> item\<lparr>fo_ThumbnailKey := k\<rparr> | Inl _ \<Rightarrow> item) in
          case createFile s item' of (s', out) \<Rightarrow> (s', rt', out, touched))"

section \<open>Handlers\<close>

definition file_tenantFromContext :: "ctx \<Rightarrow> string option" where
  "file_tenantFromContext c = (case c ''auth_tenant_id'' of Some (CStr t) \<Rightarrow> if t = '''' then None else Some t | _ \<Rightarrow> None)"

definition file_actorFromContext :: "ctx \<Rightarrow> string option" where
  "file_actorFromContext c = (case c ''auth_user_id'' of Some (CStr u) \<Rightarrow> if u = '''' then None else Some u | _ \<Rightarrow> None)"

definition fileJson :: "FileObject \<Rightarrow> json" where
  "fileJson x = JObj [(''tenant_id'', JStr (fo_TenantID x)), (''id'', JStr (fo_ID x)), (''room_id'', JStr (fo_RoomID x)), (''uploader_id'', JStr (fo_UploaderID x)),
     (''object_key'', JStr (fo_ObjectKey x)), (''content_type'', JStr (fo_ContentType x)), (''size_bytes'', JNum (fo_SizeBytes x)),
     (''thumbnail_key'', JStr (fo_ThumbnailKey x)), (''original_name'', JStr (fo_OriginalName x)), (''created_at'', jtime (fo_CreatedAt x))]"

record fileReq =
  fr_RoomID :: string
  fr_ObjectKey :: string
  fr_ContentType :: string
  fr_SizeBytes :: int
  fr_OriginalName :: string

datatype fileCall = FUpload "string result" | FDownload "string result" | FRegister "fileReq result"

definition api_presign ::
  "(string \<Rightarrow> string \<Rightarrow> 'r \<times> string result \<times> 'c touch list) \<Rightarrow> 's \<Rightarrow> 'r \<Rightarrow> ctx \<Rightarrow> string result \<Rightarrow> 's \<times> 'r \<times> response \<times> 'c touch list" where
  "api_presign presign s rt c bind =
     (case file_tenantFromContext c of
        None \<Rightarrow> (s, rt, (401, NewErrorResponse ErrUnauthorized), [])
      | Some tenantID \<Rightarrow>
     (case bind of
        Inl e \<Rightarrow> (s, rt, (400, NewErrorResponse e), [])
      | Inr objectKey \<Rightarrow>
     (case presign tenantID objectKey of
        (rt', Inl e, touched) \<Rightarrow> (s, rt', (500, NewErrorResponse e), touched)
      | (rt', Inr u, touched) \<Rightarrow> (s, rt', (200, NewURLResponse u), touched))))"

definition api_registerFile ::
  "('c, 'o) objectLib \<Rightarrow> 'c minioEnv \<Rightarrow> ('s \<Rightarrow> FileObject \<Rightarrow> 's \<times> FileObject result) \<Rightarrow> 's \<Rightarrow> 'c TenantMinIORouter \<Rightarrow> ctx \<Rightarrow> fileReq result
   \<Rightarrow> 's \<times> 'c TenantMinIORouter \<times> response \<times> 'c touch list" where
  "api_registerFile lib env createFile s rt c bind =
     (case file_tenantFromContext c of
        None \<Rightarrow> (s, rt, (401, NewErrorResponse ErrUnauthorized), [])
      | Some tenantID \<Rightarrow>
     (case file_actorFromContext c of
        None \<Rightarrow> (s, rt, (401, NewErrorResponse ErrUnauthorized), [])
      | Some uploaderID \<Rightarrow>
     (case bind of
        Inl e \<Rightarrow> (s, rt, (400, NewErrorResponse e), [])
      | Inr req \<Rightarrow>
     (case RegisterAndMaybeThumbnail lib env createFile s rt
             \<lparr>fo_TenantID = tenantID, fo_ID = '''', fo_RoomID = fr_RoomID req, fo_UploaderID = uploaderID, fo_ObjectKey = fr_ObjectKey req,
              fo_ContentType = fr_ContentType req, fo_SizeBytes = fr_SizeBytes req, fo_ThumbnailKey = '''', fo_OriginalName = fr_OriginalName req, fo_CreatedAt = 0\<rparr> of
        (s', rt', Inl e, touched) \<Rightarrow> (s', rt', (500, NewErrorResponse e), touched)
      | (s', rt', Inr item, touched) \<Rightarrow> (s', rt', (201, fileJson item), touched)))))"

fun file_serve ::
  "('c, 'o) objectLib \<Rightarrow> 'c minioEnv \<Rightarrow> ('s \<Rightarrow> FileObject \<Rightarrow> 's \<times> FileObject result) \<Rightarrow> 's \<Rightarrow> 'c TenantMinIORouter \<Rightarrow> ctx \<Rightarrow> fileCall
   \<Rightarrow> 's \<times> 'c TenantMinIORouter \<times> response \<times> 'c touch list" where
  "file_serve lib env createFile s rt c (FUpload bind) = api_presign (PresignUpload lib env rt) s rt c bind"
| "file_serve lib env createFile s rt c (FDownload bind) = api_presign (PresignDownload lib env rt) s rt c bind"
| "file_serve lib env createFile s rt c (FRegister bind) = api_registerFile lib env createFile s rt c bind"


section \<open>Keys stay in the tenant's namespace\<close>

lemma thumbKeyOf_prefix: "HasPrefix key (p @ ''/'') \<Longrightarrow> HasPrefix (thumbKeyOf key) (p @ ''/'')"
proof -
  assume "HasPrefix key (p @ ''/'')"
  then obtain name where key: "key = (p @ ''/'') @ name" by (auto simp: HasPrefix_iff)
  obtain pre where pre: "key = pre @ Ext key" using Ext_suffix by blast
  obtain us where "pre = (p @ ''/'') @ us \<and> us @ Ext key = name \<or> pre @ us = p @ ''/'' \<and> Ext key = us @ name"
    using key pre append_eq_append_conv2[of pre "Ext key" "p @ ''/''" name] by auto
  then have "\<exists>mid. pre = (p @ ''/'') @ mid"
  proof (elim disjE conjE)
    assume us: "pre @ us = p @ ''/''" "Ext key = us @ name"
    have "us = []"
    proof (rule ccontr)
      assume "us \<noteq> []"
      then have "last us = CHR ''/''" using us(1) by (metis last_appendR last_snoc)
      then show False using us(2) \<open>us \<noteq> []\<close> Ext_slash[of key] by (metis Un_iff last_in_set set_append)
    qed
    then show ?thesis using us(1) by simp
  qed blast
  moreover have "TrimSuffix key (Ext key) = pre" using pre by (metis TrimSuffix_append)
  ultimately show ?thesis by (auto simp: thumbKeyOf_def HasPrefix_iff)
qed

lemma tenantObjectKey_prefix: "HasPrefix (tenantObjectKey (''tenants/'' @ t @ ''/'') key) (''tenants/'' @ t @ ''/'')"
proof -
  let ?p = "''tenants/'' @ t @ ''/''"
  have trim: "TrimSpace ?p = ?p" using TrimSpace_hd_last[of "CHR ''t''" "''enants/'' @ t @ ''/''"] by (simp add: plain_char_def)
  moreover have "TrimPrefix ?p ''/'' = ?p" by (simp add: TrimPrefix_def HasPrefix_def)
  moreover have "HasSuffix ?p ''/''" by (simp add: HasSuffix_def)
  ultimately show ?thesis
    unfolding tenantObjectKey_def Let_def by (auto simp: HasPrefix_iff)
qed

lemma Resolve_prefix:
  assumes "snd (Resolve rt t env) = Inr (client, bucket, pre)"
  shows "pre = '''' \<or> pre = ''tenants/'' @ t @ ''/''"
proof (cases "TrimSpace t = ''''")
  case True
  then show ?thesis using assms by (simp add: Resolve_def)
next
  case False
  then show ?thesis using assms unfolding mor.answer[OF False] by (auto split: sum.splits option.splits if_splits)
qed

lemma Register_touched:
  "snd (snd (snd (RegisterAndMaybeThumbnail lib env createFile s rt item))) =
     (case snd (Resolve rt (fo_TenantID item) env) of
        Inl _ \<Rightarrow> []
      | Inr (client, bucket, pre) \<Rightarrow>
          if HasPrefix (fo_ContentType item) ''image/'' then snd (makeThumbnail lib client bucket (tenantObjectKey pre (fo_ObjectKey item))) else [])"
  by (simp add: RegisterAndMaybeThumbnail_def Let_def split: sum.split prod.split)

lemma makeThumbnail_touched:
  "(cl, bu, k) \<in> set (snd (makeThumbnail lib cl' bu' key)) \<Longrightarrow> cl = cl' \<and> bu = bu' \<and> (k = key \<or> k = thumbKeyOf key)"
  by (auto simp: makeThumbnail_def Let_def split: sum.splits)

lemma file_serve_touches:
  assumes "file_serve lib env createFile s rt c call = (s', rt', resp, touched)" and "(client, bucket, key) \<in> set touched"
    and "file_tenantFromContext c = Some t"
  obtains pre where "snd (Resolve rt t env) = Inr (client, bucket, pre)" "pre = ''tenants/'' @ t @ ''/'' \<Longrightarrow> HasPrefix key pre"
proof -
  have "\<exists>pre name. snd (Resolve rt t env) = Inr (client, bucket, pre) \<and> (key = tenantObjectKey pre name \<or> key = thumbKeyOf (tenantObjectKey pre name))"
  proof (cases call)
    case (FRegister bind)
    obtain item where item: "fo_TenantID item = t" "touched = snd (snd (snd (RegisterAndMaybeThumbnail lib env createFile s rt item)))"
      using FRegister assms by (auto simp: api_registerFile_def split: option.splits sum.splits prod.splits) (metis FileObject.select_convs(1) snd_conv)+
    then show ?thesis
      using assms(2) unfolding Register_touched
      by (cases "snd (Resolve rt t env)") (auto split: if_splits dest!: makeThumbnail_touched)
  qed (use assms in \<open>auto simp: api_presign_def PresignUpload_def PresignDownload_def Let_def split: sum.splits prod.splits\<close>)
  then obtain pre name where pre: "snd (Resolve rt t env) = Inr (client, bucket, pre)" and key: "key = tenantObjectKey pre name \<or> key = thumbKeyOf (tenantObjectKey pre name)"
    by blast
  show thesis
    by (rule that[OF pre]) (use key tenantObjectKey_prefix[of t name] thumbKeyOf_prefix[of "tenantObjectKey pre name" "''tenants/'' @ t"] in auto)
qed



definition objLib :: "(string, string) objectLib" where
  "objLib = \<lparr>ol_presignPut = (\<lambda>cl b k. Inr (b @ ''/'' @ k)), ol_presignGet = (\<lambda>cl b k. Inr (b @ ''/'' @ k)), ol_getObject = (\<lambda>_ _ _. Inr ''obj''),
     ol_thumbnail = (\<lambda>_. Inr ''jpg''), ol_putObject = (\<lambda>_ _ _ _. Inr ())\<rparr>"

definition fileEx :: "string \<Rightarrow> string \<Rightarrow> unit \<times> string TenantMinIORouter \<times> response \<times> string touch list" where
  "fileEx t key = file_serve objLib sharedMinIO (\<lambda>s f. (s, Inr f)) () (NewTenantMinIORouter ''m'' ''files'') [''auth_tenant_id'' \<mapsto> CStr t] (FUpload (Inr key))"

lemma fileEx_run:
  assumes "TrimSpace t \<noteq> ''''"
  shows "snd (snd (snd (fileEx t key))) = [(''m'', ''files'', tenantObjectKey (''tenants/'' @ t @ ''/'') key)]"
proof -
  have "t \<noteq> ''''" using assms by auto
  then show ?thesis
    using Resolve_shared_eval[OF assms]
    by (cases "Resolve (NewTenantMinIORouter ''m'' ''files'') t sharedMinIO")
      (simp add: fileEx_def api_presign_def file_tenantFromContext_def PresignUpload_def objLib_def Let_def)
qed


end
