(* ===== verification/JsonCodec.thy ===== *)
theory JsonCodec
  imports SessionServices TenantHub FileServer
begin

text \<open>
  The structs of the domain packages on the wire between the servers and the data base server: \<open>encoding/json\<close> into each struct, field by field, and that it
  undoes what \<open>json.Marshal\<close> made of a value. The rules for fields are those of the web-socket frames: names are matched up to case, later values
  overwrite earlier ones, \<open>null\<close> leaves a field as it is, other types are errors. Numbers come from Go integers.
\<close>

section \<open>Fields\<close>

definition structFields :: "json \<Rightarrow> (string \<times> json) list result" where
  "structFields j = (case j of JNull \<Rightarrow> Inr [] | JObj fs \<Rightarrow> Inr fs | _ \<Rightarrow> Inl ''cannot unmarshal into struct'')"

definition decodeInt :: "json \<Rightarrow> int \<Rightarrow> int result" where
  "decodeInt j old = (case j of JNull \<Rightarrow> Inr old | JNum n \<Rightarrow> Inr n | _ \<Rightarrow> Inl ''cannot unmarshal into int'')"

definition decodeBool :: "json \<Rightarrow> bool \<Rightarrow> bool result" where
  "decodeBool j old = (case j of JNull \<Rightarrow> Inr old | JBool b \<Rightarrow> Inr b | _ \<Rightarrow> Inl ''cannot unmarshal into bool'')"

definition decodeTimePtr :: "json \<Rightarrow> time option \<Rightarrow> time option result" where
  "decodeTimePtr j old = (case j of JNull \<Rightarrow> Inr None | JNum n \<Rightarrow> Inr (Some n) | _ \<Rightarrow> Inl ''cannot unmarshal into time'')"

definition decodeMeta :: "json \<Rightarrow> jsonText \<Rightarrow> jsonText result" where
  "decodeMeta j old =
     (case j of
        JNull \<Rightarrow> Inr old
      | JStr s \<Rightarrow> Inr (if s = '''' then NoText else BadText)
      | JArr [JStr m, t] \<Rightarrow> if m = ''text'' then Inr (Text t) else Inl ''cannot unmarshal into string''
      | _ \<Rightarrow> Inl ''cannot unmarshal into string'')"

fun mapR :: "('a \<Rightarrow> 'b result) \<Rightarrow> 'a list \<Rightarrow> 'b list result" where
  "mapR f [] = Inr []"
| "mapR f (x # xs) = bindR (f x) (\<lambda>y. bindR (mapR f xs) (\<lambda>ys. Inr (y # ys)))"

text \<open>A slice; \<open>null\<close> is the nil slice.\<close>

definition decodeList :: "(json \<Rightarrow> 'a result) \<Rightarrow> json \<Rightarrow> 'a list \<Rightarrow> 'a list result" where
  "decodeList f j old = (case j of JNull \<Rightarrow> Inr [] | JArr js \<Rightarrow> mapR f js | _ \<Rightarrow> Inl ''cannot unmarshal into slice'')"

definition fStr :: "(string \<times> json) list \<Rightarrow> string \<Rightarrow> string result" where
  "fStr fs k = decodeField decodeStr '''' (fieldValues k fs)"

definition fInt :: "(string \<times> json) list \<Rightarrow> string \<Rightarrow> int result" where
  "fInt fs k = decodeField decodeInt 0 (fieldValues k fs)"

definition fBool :: "(string \<times> json) list \<Rightarrow> string \<Rightarrow> bool result" where
  "fBool fs k = decodeField decodeBool False (fieldValues k fs)"

definition fStrPtr :: "(string \<times> json) list \<Rightarrow> string \<Rightarrow> string option result" where
  "fStrPtr fs k = decodeField decodeStrPtr None (fieldValues k fs)"

definition fTimePtr :: "(string \<times> json) list \<Rightarrow> string \<Rightarrow> time option result" where
  "fTimePtr fs k = decodeField decodeTimePtr None (fieldValues k fs)"

definition fList :: "(json \<Rightarrow> 'a result) \<Rightarrow> (string \<times> json) list \<Rightarrow> string \<Rightarrow> 'a list result" where
  "fList f fs k = decodeField (decodeList f) [] (fieldValues k fs)"

definition fStrs :: "(string \<times> json) list \<Rightarrow> string \<Rightarrow> string list result" where
  "fStrs = fList (\<lambda>j. decodeStr j '''')"

section \<open>Structs\<close>

definition unmarshalRoom :: "json \<Rightarrow> ChatRoom result" where
  "unmarshalRoom j = bindR (structFields j) (\<lambda>fs.
     bindR (fStr fs ''tenant_id'') (\<lambda>t. bindR (fStr fs ''id'') (\<lambda>i. bindR (fStr fs ''name'') (\<lambda>n. bindR (fStr fs ''room_type'') (\<lambda>ty.
     bindR (fStr fs ''created_by'') (\<lambda>by'. bindR (fInt fs ''created_at'') (\<lambda>at.
       Inr \<lparr>cr_TenantID = t, cr_ID = i, cr_Name = n, cr_RoomType = ty, cr_CreatedBy = by', cr_CreatedAt = at\<rparr>)))))))"

definition unmarshalMessage :: "json \<Rightarrow> Message result" where
  "unmarshalMessage j = bindR (structFields j) (\<lambda>fs.
     bindR (fStr fs ''tenant_id'') (\<lambda>t. bindR (fStr fs ''id'') (\<lambda>i. bindR (fStr fs ''room_id'') (\<lambda>r. bindR (fStr fs ''sender_id'') (\<lambda>u.
     bindR (fStr fs ''body'') (\<lambda>b. bindR (decodeField decodeMeta NoText (fieldValues ''meta_json'' fs)) (\<lambda>mj. bindR (fInt fs ''created_at'') (\<lambda>at.
       Inr \<lparr>ms_TenantID = t, ms_ID = i, ms_RoomID = r, ms_SenderID = u, ms_Body = b, ms_MetaJSON = mj, ms_CreatedAt = at\<rparr>))))))))"

definition unmarshalReader :: "json \<Rightarrow> MessageRead result" where
  "unmarshalReader j = bindR (structFields j) (\<lambda>fs.
     bindR (fStr fs ''tenant_id'') (\<lambda>t. bindR (fStr fs ''room_id'') (\<lambda>r. bindR (fStr fs ''message_id'') (\<lambda>i. bindR (fStr fs ''user_id'') (\<lambda>u.
     bindR (fInt fs ''read_at'') (\<lambda>at. Inr \<lparr>mr_TenantID = t, mr_RoomID = r, mr_MessageID = i, mr_UserID = u, mr_ReadAt = at\<rparr>))))))"

definition unmarshalUnread :: "json \<Rightarrow> RoomUnread result" where
  "unmarshalUnread j = bindR (structFields j) (\<lambda>fs.
     bindR (fStr fs ''room_id'') (\<lambda>r. bindR (fInt fs ''unread_count'') (\<lambda>n. Inr \<lparr>ru_RoomID = r, ru_UnreadCount = nat n\<rparr>)))"

definition unmarshalSummary :: "json \<Rightarrow> ChatRoomSummary result" where
  "unmarshalSummary j = bindR (structFields j) (\<lambda>fs.
     bindR (fStr fs ''room_id'') (\<lambda>a1. bindR (fStr fs ''name'') (\<lambda>a2. bindR (fStr fs ''room_type'') (\<lambda>a3. bindR (fStr fs ''created_by'') (\<lambda>a4.
     bindR (fInt fs ''created_at'') (\<lambda>a5. bindR (fStrPtr fs ''peer_user_id'') (\<lambda>a6. bindR (fStrPtr fs ''peer_name'') (\<lambda>a7.
     bindR (fStrPtr fs ''peer_status'') (\<lambda>a8. bindR (fStrPtr fs ''peer_status_note'') (\<lambda>a9. bindR (fStrPtr fs ''latest_message_id'') (\<lambda>b1.
     bindR (fStrPtr fs ''latest_message_body'') (\<lambda>b2. bindR (fStrPtr fs ''latest_message_kind'') (\<lambda>b3. bindR (fStrPtr fs ''latest_message_summary'') (\<lambda>b4.
     bindR (fStrs fs ''latest_message_mention_tokens'') (\<lambda>b5. bindR (fBool fs ''latest_message_is_mentioned'') (\<lambda>b6.
     bindR (fTimePtr fs ''latest_message_at'') (\<lambda>b7. bindR (fStrPtr fs ''latest_message_sender'') (\<lambda>b8. bindR (fInt fs ''unread_count'') (\<lambda>b9.
       Inr \<lparr>su_RoomID = a1, su_Name = a2, su_RoomType = a3, su_CreatedBy = a4, su_CreatedAt = a5, su_PeerUserID = a6, su_PeerName = a7,
            su_PeerStatus = a8, su_PeerStatusNote = a9, su_LatestMessageID = b1, su_LatestMessageBody = b2, su_LatestMessageKind = b3,
            su_LatestMessageSummary = b4, su_LatestMessageMentionTokens = b5, su_LatestMessageIsMentioned = b6, su_LatestMessageAt = b7,
            su_LatestMessageSender = b8, su_UnreadCount = nat b9\<rparr>)))))))))))))))))))"

definition unmarshalOrg :: "json \<Rightarrow> OrgUnit result" where
  "unmarshalOrg j = bindR (structFields j) (\<lambda>fs.
     bindR (fStr fs ''tenant_id'') (\<lambda>t. bindR (fStr fs ''id'') (\<lambda>i. bindR (fStrPtr fs ''parent_id'') (\<lambda>p. bindR (fStr fs ''name'') (\<lambda>n.
     bindR (fInt fs ''created_at'') (\<lambda>at. Inr \<lparr>ou_TenantID = t, ou_ID = i, ou_ParentID = p, ou_Name = n, ou_CreatedAt = at\<rparr>))))))"

text \<open>No key selects the field \<open>PasswordHash\<close>, whose tag is \<open>json:"-"\<close>.\<close>

definition unmarshalUser :: "json \<Rightarrow> User result" where
  "unmarshalUser j = bindR (structFields j) (\<lambda>fs.
     bindR (fStr fs ''tenant_id'') (\<lambda>t. bindR (fStr fs ''id'') (\<lambda>i. bindR (fStr fs ''org_id'') (\<lambda>og. bindR (fStr fs ''email'') (\<lambda>em. bindR (fStr fs ''name'') (\<lambda>n.
     bindR (fStr fs ''title'') (\<lambda>ti. bindR (fStr fs ''role'') (\<lambda>ro. bindR (fStr fs ''status'') (\<lambda>st. bindR (fStr fs ''status_note'') (\<lambda>sn.
     bindR (fInt fs ''created_at'') (\<lambda>c. bindR (fInt fs ''updated_at'') (\<lambda>u.
       Inr \<lparr>us_TenantID = t, us_ID = i, us_OrgID = og, us_Email = em, us_Name = n, us_Title = ti, us_Role = ro, us_Status = st, us_StatusNote = sn,
            us_PasswordHash = '''', us_CreatedAt = c, us_UpdatedAt = u\<rparr>))))))))))))"

definition unmarshalAudit :: "json \<Rightarrow> AliasAudit result" where
  "unmarshalAudit j = bindR (structFields j) (\<lambda>fs.
     bindR (fStr fs ''tenant_id'') (\<lambda>t. bindR (fStr fs ''id'') (\<lambda>i. bindR (fStr fs ''user_id'') (\<lambda>u. bindR (fStr fs ''alias'') (\<lambda>a. bindR (fStr fs ''action'') (\<lambda>ac.
     bindR (fStr fs ''acted_by'') (\<lambda>by'. bindR (fStr fs ''ip'') (\<lambda>ip. bindR (fStr fs ''user_agent'') (\<lambda>ua. bindR (fInt fs ''created_at'') (\<lambda>at.
       Inr \<lparr>aa_TenantID = t, aa_ID = i, aa_UserID = u, aa_Alias = a, aa_Action = ac, aa_ActedBy = by', aa_IP = ip, aa_UserAgent = ua, aa_CreatedAt = at\<rparr>))))))))))"

definition unmarshalTenant :: "json \<Rightarrow> Tenant result" where
  "unmarshalTenant j = bindR (structFields j) (\<lambda>fs.
     bindR (fStr fs ''tenant_id'') (\<lambda>t. bindR (fStr fs ''name'') (\<lambda>n. bindR (fStr fs ''deployment_mode'') (\<lambda>dm. bindR (fStr fs ''dedicated_dsn'') (\<lambda>ds.
     bindR (fStr fs ''dedicated_redis_addr'') (\<lambda>ra. bindR (fStr fs ''dedicated_lavinmq_url'') (\<lambda>mq. bindR (fStr fs ''dedicated_minio_endpoint'') (\<lambda>me.
     bindR (fStr fs ''dedicated_minio_access_key'') (\<lambda>ma. bindR (fStr fs ''dedicated_minio_secret_key'') (\<lambda>mk. bindR (fStr fs ''dedicated_minio_bucket'') (\<lambda>mb.
     bindR (fBool fs ''dedicated_minio_use_ssl'') (\<lambda>ms. bindR (fInt fs ''user_count_threshold'') (\<lambda>uc. bindR (fBool fs ''is_active'') (\<lambda>ia.
     bindR (fInt fs ''created_at'') (\<lambda>c. bindR (fInt fs ''updated_at'') (\<lambda>u.
       Inr \<lparr>tn_TenantID = t, tn_Name = n, tn_DeploymentMode = dm, tn_DedicatedDSN = ds, tn_DedicatedRedisAddr = ra, tn_DedicatedLavinMQURL = mq,
            tn_DedicatedMinIOEndpoint = me, tn_DedicatedMinIOAccessKey = ma, tn_DedicatedMinIOSecretKey = mk, tn_DedicatedMinIOBucket = mb,
            tn_DedicatedMinIOUseSSL = ms, tn_UserCountThreshold = uc, tn_IsActive = ia, tn_CreatedAt = c, tn_UpdatedAt = u\<rparr>))))))))))))))))"

definition unmarshalFile :: "json \<Rightarrow> FileObject result" where
  "unmarshalFile j = bindR (structFields j) (\<lambda>fs.
     bindR (fStr fs ''tenant_id'') (\<lambda>t. bindR (fStr fs ''id'') (\<lambda>i. bindR (fStr fs ''room_id'') (\<lambda>r. bindR (fStr fs ''uploader_id'') (\<lambda>u. bindR (fStr fs ''object_key'') (\<lambda>k.
     bindR (fStr fs ''content_type'') (\<lambda>ct. bindR (fInt fs ''size_bytes'') (\<lambda>sz. bindR (fStr fs ''thumbnail_key'') (\<lambda>tk. bindR (fStr fs ''original_name'') (\<lambda>nm.
     bindR (fInt fs ''created_at'') (\<lambda>at.
       Inr \<lparr>fo_TenantID = t, fo_ID = i, fo_RoomID = r, fo_UploaderID = u, fo_ObjectKey = k, fo_ContentType = ct, fo_SizeBytes = sz, fo_ThumbnailKey = tk,
            fo_OriginalName = nm, fo_CreatedAt = at\<rparr>)))))))))))"

definition unmarshalSession :: "json \<Rightarrow> DeviceSession result" where
  "unmarshalSession j = bindR (structFields j) (\<lambda>fs.
     bindR (fStr fs ''session_id'') (\<lambda>i. bindR (fStr fs ''tenant_id'') (\<lambda>t. bindR (fStr fs ''user_id'') (\<lambda>u. bindR (fStr fs ''device_id'') (\<lambda>d.
     bindR (fStr fs ''device_name'') (\<lambda>dn. bindR (fStr fs ''auth_token'') (\<lambda>a. bindR (fStr fs ''session_token'') (\<lambda>k. bindR (fStrs fs ''allowed_tenants'') (\<lambda>al.
     bindR (fInt fs ''last_seen_at'') (\<lambda>ls. bindR (fInt fs ''created_at'') (\<lambda>c.
       Inr \<lparr>ds_SessionID = i, ds_TenantID = t, ds_UserID = u, ds_DeviceID = d, ds_DeviceName = dn, ds_AuthToken = a, ds_SessionToken = k,
            ds_AllowedTenants = al, ds_LastSeenAt = ls, ds_CreatedAt = c\<rparr>)))))))))))"

definition statusJson :: "UserStatus \<Rightarrow> json" where
  "statusJson x = JObj [(''tenant_id'', JStr (st_TenantID x)), (''user_id'', JStr (st_UserID x)), (''status'', JStr (st_Status x)),
     (''status_note'', JStr (st_StatusNote x)), (''updated_at'', jtime (st_UpdatedAt x))]"

definition unmarshalStatus :: "json \<Rightarrow> UserStatus result" where
  "unmarshalStatus j = bindR (structFields j) (\<lambda>fs.
     bindR (fStr fs ''tenant_id'') (\<lambda>t. bindR (fStr fs ''user_id'') (\<lambda>u. bindR (fStr fs ''status'') (\<lambda>s. bindR (fStr fs ''status_note'') (\<lambda>n.
     bindR (fInt fs ''updated_at'') (\<lambda>at. Inr \<lparr>st_TenantID = t, st_UserID = u, st_Status = s, st_StatusNote = n, st_UpdatedAt = at\<rparr>))))))"

definition unmarshalNoteFile :: "json \<Rightarrow> NoteFile result" where
  "unmarshalNoteFile j = bindR (structFields j) (\<lambda>fs.
     bindR (fStr fs ''file_name'') (\<lambda>n. bindR (fStr fs ''object_key'') (\<lambda>k. bindR (fStr fs ''content_type'') (\<lambda>ct. bindR (fInt fs ''size_bytes'') (\<lambda>sz.
       Inr \<lparr>nf_FileName = n, nf_ObjectKey = k, nf_ContentType = ct, nf_SizeBytes = sz\<rparr>)))))"

definition unmarshalRecipient :: "json \<Rightarrow> NoteRecipient result" where
  "unmarshalRecipient j = bindR (structFields j) (\<lambda>fs.
     bindR (fStr fs ''user_id'') (\<lambda>u. bindR (fStr fs ''type'') (\<lambda>ty. Inr \<lparr>nr_UserID = u, nr_Type = ty\<rparr>)))"

definition unmarshalNote :: "json \<Rightarrow> Note result" where
  "unmarshalNote j = bindR (structFields j) (\<lambda>fs.
     bindR (fStr fs ''note_id'') (\<lambda>i. bindR (fStr fs ''tenant_id'') (\<lambda>t. bindR (fStr fs ''sender_user_id'') (\<lambda>u. bindR (fStr fs ''title'') (\<lambda>ti.
     bindR (fStr fs ''body'') (\<lambda>b. bindR (fList unmarshalRecipient fs ''recipients'') (\<lambda>rc. bindR (fList unmarshalNoteFile fs ''files'') (\<lambda>ff.
     bindR (fInt fs ''created_at'') (\<lambda>at.
       Inr \<lparr>no_NoteID = i, no_TenantID = t, no_SenderUserID = u, no_Title = ti, no_Body = b, no_Recipients = rc, no_Files = ff, no_CreatedAt = at\<rparr>)))))))))"

definition unmarshalInbox :: "json \<Rightarrow> NoteInboxItem result" where
  "unmarshalInbox j = bindR (structFields j) (\<lambda>fs.
     bindR (fStr fs ''note_id'') (\<lambda>i. bindR (fStr fs ''sender_user_id'') (\<lambda>u. bindR (fStr fs ''recipient_type'') (\<lambda>ty. bindR (fStr fs ''title'') (\<lambda>ti.
     bindR (fStr fs ''body'') (\<lambda>b. bindR (fInt fs ''file_count'') (\<lambda>fc. bindR (fBool fs ''is_read'') (\<lambda>rd. bindR (fInt fs ''created_at'') (\<lambda>at.
       Inr \<lparr>ib_NoteID = i, ib_SenderUserID = u, ib_RecipientType = ty, ib_Title = ti, ib_Body = b, ib_FileCount = nat fc, ib_IsRead = rd, ib_CreatedAt = at\<rparr>)))))))))"

definition notifyJson :: "ChatNotifyInput \<Rightarrow> json" where
  "notifyJson x = JObj [(''room_id'', JStr (cn_RoomID x)), (''message_id'', JStr (cn_MessageID x)), (''title'', JStr (cn_Title x)), (''body'', JStr (cn_Body x)),
     (''recipient_ids'', jstrs (cn_RecipientIDs x))]"

definition unmarshalNotify :: "json \<Rightarrow> ChatNotifyInput result" where
  "unmarshalNotify j = bindR (structFields j) (\<lambda>fs.
     bindR (fStr fs ''room_id'') (\<lambda>r. bindR (fStr fs ''message_id'') (\<lambda>m. bindR (fStr fs ''title'') (\<lambda>ti. bindR (fStr fs ''body'') (\<lambda>b.
     bindR (fStrs fs ''recipient_ids'') (\<lambda>rs. Inr \<lparr>cn_RoomID = r, cn_MessageID = m, cn_Title = ti, cn_Body = b, cn_RecipientIDs = rs\<rparr>))))))"

definition roomJson :: "ChatRoom \<Rightarrow> json" where
  "roomJson x = JObj [(''tenant_id'', JStr (cr_TenantID x)), (''id'', JStr (cr_ID x)), (''name'', JStr (cr_Name x)), (''room_type'', JStr (cr_RoomType x)),
     (''created_by'', JStr (cr_CreatedBy x)), (''created_at'', jtime (cr_CreatedAt x))]"


section \<open>Reading back what was written\<close>

text \<open>The names of the fields are their own case folding.\<close>

lemma foldName_lower:
  assumes "list_all (\<lambda>c. c \<in> set ''abcdefghijklmnopqrstuvwxyz_'') s"
  shows "foldName s = s"
  using assms
proof (induction s)
  case (Cons c s)
  then have "c \<in> set ''abcdefghijklmnopqrstuvwxyz_''" by simp
  then have "(of_char c :: nat) < 0x80" "lower_char c = c" by (auto simp: lower_char_def)
  then show ?case using Cons by (simp del: foldName.simps)
qed simp

lemma field_names [simp]:
  "foldName ''acted_by'' = ''acted_by''" "foldName ''action'' = ''action''" "foldName ''alias'' = ''alias''"
  "foldName ''allowed_tenants'' = ''allowed_tenants''" "foldName ''auth_token'' = ''auth_token''" "foldName ''body'' = ''body''"
  "foldName ''content_type'' = ''content_type''" "foldName ''count'' = ''count''" "foldName ''created_at'' = ''created_at''"
  "foldName ''created_by'' = ''created_by''" "foldName ''cursor_created_at'' = ''cursor_created_at''" "foldName ''cursor_id'' = ''cursor_id''"
  "foldName ''cursor_room_id'' = ''cursor_room_id''" "foldName ''dedicated_dsn'' = ''dedicated_dsn''"
  "foldName ''dedicated_lavinmq_url'' = ''dedicated_lavinmq_url''" "foldName ''dedicated_minio_access_key'' = ''dedicated_minio_access_key''"
  "foldName ''dedicated_minio_bucket'' = ''dedicated_minio_bucket''" "foldName ''dedicated_minio_endpoint'' = ''dedicated_minio_endpoint''"
  "foldName ''dedicated_minio_secret_key'' = ''dedicated_minio_secret_key''" "foldName ''dedicated_minio_use_ssl'' = ''dedicated_minio_use_ssl''"
  "foldName ''dedicated_redis_addr'' = ''dedicated_redis_addr''" "foldName ''deployment_mode'' = ''deployment_mode''"
  "foldName ''device_id'' = ''device_id''" "foldName ''device_name'' = ''device_name''" "foldName ''email'' = ''email''"
  "foldName ''file_count'' = ''file_count''" "foldName ''file_name'' = ''file_name''" "foldName ''files'' = ''files''" "foldName ''from'' = ''from''"
  "foldName ''id'' = ''id''" "foldName ''input'' = ''input''" "foldName ''ip'' = ''ip''" "foldName ''is_active'' = ''is_active''"
  "foldName ''is_read'' = ''is_read''" "foldName ''last_seen_at'' = ''last_seen_at''" "foldName ''latest_message_at'' = ''latest_message_at''"
  "foldName ''latest_message_body'' = ''latest_message_body''" "foldName ''latest_message_id'' = ''latest_message_id''"
  "foldName ''latest_message_is_mentioned'' = ''latest_message_is_mentioned''" "foldName ''latest_message_kind'' = ''latest_message_kind''"
  "foldName ''latest_message_mention_tokens'' = ''latest_message_mention_tokens''" "foldName ''latest_message_sender'' = ''latest_message_sender''"
  "foldName ''latest_message_summary'' = ''latest_message_summary''" "foldName ''limit'' = ''limit''" "foldName ''member_ids'' = ''member_ids''"
  "foldName ''message_id'' = ''message_id''" "foldName ''meta_json'' = ''meta_json''" "foldName ''name'' = ''name''" "foldName ''note'' = ''note''"
  "foldName ''note_id'' = ''note_id''" "foldName ''object_key'' = ''object_key''" "foldName ''ok'' = ''ok''" "foldName ''org_id'' = ''org_id''"
  "foldName ''original_name'' = ''original_name''" "foldName ''parent_id'' = ''parent_id''" "foldName ''password'' = ''password''"
  "foldName ''peer_name'' = ''peer_name''" "foldName ''peer_status'' = ''peer_status''" "foldName ''peer_status_note'' = ''peer_status_note''"
  "foldName ''peer_user_id'' = ''peer_user_id''" "foldName ''q'' = ''q''" "foldName ''read_at'' = ''read_at''"
  "foldName ''recipient_ids'' = ''recipient_ids''" "foldName ''recipient_type'' = ''recipient_type''" "foldName ''recipients'' = ''recipients''"
  "foldName ''role'' = ''role''" "foldName ''room'' = ''room''" "foldName ''room_id'' = ''room_id''" "foldName ''room_type'' = ''room_type''"
  "foldName ''sender_id'' = ''sender_id''" "foldName ''sender_user_id'' = ''sender_user_id''" "foldName ''session_id'' = ''session_id''"
  "foldName ''session_token'' = ''session_token''" "foldName ''size_bytes'' = ''size_bytes''" "foldName ''status'' = ''status''"
  "foldName ''status_note'' = ''status_note''" "foldName ''tenant_id'' = ''tenant_id''" "foldName ''thumbnail_key'' = ''thumbnail_key''"
  "foldName ''title'' = ''title''" "foldName ''to'' = ''to''" "foldName ''type'' = ''type''" "foldName ''unread_count'' = ''unread_count''"
  "foldName ''updated_at'' = ''updated_at''" "foldName ''uploader_id'' = ''uploader_id''" "foldName ''user'' = ''user''"
  "foldName ''user_agent'' = ''user_agent''" "foldName ''user_count_threshold'' = ''user_count_threshold''" "foldName ''user_id'' = ''user_id''"
  "foldName ''valid'' = ''valid''"
  by (rule foldName_lower, simp)+

declare foldName.simps [simp del] foldName_ascii [simp del]

lemma fieldValues_step [simp]:
  "fieldValues k [] = []"
  "fieldValues k ((k', v) # fs) = (if foldName k' = foldName k then v # fieldValues k fs else fieldValues k fs)"
  by (simp_all add: fieldValues_def)

lemma fieldValues_append [simp]: "fieldValues k (fs @ gs) = fieldValues k fs @ fieldValues k gs"
  by (simp add: fieldValues_def)

lemma bindR_Inr [simp]: "bindR (Inr x) f = f x"
  by (simp add: bindR_def)

lemma structFields_JObj [simp]: "structFields (JObj fs) = Inr fs"
  by (simp add: structFields_def)

lemma decode_scalars [simp]:
  "decodeStr (JStr s) v = Inr s" "decodeInt (JNum n) i = Inr n" "decodeInt (jtime n) i = Inr n" "decodeBool (JBool b) c = Inr b" "decodeStrPtr (JStr s) p = Inr (Some s)"
  "decodeStrPtr JNull p = Inr None" "decodeTimePtr (jtime n) q = Inr (Some n)" "decodeTimePtr JNull q = Inr None" "decodeMeta (metaJson m) w = Inr m"
  by (simp_all add: decodeStr_def decodeInt_def decodeBool_def decodeStrPtr_def decodeTimePtr_def decodeMeta_def metaJson_def jtime_def split: jsonText.split)

lemma mapR_map: "(\<And>x. f (g x) = Inr x) \<Longrightarrow> mapR f (map g xs) = Inr xs"
  by (induction xs) simp_all

lemma decodeList_JArr: "(\<And>x. f (g x) = Inr x) \<Longrightarrow> decodeList f (JArr (map g xs)) old = Inr xs"
  by (simp add: decodeList_def mapR_map)

lemma decodeList_strs [simp]: "decodeList (\<lambda>j. decodeStr j '''') (jstrs xs) old = Inr xs"
  unfolding jstrs_def by (rule decodeList_JArr) simp

lemmas field_defs = fStr_def fInt_def fBool_def fStrPtr_def fTimePtr_def fStrs_def fList_def


lemma unmarshal_room [simp]: "unmarshalRoom (roomJson x) = Inr x"
  by (simp add: unmarshalRoom_def roomJson_def field_defs)

lemma unmarshal_message [simp]: "unmarshalMessage (messageJson x) = Inr x"
  by (simp add: unmarshalMessage_def messageJson_def field_defs)

lemma unmarshal_reader [simp]: "unmarshalReader (readerJson x) = Inr x"
  by (simp add: unmarshalReader_def readerJson_def field_defs)

lemma unmarshal_unread [simp]: "unmarshalUnread (unreadJson x) = Inr x"
  by (simp add: unmarshalUnread_def unreadJson_def field_defs)

lemma fieldValues_omitempty [simp]: "fieldValues k (omitempty k' v) = (if foldName k' = foldName k then (case v of None \<Rightarrow> [] | Some j \<Rightarrow> [j]) else [])"
  by (simp add: omitempty_def split: option.split)

lemma decode_optional [simp]:
  "decodeField decodeStrPtr None (case p of None \<Rightarrow> [] | Some x \<Rightarrow> ((\<lambda>j. [j]) \<circ> JStr) x) = Inr p"
  "decodeField decodeTimePtr None (case q of None \<Rightarrow> [] | Some x \<Rightarrow> ((\<lambda>j. [j]) \<circ> jtime) x) = Inr q"
  by (cases p; simp) (cases q; simp)

lemma unmarshal_summary [simp]: "unmarshalSummary (summaryJson x) = Inr x"
  by (simp add: unmarshalSummary_def summaryJson_def field_defs)

lemma unmarshal_org [simp]: "unmarshalOrg (orgJson x) = Inr x"
  by (simp add: unmarshalOrg_def orgJson_def field_defs)

lemma unmarshal_user [simp]: "unmarshalUser (userJson x) = Inr (x\<lparr>us_PasswordHash := ''''\<rparr>)"
  by (simp add: unmarshalUser_def userJson_def field_defs)

lemma unmarshal_audit [simp]: "unmarshalAudit (auditJson x) = Inr x"
  by (simp add: unmarshalAudit_def auditJson_def field_defs)

lemma unmarshal_tenant [simp]: "unmarshalTenant (tenantJson x) = Inr x"
  by (simp add: unmarshalTenant_def tenantJson_def field_defs)

lemma unmarshal_file [simp]: "unmarshalFile (fileJson x) = Inr x"
  by (simp add: unmarshalFile_def fileJson_def field_defs)

lemma unmarshal_session [simp]: "unmarshalSession (sessionJson x) = Inr x"
  by (simp add: unmarshalSession_def sessionJson_def field_defs)

lemma unmarshal_status [simp]: "unmarshalStatus (statusJson x) = Inr x"
  by (simp add: unmarshalStatus_def statusJson_def field_defs)

lemma unmarshal_noteFile [simp]: "unmarshalNoteFile (noteFileJson x) = Inr x"
  by (simp add: unmarshalNoteFile_def noteFileJson_def field_defs)

lemma unmarshal_recipient [simp]: "unmarshalRecipient (recipientJson x) = Inr x"
  by (simp add: unmarshalRecipient_def recipientJson_def field_defs)

lemma unmarshal_note [simp]: "unmarshalNote (noteJson x) = Inr x"
  by (simp add: unmarshalNote_def noteJson_def field_defs decodeList_JArr)

lemma unmarshal_inbox [simp]: "unmarshalInbox (inboxJson x) = Inr x"
  by (simp add: unmarshalInbox_def inboxJson_def field_defs)

lemma unmarshal_notify [simp]: "unmarshalNotify (notifyJson x) = Inr x"
  by (simp add: unmarshalNotify_def notifyJson_def field_defs)



end
