(* ===== verification/DbmanApi.thy ===== *)
theory DbmanApi
  imports JsonCodec DbmanClient
begin

text \<open>
  The data base server over HTTP, both ends of the wire. The server: the routes and handlers of \<open>server/dbman/api/handler.go\<close>, over the records of
  operations of the chat, user, session, tenant and file services. The clients: \<open>dbman_client.go\<close> of the chat, session, orgHub, fileman and tenantHub
  servers and the tenant metadata provider of \<open>server/common/infra/dbman\<close>. A request body is a JSON tree, or an error where the text is not JSON;
  the order of the keys of a payload does not matter, as its decoder looks them up.
\<close>

section \<open>Services\<close>

record 's dbmanServices =
  dm_chat :: "'s chatStore"
  dm_user :: "'s userStore"
  dm_session :: "'s sessionStore"
  dm_tenant :: "'s tenantStore"
  dm_getTenant :: "'s \<Rightarrow> string \<Rightarrow> 's \<times> Tenant result"
  dm_createFile :: "'s \<Rightarrow> FileObject \<Rightarrow> 's \<times> FileObject result"
  dm_searchFiles :: "'s \<Rightarrow> string \<Rightarrow> string \<Rightarrow> int \<Rightarrow> 's \<times> FileObject list result"
  dm_ready :: "'s \<Rightarrow> unit result"

section \<open>Requests\<close>

text \<open>
  \<open>ShouldBindJSON\<close> decodes the whole struct and then checks the fields tagged \<open>binding:"required"\<close>: a string must not be empty. (On a field that
  is a struct the tag has no effect.)
\<close>

definition required :: "(string \<times> string) list \<Rightarrow> 'a \<Rightarrow> 'a result" where
  "required ks x =
     (case filter (\<lambda>(k, v). v = '''') ks of
        [] \<Rightarrow> Inr x
      | (k, _) # _ \<Rightarrow> Inl (''Field validation for '' @ k @ '' failed on the required tag''))"

definition bind1 :: "string \<Rightarrow> json \<Rightarrow> string result" where
  "bind1 k j = bindR (structFields j) (\<lambda>fs. bindR (fStr fs k) (\<lambda>v. required [(k, v)] v))"

definition bind2 :: "string \<Rightarrow> string \<Rightarrow> json \<Rightarrow> (string \<times> string) result" where
  "bind2 k l j = bindR (structFields j) (\<lambda>fs. bindR (fStr fs k) (\<lambda>v. bindR (fStr fs l) (\<lambda>w. required [(k, v), (l, w)] (v, w))))"

definition bind3 :: "string \<Rightarrow> string \<Rightarrow> string \<Rightarrow> json \<Rightarrow> (string \<times> string \<times> string) result" where
  "bind3 k l m j = bindR (structFields j) (\<lambda>fs. bindR (fStr fs k) (\<lambda>v. bindR (fStr fs l) (\<lambda>w. bindR (fStr fs m) (\<lambda>x.
     required [(k, v), (l, w), (m, x)] (v, w, x)))))"

definition bind4 :: "string \<Rightarrow> string \<Rightarrow> string \<Rightarrow> string \<Rightarrow> json \<Rightarrow> (string \<times> string \<times> string \<times> string) result" where
  "bind4 k l m n j = bindR (structFields j) (\<lambda>fs. bindR (fStr fs k) (\<lambda>v. bindR (fStr fs l) (\<lambda>w. bindR (fStr fs m) (\<lambda>x. bindR (fStr fs n) (\<lambda>y.
     required [(k, v), (l, w), (m, x), (n, y)] (v, w, x, y))))))"

definition withJSON :: "json result \<Rightarrow> (json \<Rightarrow> 'r result) \<Rightarrow> 's \<Rightarrow> ('r \<Rightarrow> 's \<times> response) \<Rightarrow> 's \<times> response" where
  "withJSON body dec s f = withBody (bindR body dec) s f"

definition jitems :: "('a \<Rightarrow> json) \<Rightarrow> 'a list \<Rightarrow> json" where
  "jitems js xs = JArr (map js xs)"

section \<open>Handlers\<close>

subsection \<open>Sessions\<close>

definition db_upsertDeviceSession :: "'s dbmanServices \<Rightarrow> 's \<Rightarrow> json result \<Rightarrow> 's \<times> response" where
  "db_upsertDeviceSession sv s body = withJSON body unmarshalSession s (\<lambda>req. answer 500 200 sessionJson (store_upsert (dm_session sv) s req))"

definition db_validateSession :: "'s dbmanServices \<Rightarrow> 's \<Rightarrow> json result \<Rightarrow> 's \<times> response" where
  "db_validateSession sv s body = withJSON body (bind4 ''tenant_id'' ''user_id'' ''session_id'' ''session_token'') s (\<lambda>(t, u, sid, token).
     answer 500 200 (\<lambda>valid. JObj [(''valid'', JBool valid)]) (store_validate (dm_session sv) s t u sid token))"

definition db_updateSessionUserStatus :: "'s dbmanServices \<Rightarrow> 's \<Rightarrow> json result \<Rightarrow> 's \<times> response" where
  "db_updateSessionUserStatus sv s body = withJSON body unmarshalStatus s (\<lambda>req. answer 500 200 (\<lambda>_. NewOKResponse) (store_status (dm_session sv) s req))"

definition db_createSessionNote :: "'s dbmanServices \<Rightarrow> 's \<Rightarrow> json result \<Rightarrow> 's \<times> response" where
  "db_createSessionNote sv s body = withJSON body unmarshalNote s (\<lambda>req. answer 500 201 noteJson (store_note (dm_session sv) s req))"

definition bindInbox :: "json \<Rightarrow> (string \<times> string \<times> int) result" where
  "bindInbox j = bindR (structFields j) (\<lambda>fs. bindR (fStr fs ''tenant_id'') (\<lambda>t. bindR (fStr fs ''user_id'') (\<lambda>u. bindR (fInt fs ''limit'') (\<lambda>n.
     required [(''tenant_id'', t), (''user_id'', u)] (t, u, n)))))"

definition db_listSessionInbox :: "'s dbmanServices \<Rightarrow> 's \<Rightarrow> json result \<Rightarrow> 's \<times> response" where
  "db_listSessionInbox sv s body = withJSON body bindInbox s (\<lambda>(t, u, n).
     answer 500 200 (jitems inboxJson) (store_inbox (dm_session sv) s t u (clampLimit 200 50 n)))"

definition db_markSessionNoteRead :: "'s dbmanServices \<Rightarrow> 's \<Rightarrow> json result \<Rightarrow> 's \<times> response" where
  "db_markSessionNoteRead sv s body = withJSON body (bind3 ''tenant_id'' ''user_id'' ''note_id'') s (\<lambda>(t, u, i).
     answer 500 200 (\<lambda>_. NewOKResponse) (store_read (dm_session sv) s t u i))"

text \<open>A field that is a struct: absent, its fields are the zero values; given more than once, the values are decoded one over the other.\<close>

definition fStruct :: "(json \<Rightarrow> 'a result) \<Rightarrow> (string \<times> json) list \<Rightarrow> string \<Rightarrow> 'a result" where
  "fStruct dec fs k = bindR (mapR structFields (fieldValues k fs)) (\<lambda>objs. dec (JObj (concat objs)))"

definition bindNotify :: "json \<Rightarrow> (string \<times> string \<times> ChatNotifyInput) result" where
  "bindNotify j = bindR (structFields j) (\<lambda>fs. bindR (fStr fs ''tenant_id'') (\<lambda>t. bindR (fStr fs ''sender_user_id'') (\<lambda>u.
     bindR (fStruct unmarshalNotify fs ''input'') (\<lambda>inp. required [(''tenant_id'', t), (''sender_user_id'', u)] (t, u, inp)))))"

definition db_saveSessionChatNotifications :: "'s dbmanServices \<Rightarrow> 's \<Rightarrow> json result \<Rightarrow> 's \<times> response" where
  "db_saveSessionChatNotifications sv s body = withJSON body bindNotify s (\<lambda>(t, u, inp).
     answer 500 200 (\<lambda>_. NewOKResponse) (store_notifications (dm_session sv) s t u inp))"

subsection \<open>Users\<close>

definition bindOrgUnit :: "json \<Rightarrow> (string \<times> string option \<times> string) result" where
  "bindOrgUnit j = bindR (structFields j) (\<lambda>fs. bindR (fStr fs ''tenant_id'') (\<lambda>t. bindR (fStrPtr fs ''parent_id'') (\<lambda>p. bindR (fStr fs ''name'') (\<lambda>n.
     required [(''tenant_id'', t), (''name'', n)] (t, p, n)))))"

definition db_createOrgUnit :: "'s dbmanServices \<Rightarrow> 's \<Rightarrow> json result \<Rightarrow> 's \<times> response" where
  "db_createOrgUnit sv s body = withJSON body bindOrgUnit s (\<lambda>(t, p, n). answer 500 201 NewIDResponse (os_createOrg (dm_user sv) s t p n))"

definition db_listOrgUnits :: "'s dbmanServices \<Rightarrow> 's \<Rightarrow> json result \<Rightarrow> 's \<times> response" where
  "db_listOrgUnits sv s body = withJSON body (bind1 ''tenant_id'') s (\<lambda>t. answer 500 200 (jitems orgJson) (os_listOrgs (dm_user sv) s t))"

definition bindUser :: "json \<Rightarrow> (string \<times> User) result" where
  "bindUser j = bindR (structFields j) (\<lambda>fs. bindR (fStr fs ''tenant_id'') (\<lambda>t. bindR (fStruct unmarshalUser fs ''user'') (\<lambda>u.
     required [(''tenant_id'', t)] (t, u))))"

definition db_createUser :: "'s dbmanServices \<Rightarrow> 's \<Rightarrow> json result \<Rightarrow> 's \<times> response" where
  "db_createUser sv s body = withJSON body bindUser s (\<lambda>(t, u). answer 500 201 NewIDResponse (os_createUser (dm_user sv) s t u))"

definition bindUserStatus :: "json \<Rightarrow> (string \<times> string \<times> string \<times> string) result" where
  "bindUserStatus j = bindR (structFields j) (\<lambda>fs. bindR (fStr fs ''tenant_id'') (\<lambda>t. bindR (fStr fs ''user_id'') (\<lambda>u. bindR (fStr fs ''status'') (\<lambda>st.
     bindR (fStr fs ''note'') (\<lambda>nt. required [(''tenant_id'', t), (''user_id'', u), (''status'', st)] (t, u, st, nt))))))"

definition db_updateUserStatus :: "'s dbmanServices \<Rightarrow> 's \<Rightarrow> json result \<Rightarrow> 's \<times> response" where
  "db_updateUserStatus sv s body = withJSON body bindUserStatus s (\<lambda>(t, u, st, nt).
     answer 500 200 (\<lambda>_. NewOKResponse) (os_status (dm_user sv) s t u st nt))"

definition bindSearchUsers :: "json \<Rightarrow> (string \<times> string \<times> int) result" where
  "bindSearchUsers j = bindR (structFields j) (\<lambda>fs. bindR (fStr fs ''tenant_id'') (\<lambda>t. bindR (fStr fs ''q'') (\<lambda>q. bindR (fInt fs ''limit'') (\<lambda>n.
     required [(''tenant_id'', t), (''q'', q)] (t, q, n)))))"

definition db_searchUsers :: "'s dbmanServices \<Rightarrow> 's \<Rightarrow> json result \<Rightarrow> 's \<times> response" where
  "db_searchUsers sv s body = withJSON body bindSearchUsers s (\<lambda>(t, q, n).
     answer 500 200 (jitems userJson) (os_search (dm_user sv) s t q (clampLimit 100 20 n)))"

definition db_authenticateUser :: "'s dbmanServices \<Rightarrow> 's \<Rightarrow> json result \<Rightarrow> 's \<times> response" where
  "db_authenticateUser sv s body = withJSON body (bind3 ''tenant_id'' ''email'' ''password'') s (\<lambda>(t, em, pw).
     case os_auth (dm_user sv) s t em pw of
       (s', Inl _) \<Rightarrow> (s', (401, NewErrorResponse ''invalid credentials''))
     | (s', Inr user) \<Rightarrow> (s', (200, userJson user)))"

definition db_listAliases :: "'s dbmanServices \<Rightarrow> 's \<Rightarrow> json result \<Rightarrow> 's \<times> response" where
  "db_listAliases sv s body = withJSON body (bind2 ''tenant_id'' ''user_id'') s (\<lambda>(t, u). answer 500 200 jstrs (os_aliases (dm_user sv) s t u))"

definition bindAlias :: "json \<Rightarrow> (string \<times> string \<times> string \<times> string \<times> string) result" where
  "bindAlias j = bindR (structFields j) (\<lambda>fs. bindR (fStr fs ''tenant_id'') (\<lambda>t. bindR (fStr fs ''user_id'') (\<lambda>u. bindR (fStr fs ''alias'') (\<lambda>a.
     bindR (fStr fs ''ip'') (\<lambda>ip. bindR (fStr fs ''user_agent'') (\<lambda>ua.
       required [(''tenant_id'', t), (''user_id'', u), (''alias'', a)] (t, u, a, ip, ua)))))))"

definition db_addAlias :: "'s dbmanServices \<Rightarrow> 's \<Rightarrow> json result \<Rightarrow> 's \<times> response" where
  "db_addAlias sv s body = withJSON body bindAlias s (\<lambda>(t, u, a, ip, ua).
     answer 500 200 (\<lambda>_. NewOKResponse) (os_addAlias (dm_user sv) s t u a ip ua))"

definition db_deleteAlias :: "'s dbmanServices \<Rightarrow> 's \<Rightarrow> json result \<Rightarrow> 's \<times> response" where
  "db_deleteAlias sv s body = withJSON body bindAlias s (\<lambda>(t, u, a, ip, ua).
     answer 500 200 (\<lambda>_. NewOKResponse) (os_deleteAlias (dm_user sv) s t u a ip ua))"

definition bindAudit :: "json \<Rightarrow> (string \<times> string \<times> int \<times> auditFilter \<times> time option \<times> string option) result" where
  "bindAudit j = bindR (structFields j) (\<lambda>fs. bindR (fStr fs ''tenant_id'') (\<lambda>t. bindR (fStr fs ''user_id'') (\<lambda>u. bindR (fInt fs ''limit'') (\<lambda>n.
     bindR (fTimePtr fs ''from'') (\<lambda>fr. bindR (fTimePtr fs ''to'') (\<lambda>to'. bindR (fStr fs ''action'') (\<lambda>ac.
     bindR (fTimePtr fs ''cursor_created_at'') (\<lambda>cAt. bindR (fStrPtr fs ''cursor_id'') (\<lambda>cID.
       required [(''tenant_id'', t), (''user_id'', u)] (t, u, n, \<lparr>af_from = fr, af_to = to', af_action = ac\<rparr>, cAt, cID))))))))))"

definition db_listAliasAudit :: "'s dbmanServices \<Rightarrow> 's \<Rightarrow> json result \<Rightarrow> 's \<times> response" where
  "db_listAliasAudit sv s body = withJSON body bindAudit s (\<lambda>(t, u, n, f, cAt, cID).
     answer 500 200 (jitems auditJson) (os_audit (dm_user sv) s t u (clampLimit 200 50 n) f cAt cID))"

subsection \<open>Tenants\<close>

definition db_listTenants :: "'s dbmanServices \<Rightarrow> 's \<Rightarrow> json result \<Rightarrow> 's \<times> response" where
  "db_listTenants sv s body = answer 500 200 (jitems tenantJson) (ts_list (dm_tenant sv) s)"

definition db_getTenant :: "'s dbmanServices \<Rightarrow> 's \<Rightarrow> json result \<Rightarrow> 's \<times> response" where
  "db_getTenant sv s body = withJSON body (bind1 ''tenant_id'') s (\<lambda>t. answer 500 200 tenantJson (dm_getTenant sv s t))"

definition db_createTenant :: "'s dbmanServices \<Rightarrow> 's \<Rightarrow> json result \<Rightarrow> 's \<times> response" where
  "db_createTenant sv s body = withJSON body unmarshalTenant s (\<lambda>item. answer 500 201 tenantJson (ts_create (dm_tenant sv) s item))"

definition db_updateTenant :: "'s dbmanServices \<Rightarrow> 's \<Rightarrow> json result \<Rightarrow> 's \<times> response" where
  "db_updateTenant sv s body = withJSON body unmarshalTenant s (\<lambda>item. answer 500 200 tenantJson (ts_update (dm_tenant sv) s item))"

subsection \<open>Files\<close>

definition db_createFile :: "'s dbmanServices \<Rightarrow> 's \<Rightarrow> json result \<Rightarrow> 's \<times> response" where
  "db_createFile sv s body = withJSON body unmarshalFile s (\<lambda>item.
     if fo_TenantID item = '''' \<or> fo_RoomID item = '''' \<or> fo_UploaderID item = '''' \<or> fo_ObjectKey item = '''' \<or> fo_ContentType item = ''''
        \<or> fo_OriginalName item = ''''
     then (s, (400, NewErrorResponse ''tenant_id, room_id, uploader_id, object_key, content_type, original_name are required''))
     else answer 500 201 fileJson (dm_createFile sv s item))"

text \<open>\<open>query\<close> gives the value of a query parameter, if present.\<close>

definition db_searchFilesByRoom :: "'s dbmanServices \<Rightarrow> 's \<Rightarrow> (string \<Rightarrow> string option) \<Rightarrow> 's \<times> response" where
  "db_searchFilesByRoom sv s query =
     (let t = (case query ''tenant_id'' of None \<Rightarrow> '''' | Some v \<Rightarrow> v); r = (case query ''room_id'' of None \<Rightarrow> '''' | Some v \<Rightarrow> v) in
      if t = '''' \<or> r = '''' then (s, (400, NewErrorResponse ''tenant_id and room_id are required''))
      else answer 500 200 (jitems fileJson) (dm_searchFiles sv s t r (clampLimit 200 50 (queryInt ''50'' (query ''limit'')))))"

subsection \<open>Rooms and messages\<close>

definition bindSearch :: "json \<Rightarrow> (string \<times> string \<times> string option \<times> int \<times> string option) result" where
  "bindSearch j = bindR (structFields j) (\<lambda>fs. bindR (fStr fs ''tenant_id'') (\<lambda>t. bindR (fStr fs ''q'') (\<lambda>q. bindR (fStrPtr fs ''room_id'') (\<lambda>r.
     bindR (fInt fs ''limit'') (\<lambda>n. bindR (fStrPtr fs ''cursor_id'') (\<lambda>c. required [(''tenant_id'', t), (''q'', q)] (t, q, r, n, c)))))))"

definition db_searchMessages :: "'s dbmanServices \<Rightarrow> 's \<Rightarrow> json result \<Rightarrow> 's \<times> response" where
  "db_searchMessages sv s body = withJSON body bindSearch s (\<lambda>(t, q, r, n, c).
     answer 500 200 (jitems messageJson) (cs_searchMessages (dm_chat sv) s t q r (clampLimit 200 30 n) c))"

definition bindRoom :: "json \<Rightarrow> (string \<times> ChatRoom \<times> string list) result" where
  "bindRoom j = bindR (structFields j) (\<lambda>fs. bindR (fStr fs ''tenant_id'') (\<lambda>t. bindR (fStruct unmarshalRoom fs ''room'') (\<lambda>room.
     bindR (fStrs fs ''member_ids'') (\<lambda>ms. required [(''tenant_id'', t)] (t, room, ms)))))"

definition db_createRoom :: "'s dbmanServices \<Rightarrow> 's \<Rightarrow> json result \<Rightarrow> 's \<times> response" where
  "db_createRoom sv s body = withJSON body bindRoom s (\<lambda>(t, room, ms).
     if cr_Name room = '''' \<or> cr_RoomType room = '''' \<or> cr_CreatedBy room = ''''
     then (s, (400, NewErrorResponse ''room.name, room.room_type, room.created_by are required''))
     else answer 500 201 (\<lambda>i. JObj [(''room_id'', JStr i)]) (cs_createRoom (dm_chat sv) s t room ms))"

definition db_addMember :: "'s dbmanServices \<Rightarrow> 's \<Rightarrow> json result \<Rightarrow> 's \<times> response" where
  "db_addMember sv s body = withJSON body (bind3 ''tenant_id'' ''room_id'' ''user_id'') s (\<lambda>(t, r, u).
     answer 500 200 (\<lambda>_. NewOKResponse) (cs_addMember (dm_chat sv) s t r u))"

definition db_checkRoomMember :: "'s dbmanServices \<Rightarrow> 's \<Rightarrow> json result \<Rightarrow> 's \<times> response" where
  "db_checkRoomMember sv s body = withJSON body (bind3 ''tenant_id'' ''room_id'' ''user_id'') s (\<lambda>(t, r, u).
     answer 500 200 (\<lambda>ok. JObj [(''ok'', JBool ok)]) (cs_isMember (dm_chat sv) s t r u))"

definition db_createMessage :: "'s dbmanServices \<Rightarrow> 's \<Rightarrow> json result \<Rightarrow> 's \<times> response" where
  "db_createMessage sv s body = withJSON body unmarshalMessage s (\<lambda>req.
     if ms_TenantID req = '''' \<or> ms_RoomID req = '''' \<or> ms_SenderID req = ''''
     then (s, (400, NewErrorResponse ''tenant_id, room_id, sender_id are required''))
     else answer 500 201 messageJson (cs_createMessage (dm_chat sv) s req))"

definition db_markReadUpTo :: "'s dbmanServices \<Rightarrow> 's \<Rightarrow> json result \<Rightarrow> 's \<times> response" where
  "db_markReadUpTo sv s body = withJSON body (bind4 ''tenant_id'' ''room_id'' ''user_id'' ''message_id'') s (\<lambda>(t, r, u, i).
     answer 500 200 (\<lambda>_. NewOKResponse) (cs_markRead (dm_chat sv) s t r u i))"

definition bindList :: "json \<Rightarrow> (string \<times> string \<times> int \<times> string option) result" where
  "bindList j = bindR (structFields j) (\<lambda>fs. bindR (fStr fs ''tenant_id'') (\<lambda>t. bindR (fStr fs ''room_id'') (\<lambda>r. bindR (fInt fs ''limit'') (\<lambda>n.
     bindR (fStrPtr fs ''cursor_id'') (\<lambda>c. required [(''tenant_id'', t), (''room_id'', r)] (t, r, n, c))))))"

definition db_listMessages :: "'s dbmanServices \<Rightarrow> 's \<Rightarrow> json result \<Rightarrow> 's \<times> response" where
  "db_listMessages sv s body = withJSON body bindList s (\<lambda>(t, r, n, c).
     answer 500 200 (jitems messageJson) (cs_listMessages (dm_chat sv) s t r (clampLimit 200 50 n) c))"

definition db_messageReaders :: "'s dbmanServices \<Rightarrow> 's \<Rightarrow> json result \<Rightarrow> 's \<times> response" where
  "db_messageReaders sv s body = withJSON body (bind3 ''tenant_id'' ''room_id'' ''message_id'') s (\<lambda>(t, r, i).
     answer 500 200 (jitems readerJson) (cs_readers (dm_chat sv) s t r i))"

definition db_lastReadMessage :: "'s dbmanServices \<Rightarrow> 's \<Rightarrow> json result \<Rightarrow> 's \<times> response" where
  "db_lastReadMessage sv s body = withJSON body (bind3 ''tenant_id'' ''room_id'' ''user_id'') s (\<lambda>(t, r, u).
     answer 500 200 (\<lambda>i. JObj [(''message_id'', JStr i)]) (cs_lastRead (dm_chat sv) s t r u))"

definition db_unreadCount :: "'s dbmanServices \<Rightarrow> 's \<Rightarrow> json result \<Rightarrow> 's \<times> response" where
  "db_unreadCount sv s body = withJSON body (bind3 ''tenant_id'' ''room_id'' ''user_id'') s (\<lambda>(t, r, u).
     answer 500 200 (\<lambda>n. JObj [(''count'', JNum (int n))]) (cs_unread (dm_chat sv) s t r u))"

definition db_unreadCounts :: "'s dbmanServices \<Rightarrow> 's \<Rightarrow> json result \<Rightarrow> 's \<times> response" where
  "db_unreadCounts sv s body = withJSON body (bind2 ''tenant_id'' ''user_id'') s (\<lambda>(t, u).
     answer 500 200 (jitems unreadJson) (cs_unreads (dm_chat sv) s t u))"

definition bindMyRooms :: "json \<Rightarrow> (string \<times> string \<times> int \<times> time option \<times> string option) result" where
  "bindMyRooms j = bindR (structFields j) (\<lambda>fs. bindR (fStr fs ''tenant_id'') (\<lambda>t. bindR (fStr fs ''user_id'') (\<lambda>u. bindR (fInt fs ''limit'') (\<lambda>n.
     bindR (fTimePtr fs ''cursor_created_at'') (\<lambda>cAt. bindR (fStrPtr fs ''cursor_room_id'') (\<lambda>cR.
       required [(''tenant_id'', t), (''user_id'', u)] (t, u, n, cAt, cR)))))))"

definition db_listMyRooms :: "'s dbmanServices \<Rightarrow> 's \<Rightarrow> json result \<Rightarrow> 's \<times> response" where
  "db_listMyRooms sv s body = withJSON body bindMyRooms s (\<lambda>(t, u, n, cAt, cR).
     answer 500 200 (jitems summaryJson) (cs_listRooms (dm_chat sv) s t u (clampLimit 200 50 n) cAt cR))"

section \<open>Routes\<close>

type_synonym 's handler = "'s dbmanServices \<Rightarrow> 's \<Rightarrow> json result \<Rightarrow> 's \<times> response"

definition postRoutes :: "(string \<times> 's handler) list" where
  "postRoutes =
     [(''/org-units/create'', db_createOrgUnit), (''/org-units/list'', db_listOrgUnits), (''/users/create'', db_createUser),
      (''/users/status'', db_updateUserStatus), (''/users/search'', db_searchUsers), (''/users/authenticate'', db_authenticateUser),
      (''/users/aliases/list'', db_listAliases), (''/users/aliases/add'', db_addAlias), (''/users/aliases/delete'', db_deleteAlias),
      (''/users/aliases/audit'', db_listAliasAudit), (''/tenants/list'', db_listTenants), (''/tenants/get'', db_getTenant),
      (''/tenants/create'', db_createTenant), (''/tenants/update'', db_updateTenant), (''/files'', db_createFile),
      (''/rooms'', db_createRoom), (''/rooms/members'', db_addMember), (''/rooms/members/check'', db_checkRoomMember),
      (''/messages'', db_createMessage), (''/messages/read'', db_markReadUpTo), (''/messages/list'', db_listMessages),
      (''/messages/search'', db_searchMessages), (''/messages/readers'', db_messageReaders), (''/messages/last-read'', db_lastReadMessage),
      (''/messages/unread-count'', db_unreadCount), (''/messages/unread-counts'', db_unreadCounts), (''/rooms/list'', db_listMyRooms),
      (''/session/device/login'', db_upsertDeviceSession), (''/session/device/validate'', db_validateSession),
      (''/session/status/update'', db_updateSessionUserStatus), (''/session/notes/create'', db_createSessionNote),
      (''/session/notes/inbox'', db_listSessionInbox), (''/session/notes/read'', db_markSessionNoteRead),
      (''/session/chat/notify'', db_saveSessionChatNotifications)]"

definition notFound :: response where
  "notFound = (404, JStr ''404 page not found'')"

definition groupPath :: "string \<Rightarrow> string option" where
  "groupPath path =
     (if HasPrefix path ''/api/internal/v1/db'' then Some (TrimPrefix path ''/api/internal/v1/db'')
      else if HasPrefix path ''/api/v1/db'' then Some (TrimPrefix path ''/api/v1/db'') else None)"

definition dbman_post :: "'s dbmanServices \<Rightarrow> 's \<Rightarrow> string \<Rightarrow> json result \<Rightarrow> 's \<times> response" where
  "dbman_post sv s path body =
     (case groupPath path of
        None \<Rightarrow> (s, notFound)
      | Some sub \<Rightarrow> (case map_of postRoutes sub of None \<Rightarrow> (s, notFound) | Some h \<Rightarrow> h sv s body))"

definition db_health :: "string \<Rightarrow> unit result \<Rightarrow> response" where
  "db_health okay ready =
     (case ready of
        Inl e \<Rightarrow> (503, JObj [(''status'', JStr ''not_ready''), (''error'', JStr e)])
      | Inr _ \<Rightarrow> (200, NewHealthResponse okay))"

definition dbman_get :: "'s dbmanServices \<Rightarrow> 's \<Rightarrow> string \<Rightarrow> (string \<Rightarrow> string option) \<Rightarrow> 's \<times> response" where
  "dbman_get sv s path query =
     (if path = ''/health'' then (s, db_health ''ok'' (dm_ready sv s))
      else if path = ''/health/live'' then (s, db_health ''ok'' (Inr ()))
      else if path = ''/health/ready'' then (s, db_health ''ready'' (dm_ready sv s))
      else if groupPath path = Some ''/files/search'' then db_searchFilesByRoom sv s query
      else (s, notFound))"

end
