(* ===== verification/Embed.thy ===== *)
theory Embed
  imports Prelude "HOL-Library.Word"
begin

text \<open>
  The embedding of a text as a vector (\<open>server/vectorman/service/embed.go\<close>): SHA-256 on 32-bit words, as \<open>crypto/sha256\<close> computes it, and the coordinates taken
  from its digest. A coordinate \<open>float32(chunk%1000) / 1000.0\<close> is represented by its numerator.
\<close>

unbundle bit_operations_syntax

section \<open>SHA-256\<close>

type_synonym w32 = "32 word"

definition rotr :: "nat \<Rightarrow> w32 \<Rightarrow> w32" where
  "rotr n x = (drop_bit n x) OR (push_bit (32 - n) x)"

definition sha_H0 :: "w32 list" where
  "sha_H0 = [0x6a09e667, 0xbb67ae85, 0x3c6ef372, 0xa54ff53a, 0x510e527f, 0x9b05688c, 0x1f83d9ab, 0x5be0cd19]"

text \<open>The round constants: the first 32 bits behind the point of the cube roots of the first 64 primes, in decimal.\<close>

definition sha_K :: "w32 list" where
  "sha_K =
    [1116352408, 1899447441, 3049323471, 3921009573, 961987163, 1508970993, 2453635748, 2870763221, 3624381080,
     310598401, 607225278, 1426881987, 1925078388, 2162078206, 2614888103, 3248222580, 3835390401, 4022224774,
     264347078, 604807628, 770255983, 1249150122, 1555081692, 1996064986, 2554220882, 2821834349, 2952996808,
     3210313671, 3336571891, 3584528711, 113926993, 338241895, 666307205, 773529912, 1294757372, 1396182291,
     1695183700, 1986661051, 2177026350, 2456956037, 2730485921, 2820302411, 3259730800, 3345764771, 3516065817,
     3600352804, 4094571909, 275423344, 430227734, 506948616, 659060556, 883997877, 958139571, 1322822218,
     1537002063, 1747873779, 1955562222, 2024104815, 2227730452, 2361852424, 2428436474, 2756734187, 3204031479,
     3329325298]"

text \<open>The padded message as bytes: a bit 1, zeros, and the length in bits as 64 bits, to a multiple of 64 bytes.\<close>

definition be_bytes :: "nat \<Rightarrow> 'a::len word \<Rightarrow> nat list" where
  "be_bytes k w = map (\<lambda>i. unat (take_bit 8 (drop_bit (8 * (k - 1 - i)) w))) [0..<k]"

definition sha_pad :: "string \<Rightarrow> nat list" where
  "sha_pad s = map of_char s @ [128] @ replicate ((119 - length s mod 64) mod 64) 0 @ be_bytes 8 (8 * word_of_nat (length s) :: 64 word)"

fun be_words :: "nat list \<Rightarrow> w32 list" where
  "be_words (a # b # c # d # rest) =
     (((word_of_nat a * 256 + word_of_nat b) * 256 + word_of_nat c) * 256 + word_of_nat d) # be_words rest"
| "be_words _ = []"

text \<open>The message schedule, the last word first.\<close>

fun sha_extend :: "nat \<Rightarrow> w32 list \<Rightarrow> w32 list" where
  "sha_extend 0 ws = ws"
| "sha_extend (Suc k) ws =
     (let v1 = ws ! 1; v2 = ws ! 14;
          t1 = (rotr 17 v1) XOR (rotr 19 v1) XOR (drop_bit 10 v1);
          t2 = (rotr 7 v2) XOR (rotr 18 v2) XOR (drop_bit 3 v2) in
      sha_extend k ((t1 + ws ! 6 + t2 + ws ! 15) # ws))"

fun sha_round :: "w32 list \<Rightarrow> w32 \<times> w32 \<Rightarrow> w32 list" where
  "sha_round [a, b, c, d, e, f, g, h] (k, w) =
     (let t1 = h + ((rotr 6 e) XOR (rotr 11 e) XOR (rotr 25 e)) + ((e AND f) XOR (NOT e AND g)) + k + w;
          t2 = ((rotr 2 a) XOR (rotr 13 a) XOR (rotr 22 a)) + ((a AND b) XOR (a AND c) XOR (b AND c)) in
      [t1 + t2, a, b, c, d + t1, e, f, g])"
| "sha_round st _ = st"

definition sha_block :: "w32 list \<Rightarrow> w32 list \<Rightarrow> w32 list" where
  "sha_block H ws = map2 (+) H (foldl sha_round H (zip sha_K (rev (sha_extend 48 (rev ws)))))"

fun sha_blocks :: "nat \<Rightarrow> w32 list \<Rightarrow> w32 list \<Rightarrow> w32 list" where
  "sha_blocks 0 H ws = H"
| "sha_blocks (Suc n) H ws = sha_blocks n (sha_block H (take 16 ws)) (drop 16 ws)"

definition Sum256 :: "string \<Rightarrow> nat list" where
  "Sum256 s = (let ws = be_words (sha_pad s) in concat (map (be_bytes 4) (sha_blocks (length ws div 16) sha_H0 ws)))"

section \<open>The embedding\<close>

definition Uint32 :: "nat list \<Rightarrow> w32" where
  "Uint32 b = push_bit 24 (word_of_nat (b ! 0)) OR push_bit 16 (word_of_nat (b ! 1)) OR push_bit 8 (word_of_nat (b ! 2)) OR word_of_nat (b ! 3)"

text \<open>\<open>None\<close> is the panic of a slice out of range.\<close>

definition sliceOf :: "'a list \<Rightarrow> nat \<Rightarrow> nat \<Rightarrow> 'a list option" where
  "sliceOf xs lo hi = (if lo \<le> hi \<and> hi \<le> length xs then Some (take (hi - lo) (drop lo xs)) else None)"

fun embed_loop :: "nat list \<Rightarrow> nat \<Rightarrow> nat \<Rightarrow> nat list option" where
  "embed_loop hash i 0 = Some []"
| "embed_loop hash i (Suc n) =
     (let offset = i * 4 mod length hash in
      case sliceOf hash offset (offset + 4) of
        None \<Rightarrow> None
      | Some chunk \<Rightarrow> map_option ((#) (unat (Uint32 chunk mod 1000))) (embed_loop hash (Suc i) n))"

definition embed :: "string \<Rightarrow> nat \<Rightarrow> nat list option" where
  "embed s dim = embed_loop (Sum256 s) 0 dim"

section \<open>Properties\<close>

lemma be_bytes_length [simp]: "length (be_bytes k n) = k"
  by (simp add: be_bytes_def)

lemma coordinate_bound: "unat (w mod 1000 :: w32) < 1000"
  by (simp add: unat_mod)

lemma sha_round_length: "length H = 8 \<Longrightarrow> length (sha_round H kw) = 8"
  by (cases "(H, kw)" rule: sha_round.cases) (auto simp: Let_def)

lemma sha_rounds_length: "length H = 8 \<Longrightarrow> length (foldl sha_round H kws) = 8"
  by (induction kws arbitrary: H) (simp_all add: sha_round_length)

lemma sha_blocks_length: "length H = 8 \<Longrightarrow> length (sha_blocks n H ws) = 8"
  by (induction n H ws rule: sha_blocks.induct) (simp_all add: sha_block_def sha_rounds_length)

lemma be_words_length: "length (be_words bs) = length bs div 4"
  by (induction bs rule: be_words.induct) simp_all

lemma sha_pad_length: "length (sha_pad s) mod 64 = 0"
proof -
  define q r where "q = length s div 64" and "r = length s mod 64"
  have len: "length s = q * 64 + r" and r: "r < 64" by (simp_all add: q_def r_def)
  have "length (sha_pad s) = q * 64 + (r + (119 - r) mod 64 + 9)" unfolding sha_pad_def r_def[symmetric] by (simp add: len)
  moreover have "\<exists>k. r + (119 - r) mod 64 + 9 = k * 64"
  proof (cases "r \<le> 55")
    case True
    then have "119 - r = (55 - r) + 1 * 64" by simp
    then have "(119 - r) mod 64 = 55 - r" using True by (simp only: mod_mult_self1) simp
    then show ?thesis using True by (intro exI[of _ 1]) simp
  next
    case False
    then show ?thesis using r by (intro exI[of _ 2]) simp
  qed
  ultimately obtain k where "length (sha_pad s) = (q + k) * 64" by (metis add_mult_distrib)
  then show ?thesis by simp
qed

text \<open>The padding leaves whole blocks, so that no word of the message is dropped.\<close>

lemma sha_blocks_whole: "length (be_words (sha_pad s)) mod 16 = 0"
proof -
  obtain k where "length (sha_pad s) = 64 * k" using sha_pad_length[of s] by (metis mod_0_imp_dvd dvd_def)
  then show ?thesis by (simp add: be_words_length)
qed

lemma Sum256_length: "length (Sum256 s) = 32"
  using sha_blocks_length[of sha_H0] by (simp add: Sum256_def Let_def length_concat comp_def sum_list_triv sha_H0_def)

lemma embed_loop_spec:
  assumes "length hash = 32"
  shows "\<exists>vec. embed_loop hash i n = Some vec \<and> length vec = n \<and>
           (\<forall>k < n. vec ! k = unat (Uint32 (take 4 (drop ((i + k) mod 8 * 4) hash)) mod 1000))"
proof (induction n arbitrary: i)
  case (Suc n)
  have off: "i * 4 mod 32 = i mod 8 * 4" using mult_mod_right[of 4 i 8] by (simp add: mult.commute)
  have "i mod 8 \<le> 7" using mod_less_divisor[of 8 i] by linarith
  then have "i mod 8 * 4 + 4 \<le> 32" by linarith
  then have slice: "sliceOf hash (i mod 8 * 4) (i mod 8 * 4 + 4) = Some (take 4 (drop (i mod 8 * 4) hash))" using assms by (simp add: sliceOf_def)
  obtain vec where vec: "embed_loop hash (Suc i) n = Some vec" "length vec = n"
    "\<forall>k < n. vec ! k = unat (Uint32 (take 4 (drop ((Suc i + k) mod 8 * 4) hash)) mod 1000)"
    using Suc.IH[of "Suc i"] by blast
  show ?case
    using vec by (auto simp: Let_def assms off slice nth_Cons split: nat.split)
qed simp

text \<open>
  C31: The embedding of a text is total and bounded. The loop never leaves the digest, so that it never panics; the vector has the wanted dimension, every coordinate
  is a number of thousandths below one, and as the digest has 32 bytes the coordinates repeat with period eight.
\<close>

theorem embed_bounds:
  "\<exists>vec. embed s dim = Some vec \<and> length vec = dim \<and> list_all (\<lambda>x. x < 1000) vec \<and>
     vec = map (\<lambda>i. vec ! (i mod 8)) [0..<dim]"
proof -
  obtain vec where vec: "embed s dim = Some vec" "length vec = dim"
    "\<forall>k < dim. vec ! k = unat (Uint32 (take 4 (drop (k mod 8 * 4) (Sum256 s))) mod 1000)"
    using embed_loop_spec[OF Sum256_length[of s], of 0 dim] by (auto simp: embed_def)
  then have "list_all (\<lambda>x. x < 1000) vec" by (auto simp: list_all_length coordinate_bound)
  moreover have "vec = map (\<lambda>i. vec ! (i mod 8)) [0..<dim]"
  proof (rule nth_equalityI)
    fix i assume "i < length vec"
    moreover from this have "i mod 8 < dim" using vec(2) by (metis mod_less_eq_dividend order_le_less_trans)
    ultimately show "vec ! i = map (\<lambda>i. vec ! (i mod 8)) [0..<dim] ! i" using vec by simp
  qed (simp add: vec)
  ultimately show ?thesis using vec by blast
qed

end
