(* ===== verification/Vectorman.thy ===== *)
theory Vectorman
  imports DbmanApi Embed
begin

text \<open>
  The vector server (\<open>server/vectorman\<close>): the three implementations of the interface \<open>VectorService\<close> over the REST interfaces of Qdrant, Elasticsearch and Milvus,
  the HTTP handlers, and the choice of the implementation in \<open>app/server.go\<close>. The exchange of a request for a response is an argument that changes a state of the
  outside world, so that what a service sends, and in which order, is part of the model.
\<close>

section \<open>Requests\<close>

text \<open>What \<open>json.Marshal\<close> makes of a payload; \<open>PVec\<close> is a vector of coordinates in thousandths.\<close>

datatype payload = PJ json | PVec "nat list" | PArr "payload list" | PObj "(string \<times> payload) list"

text \<open>
  Method, URL and body of a request, and the outcome: an error (of \<open>NewRequest\<close>, of the transport or of reading the body), or the status and the body,
  \<open>None\<close> where the body is not JSON. Numbers in a body are integers in the range of \<open>float64\<close>.
\<close>

type_synonym 'w net = "'w \<Rightarrow> string \<Rightarrow> string \<Rightarrow> payload option \<Rightarrow> 'w \<times> (nat \<times> json option) result"

definition normalizedPath :: "string \<Rightarrow> string" where
  "normalizedPath path = (if \<not> HasPrefix path ''/'' then ''/'' @ path else path)"

definition defaultCollectionName :: string where "defaultCollectionName = ''messages''"

definition defaultVectorDim :: nat where "defaultVectorDim = 128"

text \<open>\<open>embed(text, defaultVectorDim)\<close>, which does not panic (\<open>vectorOf_embed\<close>).\<close>

definition vectorOf :: "string \<Rightarrow> payload" where
  "vectorOf s = (case embed s defaultVectorDim of Some v \<Rightarrow> PVec v | None \<Rightarrow> PVec [])"

lemma vectorOf_embed: "\<exists>v. embed s defaultVectorDim = Some v \<and> vectorOf s = PVec v"
  using embed_loop_spec[OF Sum256_length[of s], of 0 defaultVectorDim] by (auto simp: vectorOf_def embed_def)

section \<open>Responses\<close>

definition unmarshalBody :: "json option \<Rightarrow> json result" where
  "unmarshalBody b = (case b of None \<Rightarrow> Inl ''invalid character'' | Some j \<Rightarrow> Inr j)"

text \<open>A key of a \<open>map[string]any\<close>; of a key given twice, the last value counts.\<close>

definition mget :: "string \<Rightarrow> (string \<times> json) list \<Rightarrow> json option" where
  "mget k fs = map_of (rev fs) k"

definition decodeAnyMap :: "json \<Rightarrow> (string \<times> json) list \<Rightarrow> (string \<times> json) list result" where
  "decodeAnyMap j old = (case j of JNull \<Rightarrow> Inr [] | JObj fs \<Rightarrow> Inr (old @ fs) | _ \<Rightarrow> Inl ''cannot unmarshal into map'')"

text \<open>A number read as \<open>float64\<close>: rounded to 53 significant bits, ties to even.\<close>

fun bitLen :: "nat \<Rightarrow> nat" where
  "bitLen n = (if n = 0 then 0 else Suc (bitLen (n div 2)))"

declare bitLen.simps [simp del]

definition float64Int :: "int \<Rightarrow> int" where
  "float64Int n =
     (let a = nat \<bar>n\<bar>; unit = 2 ^ (bitLen a - 53); q = a div unit; r = a mod unit;
          q' = (if unit < 2 * r \<or> (2 * r = unit \<and> odd q) then q + 1 else q) in
      sgn n * int (q' * unit))"

section \<open>Qdrant\<close>

record QdrantService =
  qd_endpoint :: string
  qd_collection :: string
  qd_enabled :: bool

definition NewQdrantService :: "string \<Rightarrow> string \<Rightarrow> bool \<Rightarrow> QdrantService" where
  "NewQdrantService endpoint collection enabled =
     (let c = TrimSpace collection in
      \<lparr>qd_endpoint = trimRightSlash (TrimSpace endpoint), qd_collection = (if c = '''' then ''messages'' else c), qd_enabled = enabled\<rparr>)"

definition qd_requestBytes :: "QdrantService \<Rightarrow> 'w net \<Rightarrow> 'w \<Rightarrow> string \<Rightarrow> string \<Rightarrow> payload option \<Rightarrow> 'w \<times> (nat \<times> json option) result" where
  "qd_requestBytes q net w method path payload = net w method (qd_endpoint q @ normalizedPath path) payload"

definition qd_statusOnly :: "QdrantService \<Rightarrow> 'w net \<Rightarrow> 'w \<Rightarrow> string \<Rightarrow> string \<Rightarrow> 'w \<times> nat result" where
  "qd_statusOnly q net w method path =
     (case qd_requestBytes q net w method path None of (w', Inl e) \<Rightarrow> (w', Inl e) | (w', Inr (st, _)) \<Rightarrow> (w', Inr st))"

definition qd_requestNoDecode :: "QdrantService \<Rightarrow> 'w net \<Rightarrow> 'w \<Rightarrow> string \<Rightarrow> string \<Rightarrow> payload \<Rightarrow> 'w \<times> unit result" where
  "qd_requestNoDecode q net w method path payload =
     (case qd_requestBytes q net w method path (Some payload) of
        (w', Inl e) \<Rightarrow> (w', Inl e)
      | (w', Inr (st, _)) \<Rightarrow> (w', if 300 \<le> st then Inl (''qdrant status '' @ show_nat st) else Inr ()))"

definition qd_EnsureCollection :: "QdrantService \<Rightarrow> 'w net \<Rightarrow> 'w \<Rightarrow> 'w \<times> unit result" where
  "qd_EnsureCollection q net w =
     (if \<not> qd_enabled q then (w, Inr ())
      else case qd_statusOnly q net w ''GET'' (''/collections/'' @ qd_collection q) of
        (w1, Inl e) \<Rightarrow> (w1, Inl e)
      | (w1, Inr st) \<Rightarrow>
          if st = 200 then (w1, Inr ())
          else if st \<noteq> 404 then (w1, Inl (''qdrant unexpected status '' @ show_nat st @ '' while checking collection''))
          else (case qd_requestBytes q net w1 ''PUT'' (''/collections/'' @ qd_collection q)
                  (Some (PJ (JObj [(''vectors'', JObj [(''size'', JNum (int defaultVectorDim)), (''distance'', JStr ''Cosine'')])]))) of
             (w2, Inl e) \<Rightarrow> (w2, Inl e)
           | (w2, Inr (st2, _)) \<Rightarrow>
               (w2, if st2 \<noteq> 200 \<and> st2 \<noteq> 409 then Inl (''qdrant status '' @ show_nat st2 @ '' while creating collection'') else Inr ())))"

definition qd_IndexMessage :: "QdrantService \<Rightarrow> 'w net \<Rightarrow> 'w \<Rightarrow> string \<Rightarrow> string \<Rightarrow> string \<Rightarrow> 'w \<times> unit result" where
  "qd_IndexMessage q net w messageID roomID txt =
     (if \<not> qd_enabled q then (w, Inr ())
      else qd_requestNoDecode q net w ''PUT'' (''/collections/'' @ qd_collection q @ ''/points'')
        (PObj [(''points'', PArr [PObj [(''id'', PJ (JStr messageID)), (''vector'', vectorOf txt),
           (''payload'', PJ (JObj [(''id'', JStr messageID), (''room_id'', JStr roomID), (''text'', JStr txt)]))]])]))"

text \<open>The rows of a response: \<open>id\<close> and \<open>payload\<close>.\<close>

definition qdrantRow :: "json \<Rightarrow> (json \<times> (string \<times> json) list) result" where
  "qdrantRow j = bindR (structFields j) (\<lambda>fs. bindR (decodeField (\<lambda>v _. Inr v) JNull (fieldValues ''id'' fs)) (\<lambda>i.
     bindR (decodeField decodeAnyMap [] (fieldValues ''payload'' fs)) (\<lambda>p. Inr (i, p))))"

definition qdrantSearchResponse :: "json \<Rightarrow> (json \<times> (string \<times> json) list) list result" where
  "qdrantSearchResponse j = bindR (structFields j) (\<lambda>fs. fList qdrantRow fs ''result'')"

definition qd_postSearch :: "QdrantService \<Rightarrow> 'w net \<Rightarrow> 'w \<Rightarrow> string \<Rightarrow> payload \<Rightarrow> 'w \<times> (json \<times> (string \<times> json) list) list result" where
  "qd_postSearch q net w path payload =
     (case qd_requestBytes q net w ''POST'' path (Some payload) of
        (w', Inl e) \<Rightarrow> (w', Inl e)
      | (w', Inr (st, b)) \<Rightarrow> (w', if 300 \<le> st then Inl (''qdrant status '' @ show_nat st) else bindR (unmarshalBody b) qdrantSearchResponse))"

definition qdrantID :: "json \<times> (string \<times> json) list \<Rightarrow> string option" where
  "qdrantID row =
     (case row of (i, p) \<Rightarrow>
        (case (case mget ''id'' p of Some (JStr s) \<Rightarrow> if s \<noteq> '''' then Some s else None | _ \<Rightarrow> None) of
           Some s \<Rightarrow> Some s
         | None \<Rightarrow> (case i of JStr s \<Rightarrow> if s \<noteq> '''' then Some s else None | JNum n \<Rightarrow> Some (show_int (float64Int n)) | _ \<Rightarrow> None)))"

text \<open>\<open>None\<close> is the nil slice.\<close>

definition qd_SemanticSearch :: "QdrantService \<Rightarrow> 'w net \<Rightarrow> 'w \<Rightarrow> string \<Rightarrow> string option \<Rightarrow> int \<Rightarrow> 'w \<times> string list option result" where
  "qd_SemanticSearch q net w query roomID limit =
     (if \<not> qd_enabled q then (w, Inr None)
      else case qd_postSearch q net w (''/collections/'' @ qd_collection q @ ''/points/search'')
          (PObj ([(''vector'', vectorOf query), (''limit'', PJ (JNum limit)), (''with_payload'', PJ (JBool True))]
             @ (case roomID of None \<Rightarrow> []
                | Some r \<Rightarrow> [(''filter'', PJ (JObj [(''must'', JArr [JObj [(''key'', JStr ''room_id''), (''match'', JObj [(''value'', JStr r)])]])]))]))) of
        (w', Inl e) \<Rightarrow> (w', Inl e)
      | (w', Inr rows) \<Rightarrow> (w', Inr (Some (List.map_filter qdrantID rows))))"

section \<open>Elasticsearch\<close>

record ElasticsearchService =
  es_endpoint :: string
  es_index :: string
  es_enabled :: bool

definition NewElasticsearchService :: "string \<Rightarrow> string \<Rightarrow> bool \<Rightarrow> ElasticsearchService" where
  "NewElasticsearchService endpoint index enabled =
     (let i = TrimSpace index in
      \<lparr>es_endpoint = trimRightSlash (TrimSpace endpoint), es_index = (if i = '''' then defaultCollectionName else i), es_enabled = enabled\<rparr>)"

definition es_requestBytes :: "ElasticsearchService \<Rightarrow> 'w net \<Rightarrow> 'w \<Rightarrow> string \<Rightarrow> string \<Rightarrow> payload option \<Rightarrow> 'w \<times> (nat \<times> json option) result" where
  "es_requestBytes e net w method path payload = net w method (es_endpoint e @ normalizedPath path) payload"

definition es_mappings :: json where
  "es_mappings = JObj [(''mappings'', JObj [(''properties'', JObj
     [(''id'', JObj [(''type'', JStr ''keyword'')]), (''room_id'', JObj [(''type'', JStr ''keyword'')]), (''text'', JObj [(''type'', JStr ''text'')]),
      (''vector'', JObj [(''type'', JStr ''dense_vector''), (''dims'', JNum (int defaultVectorDim)), (''index'', JBool True), (''similarity'', JStr ''cosine'')])])])]"

definition es_EnsureCollection :: "ElasticsearchService \<Rightarrow> 'w net \<Rightarrow> 'w \<Rightarrow> 'w \<times> unit result" where
  "es_EnsureCollection e net w =
     (if \<not> es_enabled e then (w, Inr ())
      else case es_requestBytes e net w ''HEAD'' (''/'' @ es_index e) None of
        (w1, Inl err) \<Rightarrow> (w1, Inl err)
      | (w1, Inr (st, _)) \<Rightarrow>
          if st = 200 then (w1, Inr ())
          else if st \<noteq> 404 then (w1, Inl (''elasticsearch unexpected status '' @ show_nat st @ '' while checking index''))
          else (case es_requestBytes e net w1 ''PUT'' (''/'' @ es_index e) (Some (PJ es_mappings)) of
             (w2, Inl err) \<Rightarrow> (w2, Inl err)
           | (w2, Inr (st2, _)) \<Rightarrow>
               (w2, if st2 \<notin> {200, 201, 400} then Inl (''elasticsearch status '' @ show_nat st2 @ '' while creating index'') else Inr ())))"

definition es_IndexMessage :: "ElasticsearchService \<Rightarrow> 'w net \<Rightarrow> 'w \<Rightarrow> string \<Rightarrow> string \<Rightarrow> string \<Rightarrow> 'w \<times> unit result" where
  "es_IndexMessage e net w messageID roomID txt =
     (if \<not> es_enabled e then (w, Inr ())
      else case es_requestBytes e net w ''PUT'' (''/'' @ es_index e @ ''/_doc/'' @ messageID)
          (Some (PObj [(''id'', PJ (JStr messageID)), (''room_id'', PJ (JStr roomID)), (''text'', PJ (JStr txt)), (''vector'', vectorOf txt)])) of
        (w', Inl err) \<Rightarrow> (w', Inl err)
      | (w', Inr (st, _)) \<Rightarrow> (w', if 300 \<le> st then Inl (''elasticsearch status '' @ show_nat st) else Inr ()))"

text \<open>The hits of a response: \<open>_id\<close> and the \<open>id\<close> of \<open>_source\<close>.\<close>

definition elasticHit :: "json \<Rightarrow> (string \<times> string) result" where
  "elasticHit j = bindR (structFields j) (\<lambda>fs. bindR (fStr fs ''_id'') (\<lambda>i.
     bindR (fStruct (\<lambda>s. bindR (structFields s) (\<lambda>gs. fStr gs ''id'')) fs ''_source'') (\<lambda>sid. Inr (i, sid))))"

definition elasticSearchResponse :: "json \<Rightarrow> (string \<times> string) list result" where
  "elasticSearchResponse j = bindR (structFields j) (\<lambda>fs. fStruct (\<lambda>h. bindR (structFields h) (\<lambda>gs. fList elasticHit gs ''hits'')) fs ''hits'')"

definition elasticID :: "string \<times> string \<Rightarrow> string option" where
  "elasticID hit = (case hit of (i, sid) \<Rightarrow> if sid \<noteq> '''' then Some sid else if i \<noteq> '''' then Some i else None)"

definition es_query :: "string \<Rightarrow> string option \<Rightarrow> int \<Rightarrow> payload" where
  "es_query query roomID limit =
     PObj [(''size'', PJ (JNum limit)), (''_source'', PJ (jstrs [''id'', ''room_id''])),
       (''query'', PObj [(''script_score'', PObj
          [(''query'', PJ (case roomID of None \<Rightarrow> JObj [(''match_all'', JObj [])]
                           | Some r \<Rightarrow> JObj [(''bool'', JObj [(''filter'', JArr [JObj [(''term'', JObj [(''room_id'', JStr r)])]])])])),
           (''script'', PObj [(''source'', PJ (JStr (''cosineSimilarity(params.query_vector, '' @ [CHR 39] @ ''vector'' @ [CHR 39] @ '') + 1.0''))),
                            (''params'', PObj [(''query_vector'', vectorOf query)])])])])]"

definition es_SemanticSearch :: "ElasticsearchService \<Rightarrow> 'w net \<Rightarrow> 'w \<Rightarrow> string \<Rightarrow> string option \<Rightarrow> int \<Rightarrow> 'w \<times> string list option result" where
  "es_SemanticSearch e net w query roomID limit =
     (if \<not> es_enabled e then (w, Inr None)
      else case es_requestBytes e net w ''POST'' (''/'' @ es_index e @ ''/_search'') (Some (es_query query roomID limit)) of
        (w', Inl err) \<Rightarrow> (w', Inl err)
      | (w', Inr (st, b)) \<Rightarrow>
          (w', if 300 \<le> st then Inl (''elasticsearch status '' @ show_nat st)
               else bindR (bindR (unmarshalBody b) elasticSearchResponse) (\<lambda>hits. Inr (Some (List.map_filter elasticID hits)))))"

section \<open>Milvus\<close>

record MilvusService =
  mv_endpoint :: string
  mv_enabled :: bool

definition NewMilvusService :: "string \<Rightarrow> bool \<Rightarrow> MilvusService" where
  "NewMilvusService endpoint enabled = \<lparr>mv_endpoint = trimRightSlash (TrimSpace endpoint), mv_enabled = enabled\<rparr>"

definition mv_postRaw :: "MilvusService \<Rightarrow> 'w net \<Rightarrow> 'w \<Rightarrow> string \<Rightarrow> payload \<Rightarrow> 'w \<times> (string \<times> json) list result" where
  "mv_postRaw m net w path payload =
     (case net w ''POST'' (mv_endpoint m @ normalizedPath path) (Some payload) of
        (w', Inl e) \<Rightarrow> (w', Inl e)
      | (w', Inr (st, b)) \<Rightarrow>
          (w', if 300 \<le> st then Inl (''milvus status '' @ show_nat st) else bindR (unmarshalBody b) (\<lambda>j. decodeAnyMap j [])))"

text \<open>The rows of \<open>data\<close> that are objects.\<close>

definition milvusRows :: "(string \<times> json) list \<Rightarrow> (string \<times> json) list list" where
  "milvusRows raw =
     (case mget ''data'' raw of
        Some (JArr rows) \<Rightarrow> List.map_filter (\<lambda>row. case row of JObj fs \<Rightarrow> Some fs | _ \<Rightarrow> None) rows
      | _ \<Rightarrow> [])"

definition mv_post :: "MilvusService \<Rightarrow> 'w net \<Rightarrow> 'w \<Rightarrow> string \<Rightarrow> payload \<Rightarrow> 'w \<times> (string \<times> json) list list result" where
  "mv_post m net w path payload =
     (case mv_postRaw m net w path payload of (w', Inl e) \<Rightarrow> (w', Inl e) | (w', Inr raw) \<Rightarrow> (w', Inr (milvusRows raw)))"

definition mv_has :: "(string \<times> json) list result \<Rightarrow> bool" where
  "mv_has r =
     (case r of
        Inl _ \<Rightarrow> False
      | Inr raw \<Rightarrow> (case mget ''data'' raw of Some (JObj fs) \<Rightarrow> mget ''has'' fs = Some (JBool True) | _ \<Rightarrow> False))"

definition mv_schema :: json where
  "mv_schema = JObj [(''collectionName'', JStr defaultCollectionName), (''schema'', JObj [(''autoId'', JBool False), (''enableDynamicField'', JBool True),
     (''fields'', JArr
        [JObj [(''fieldName'', JStr ''id''), (''dataType'', JStr ''VarChar''), (''isPrimary'', JBool True), (''maxLength'', JNum 128)],
         JObj [(''fieldName'', JStr ''room_id''), (''dataType'', JStr ''VarChar''), (''maxLength'', JNum 128)],
         JObj [(''fieldName'', JStr ''text''), (''dataType'', JStr ''VarChar''), (''maxLength'', JNum 8192)],
         JObj [(''fieldName'', JStr ''vector''), (''dataType'', JStr ''FloatVector''), (''elementTypeParams'', JObj [(''dim'', JStr (show_nat defaultVectorDim))])]])])]"

definition Contains :: "string \<Rightarrow> string \<Rightarrow> bool" where
  "Contains s t \<longleftrightarrow> (\<exists>i \<in> set [0..<Suc (length s)]. HasPrefix (drop i s) t)"

definition mv_EnsureCollection :: "MilvusService \<Rightarrow> 'w net \<Rightarrow> 'w \<Rightarrow> 'w \<times> unit result" where
  "mv_EnsureCollection m net w =
     (if \<not> mv_enabled m then (w, Inr ())
      else case mv_postRaw m net w ''/v2/vectordb/collections/has'' (PJ (JObj [(''collectionName'', JStr defaultCollectionName)])) of
        (w1, r) \<Rightarrow>
          if mv_has r then (w1, Inr ())
          else (case mv_postRaw m net w1 ''/v2/vectordb/collections/create'' (PJ mv_schema) of
             (w2, Inl e) \<Rightarrow> (w2, if Contains (ToLower e) ''already'' \<or> Contains (ToLower e) ''exist'' then Inr () else Inl e)
           | (w2, Inr _) \<Rightarrow> (w2, Inr ())))"

definition mv_IndexMessage :: "MilvusService \<Rightarrow> 'w net \<Rightarrow> 'w \<Rightarrow> string \<Rightarrow> string \<Rightarrow> string \<Rightarrow> 'w \<times> unit result" where
  "mv_IndexMessage m net w messageID roomID txt =
     (if \<not> mv_enabled m then (w, Inr ())
      else case mv_post m net w ''/v2/vectordb/entities/insert''
          (PObj [(''collectionName'', PJ (JStr defaultCollectionName)),
             (''data'', PArr [PObj [(''id'', PJ (JStr messageID)), (''room_id'', PJ (JStr roomID)), (''vector'', vectorOf txt), (''text'', PJ (JStr txt))]])]) of
        (w', Inl e) \<Rightarrow> (w', Inl e)
      | (w', Inr _) \<Rightarrow> (w', Inr ()))"

definition mv_filter :: "string option \<Rightarrow> string" where
  "mv_filter roomID = (case roomID of None \<Rightarrow> '''' | Some r \<Rightarrow> ''room_id == '' @ [CHR 34] @ r @ [CHR 34])"

definition milvusID :: "(string \<times> json) list \<Rightarrow> string option" where
  "milvusID row = (case mget ''id'' row of Some (JNum n) \<Rightarrow> Some (show_int (float64Int n)) | Some (JStr s) \<Rightarrow> Some s | _ \<Rightarrow> None)"

definition mv_SemanticSearch :: "MilvusService \<Rightarrow> 'w net \<Rightarrow> 'w \<Rightarrow> string \<Rightarrow> string option \<Rightarrow> int \<Rightarrow> 'w \<times> string list option result" where
  "mv_SemanticSearch m net w query roomID limit =
     (if \<not> mv_enabled m then (w, Inr None)
      else case mv_post m net w ''/v2/vectordb/entities/search''
          (PObj [(''collectionName'', PJ (JStr defaultCollectionName)), (''vector'', vectorOf query), (''limit'', PJ (JNum limit)),
             (''outputFields'', PJ (jstrs [''id'', ''room_id''])), (''filter'', PJ (JStr (mv_filter roomID)))]) of
        (w', Inl e) \<Rightarrow> (w', Inl e)
      | (w', Inr rows) \<Rightarrow> (w', Inr (Some (List.map_filter milvusID rows))))"


section \<open>The interface VectorService and its implementations\<close>

record 'w VectorService =
  vs_ensure :: "'w \<Rightarrow> 'w \<times> unit result"
  vs_index :: "'w \<Rightarrow> string \<Rightarrow> string \<Rightarrow> string \<Rightarrow> 'w \<times> unit result"
  vs_search :: "'w \<Rightarrow> string \<Rightarrow> string option \<Rightarrow> int \<Rightarrow> 'w \<times> string list option result"

definition qdrantService :: "QdrantService \<Rightarrow> 'w net \<Rightarrow> 'w VectorService" where
  "qdrantService q net = \<lparr>vs_ensure = qd_EnsureCollection q net, vs_index = qd_IndexMessage q net, vs_search = qd_SemanticSearch q net\<rparr>"

definition elasticsearchService :: "ElasticsearchService \<Rightarrow> 'w net \<Rightarrow> 'w VectorService" where
  "elasticsearchService e net = \<lparr>vs_ensure = es_EnsureCollection e net, vs_index = es_IndexMessage e net, vs_search = es_SemanticSearch e net\<rparr>"

definition milvusService :: "MilvusService \<Rightarrow> 'w net \<Rightarrow> 'w VectorService" where
  "milvusService m net = \<lparr>vs_ensure = mv_EnsureCollection m net, vs_index = mv_IndexMessage m net, vs_search = mv_SemanticSearch m net\<rparr>"

section \<open>Handlers\<close>

definition vm_bindIndex :: "json \<Rightarrow> (string \<times> string \<times> string) result" where
  "vm_bindIndex j = bindR (structFields j) (\<lambda>fs. bindR (fStr fs ''message_id'') (\<lambda>i. bindR (fStr fs ''room_id'') (\<lambda>r. bindR (fStr fs ''text'') (\<lambda>t.
     required [(''message_id'', i), (''room_id'', r)] (i, r, t)))))"

definition vm_index :: "'w VectorService \<Rightarrow> 'w \<Rightarrow> json result \<Rightarrow> 'w \<times> response" where
  "vm_index sv w body = withJSON body vm_bindIndex w (\<lambda>(i, r, t). answer 500 200 (\<lambda>_. NewOKResponse) (vs_index sv w i r t))"

definition vm_bindSearch :: "json \<Rightarrow> (string \<times> string option \<times> int) result" where
  "vm_bindSearch j = bindR (structFields j) (\<lambda>fs. bindR (fStr fs ''query'') (\<lambda>q. bindR (fStrPtr fs ''room_id'') (\<lambda>r. bindR (fInt fs ''limit'') (\<lambda>n.
     required [(''query'', q)] (q, r, n)))))"

definition vm_search :: "'w VectorService \<Rightarrow> 'w \<Rightarrow> json result \<Rightarrow> 'w \<times> response" where
  "vm_search sv w body = withJSON body vm_bindSearch w (\<lambda>(q, r, n).
     answer 500 200 (\<lambda>ids. JObj [(''ids'', case ids of None \<Rightarrow> JNull | Some xs \<Rightarrow> jstrs xs)]) (vs_search sv w q r (clampLimit 200 30 n)))"

text \<open>\<open>None\<close>: no route.\<close>

definition vm_RegisterRoutes :: "'w VectorService \<Rightarrow> string \<Rightarrow> string \<Rightarrow> ('w \<Rightarrow> json result \<Rightarrow> 'w \<times> response) option" where
  "vm_RegisterRoutes sv method path =
     (if method = ''GET'' \<and> path = ''/health'' then Some (\<lambda>w _. (w, (200, JObj [(''status'', JStr ''ok'')])))
      else if method = ''POST'' \<and> path = ''/api/v1/vectors/messages/index'' then Some (vm_index sv)
      else if method = ''POST'' \<and> path = ''/api/v1/vectors/messages/search'' then Some (vm_search sv)
      else None)"

section \<open>The server\<close>

record vmConfig =
  vm_Port :: string
  vm_VectorBackend :: string
  vm_MilvusEnabled :: bool
  vm_MilvusEndpoint :: string
  vm_QdrantEnabled :: bool
  vm_QdrantEndpoint :: string
  vm_QdrantCollection :: string
  vm_ElasticsearchEnabled :: bool
  vm_ElasticsearchEndpoint :: string
  vm_ElasticsearchIndex :: string

definition vm_backend :: "vmConfig \<Rightarrow> 'w net \<Rightarrow> 'w VectorService result" where
  "vm_backend cfg net =
     (let b = ToLower (TrimSpace (vm_VectorBackend cfg)); backend = (if b = '''' then ''milvus'' else b) in
      if backend = ''milvus'' then Inr (milvusService (NewMilvusService (vm_MilvusEndpoint cfg) (vm_MilvusEnabled cfg)) net)
      else if backend = ''qdrant'' then Inr (qdrantService (NewQdrantService (vm_QdrantEndpoint cfg) (vm_QdrantCollection cfg) (vm_QdrantEnabled cfg)) net)
      else if backend = ''elasticsearch''
      then Inr (elasticsearchService (NewElasticsearchService (vm_ElasticsearchEndpoint cfg) (vm_ElasticsearchIndex cfg) (vm_ElasticsearchEnabled cfg)) net)
      else Inl (''unsupported vector backend: '' @ vm_VectorBackend cfg))"

definition vm_NewServer :: "vmConfig \<Rightarrow> 'w net \<Rightarrow> 'w \<Rightarrow> 'w \<times> 'w VectorService result" where
  "vm_NewServer cfg net w =
     (case vm_backend cfg net of
        Inl e \<Rightarrow> (w, Inl e)
      | Inr svc \<Rightarrow>
          (case vs_ensure svc w of
             (w', Inl e) \<Rightarrow> (w', Inl (''ensure vector collection: '' @ e))
           | (w', Inr _) \<Rightarrow> (w', Inr svc)))"

text \<open>The switch of the implementation that the configuration selects.\<close>

definition vm_enabled :: "vmConfig \<Rightarrow> bool" where
  "vm_enabled cfg =
     (let b = ToLower (TrimSpace (vm_VectorBackend cfg)) in
      if b = '''' \<or> b = ''milvus'' then vm_MilvusEnabled cfg else if b = ''qdrant'' then vm_QdrantEnabled cfg else vm_ElasticsearchEnabled cfg)"

text \<open>The server behind the chat server's client: the URL \<open>u\<close> under the base \<open>base\<close>, on a network that delivers.\<close>

definition vmHttp :: "'w VectorService \<Rightarrow> 'w \<Rightarrow> string \<Rightarrow> string \<Rightarrow> json \<Rightarrow> json outcome" where
  "vmHttp sv w base u payload =
     (case vm_RegisterRoutes sv ''POST'' (TrimPrefix u base) of
        None \<Rightarrow> Resp 404 (Inl ''invalid character'')
      | Some h \<Rightarrow> (case snd (h w (Inr payload)) of (st, b) \<Rightarrow> Resp (int st) (Inr b)))"

section \<open>The contract of an implementation\<close>

text \<open>
  Switched off, an implementation does nothing and reports no error. Switched on, an indexing and a search are one request each; a failure of the request or a status from
  300 on is the failure of the operation, and a search that succeeds does not return the nil slice.
\<close>

definition oneRequest :: "'w net \<Rightarrow> 'w \<Rightarrow> 'w \<times> 'a result \<Rightarrow> bool" where
  "oneRequest net w out \<longleftrightarrow>
     (\<exists>method u payload f. out = (fst (net w method u (Some payload)), f (snd (net w method u (Some payload)))) \<and>
        (\<forall>e. f (Inl e) = Inl e) \<and> (\<forall>st b. 300 \<le> st \<longrightarrow> (\<exists>e. f (Inr (st, b)) = Inl e)))"

locale vector_service =
  fixes net :: "'w net" and sv :: "'w VectorService" and enabled :: bool
  assumes off_ensure: "\<not> enabled \<Longrightarrow> vs_ensure sv w = (w, Inr ())"
    and off_index: "\<not> enabled \<Longrightarrow> vs_index sv w i r t = (w, Inr ())"
    and off_search: "\<not> enabled \<Longrightarrow> vs_search sv w q room n = (w, Inr None)"
    and on_index: "enabled \<Longrightarrow> oneRequest net w (vs_index sv w i r t)"
    and on_search: "enabled \<Longrightarrow> oneRequest net w (vs_search sv w q room n)"
    and on_result: "enabled \<Longrightarrow> snd (vs_search sv w q room n) \<noteq> Inr None"
begin

text \<open>What the chat server's client makes of a search.\<close>

lemma client_search:
  assumes "vc_enabled c" "q \<noteq> ''''" "0 < n" "n \<le> 200"
  shows "SemanticSearch c (vmHttp sv w (vc_endpoint c)) q room n =
    (if \<not> enabled then Inl ''invalid ids payload''
     else case snd (vs_search sv w q room n) of Inl _ \<Rightarrow> Inl ''vectorman status 500'' | Inr ids \<Rightarrow> Inr (the ids))"
proof -
  have path: "vm_RegisterRoutes sv ''POST'' ''/api/v1/vectors/messages/search'' = Some (vm_search sv)" by (simp add: vm_RegisterRoutes_def)
  have bind: "vm_bindSearch (JObj [(''query'', JStr q), (''room_id'', joption room), (''limit'', JNum n)]) = Inr (q, room, n)"
    using assms(2) by (cases room) (simp_all add: vm_bindSearch_def field_defs required_def joption_def foldName_lower)
  have status: "show_int 500 = ''500''" by code_simp
  have ids: "List.map_filter jstring (map JStr xs) = xs" for xs by (induction xs) (simp_all add: List.map_filter_simps)
  obtain w' r where out: "vs_search sv w q room n = (w', r)" by fastforce
  have "vm_search sv w (Inr (JObj [(''query'', JStr q), (''room_id'', joption room), (''limit'', JNum n)])) = 
      (case r of Inl e \<Rightarrow> (w', 500, NewErrorResponse e) | Inr ids \<Rightarrow> (w', 200, JObj [(''ids'', case ids of None \<Rightarrow> JNull | Some xs \<Rightarrow> jstrs xs)]))"
    using assms(3,4) by (simp add: vm_search_def withJSON_def withBody_def bind answer_def clampLimit_in_range out split: sum.split)
  then show ?thesis
    using assms(1) off_search[of w q room n] on_result[of w q room n] out
    by (auto simp: SemanticSearch_def vc_post_def vmHttp_def path status ids jstrs_def split: sum.split)
qed

lemma client_index:
  assumes "vc_enabled c" "i \<noteq> ''''" "r \<noteq> ''''"
  shows "IndexMessage c (vmHttp sv w (vc_endpoint c)) i r t =
    (case snd (vs_index sv w i r t) of Inl _ \<Rightarrow> Inl ''vectorman status 500'' | Inr _ \<Rightarrow> Inr ())"
proof -
  have path: "vm_RegisterRoutes sv ''POST'' ''/api/v1/vectors/messages/index'' = Some (vm_index sv)" by (simp add: vm_RegisterRoutes_def)
  have bind: "vm_bindIndex (JObj [(''message_id'', JStr i), (''room_id'', JStr r), (''text'', JStr t)]) = Inr (i, r, t)"
    using assms by (simp add: vm_bindIndex_def field_defs required_def foldName_lower)
  have status: "show_int 500 = ''500''" by code_simp
  obtain w' x where out: "vs_index sv w i r t = (w', x)" by fastforce
  show ?thesis
    using assms(1)
    by (simp add: IndexMessage_def vc_post_def vmHttp_def path status vm_index_def withJSON_def withBody_def bind answer_def out NewOKResponse_def split: sum.split)
qed

lemma client_search_down:
  assumes "vc_enabled c" "q \<noteq> ''''" "0 < n" "n \<le> 200" "enabled" "\<forall>m u p. \<exists>e. snd (net w m u p) = Inl e"
  shows "SemanticSearch c (vmHttp sv w (vc_endpoint c)) q room n = Inl ''vectorman status 500''"
  using on_search[of w q room n] assms(5,6) unfolding client_search[OF assms(1-4)] oneRequest_def by (auto split: sum.split) (metis sum.distinct(1))+

end


lemma oneRequest_case:
  assumes "\<And>st b. 300 \<le> st \<Longrightarrow> \<exists>e. g st b = Inl e"
  shows "oneRequest net w (case net w m u (Some p) of (w', Inl e) \<Rightarrow> (w', Inl e) | (w', Inr (st, b)) \<Rightarrow> (w', g st b))"
  unfolding oneRequest_def
  by (rule exI[of _ m], rule exI[of _ u], rule exI[of _ p], rule exI[of _ "\<lambda>r. case r of Inl e \<Rightarrow> Inl e | Inr (st, b) \<Rightarrow> g st b"])
    (use assms in \<open>auto split: prod.split sum.split\<close>)

lemma oneRequest_map:
  assumes "oneRequest net w out"
  shows "oneRequest net w (case out of (w', Inl e) \<Rightarrow> (w', Inl e) | (w', Inr x) \<Rightarrow> (w', Inr (h x)))"
proof -
  obtain m u p f where out: "out = (fst (net w m u (Some p)), f (snd (net w m u (Some p))))" "\<forall>e. f (Inl e) = Inl e"
    "\<forall>st b. 300 \<le> st \<longrightarrow> (\<exists>e. f (Inr (st, b)) = Inl e)" using assms by (auto simp: oneRequest_def)
  let ?g = "\<lambda>r. case f r of Inl e \<Rightarrow> Inl e | Inr x \<Rightarrow> Inr (h x)"
  have "(case out of (w', Inl e) \<Rightarrow> (w', Inl e) | (w', Inr x) \<Rightarrow> (w', Inr (h x))) = (fst (net w m u (Some p)), ?g (snd (net w m u (Some p))))"
    by (simp add: out(1) split: sum.split)
  moreover have "\<exists>e. ?g (Inr (st, b)) = Inl e" if "300 \<le> st" for st b
    using out(3)[rule_format, OF that, of b] by auto
  ultimately show ?thesis using out(2) unfolding oneRequest_def by (intro exI[of _ m] exI[of _ u] exI[of _ p] exI[of _ ?g]) simp
qed

lemma postRaw_oneRequest: "oneRequest net w (mv_postRaw m net w path payload)"
  unfolding mv_postRaw_def by (rule oneRequest_case) simp

lemma mv_post_oneRequest: "oneRequest net w (mv_post m net w path payload)"
  unfolding mv_post_def by (rule oneRequest_map) (rule postRaw_oneRequest)

lemma postSearch_oneRequest: "oneRequest net w (qd_postSearch q net w path payload)"
  unfolding qd_postSearch_def qd_requestBytes_def by (rule oneRequest_case) simp

lemma requestNoDecode_oneRequest: "oneRequest net w (qd_requestNoDecode q net w method path payload)"
  unfolding qd_requestNoDecode_def qd_requestBytes_def by (rule oneRequest_case) simp

interpretation qdrant: vector_service net "qdrantService q net" "qd_enabled q" for net q
proof (unfold_locales, goal_cases)
  case (4 w i r t)
  then show ?case by (simp add: qdrantService_def qd_IndexMessage_def requestNoDecode_oneRequest)
next
  case (5 w s room n)
  then show ?case by (simp add: qdrantService_def qd_SemanticSearch_def oneRequest_map postSearch_oneRequest)
qed (auto simp: qdrantService_def qd_EnsureCollection_def qd_IndexMessage_def qd_SemanticSearch_def split: prod.split sum.split)

interpretation elastic: vector_service net "elasticsearchService e net" "es_enabled e" for net e
proof (unfold_locales, goal_cases)
  case (4 w i r t)
  then show ?case unfolding elasticsearchService_def by (simp add: es_IndexMessage_def es_requestBytes_def) (rule oneRequest_case, simp)
next
  case (5 w s room n)
  then show ?case unfolding elasticsearchService_def by (simp add: es_SemanticSearch_def es_requestBytes_def) (rule oneRequest_case, simp)
qed (auto simp: elasticsearchService_def es_EnsureCollection_def es_IndexMessage_def es_SemanticSearch_def bindR_def split: prod.split sum.split)

interpretation milvus: vector_service net "milvusService m net" "mv_enabled m" for net m
proof (unfold_locales, goal_cases)
  case (4 w i r t)
  then show ?case using oneRequest_map[OF mv_post_oneRequest, where h = "\<lambda>_. ()"] by (simp add: milvusService_def mv_IndexMessage_def)
next
  case (5 w s room n)
  then show ?case by (simp add: milvusService_def mv_SemanticSearch_def oneRequest_map mv_post_oneRequest)
qed (auto simp: milvusService_def mv_EnsureCollection_def mv_IndexMessage_def mv_SemanticSearch_def split: prod.split sum.split)

text \<open>Whatever implementation the configuration selects keeps the contract.\<close>

lemma vm_backend_contract: "vm_backend cfg net = Inr sv \<Longrightarrow> vector_service net sv (vm_enabled cfg)"
  using milvus.vector_service_axioms[of net "NewMilvusService (vm_MilvusEndpoint cfg) (vm_MilvusEnabled cfg)"]
    qdrant.vector_service_axioms[of net "NewQdrantService (vm_QdrantEndpoint cfg) (vm_QdrantCollection cfg) (vm_QdrantEnabled cfg)"]
    elastic.vector_service_axioms[of net "NewElasticsearchService (vm_ElasticsearchEndpoint cfg) (vm_ElasticsearchIndex cfg) (vm_ElasticsearchEnabled cfg)"]
  by (auto simp: vm_backend_def vm_enabled_def Let_def NewMilvusService_def NewQdrantService_def NewElasticsearchService_def split: if_splits)


section \<open>Properties\<close>

text \<open>
  C23: The chat server's client and the vector server compose to the vector data base. Whatever implementation the vector server is configured for, a search of the client,
  encoded, sent, bound, clamped, answered and decoded, returns the ids that the implementation returns for the same query, room and limit, and an indexing passes exactly
  the message id, room and text on; a failure of the implementation reaches the client as status 500. With the implementation switched off, an indexing succeeds, but
  every search is an error at the client, since the server answers \<open>null\<close> for the ids.
\<close>

theorem vectorman_composes:
  assumes "vm_backend cfg net = Inr sv" "vc_enabled c"
  shows "(q \<noteq> '''' \<and> 0 < n \<and> n \<le> 200 \<longrightarrow>
           SemanticSearch c (vmHttp sv w (vc_endpoint c)) q room n =
             (if \<not> vm_enabled cfg then Inl ''invalid ids payload''
              else case snd (vs_search sv w q room n) of Inl _ \<Rightarrow> Inl ''vectorman status 500'' | Inr ids \<Rightarrow> Inr (the ids))) \<and>
         (i \<noteq> '''' \<and> r \<noteq> '''' \<longrightarrow>
           IndexMessage c (vmHttp sv w (vc_endpoint c)) i r t =
             (case snd (vs_index sv w i r t) of Inl _ \<Rightarrow> Inl ''vectorman status 500'' | Inr _ \<Rightarrow> Inr ()))"
  using vector_service.client_search[OF vm_backend_contract[OF assms(1)] assms(2)] vector_service.client_index[OF vm_backend_contract[OF assms(1)] assms(2)]
  by blast

text \<open>A Qdrant that answers every request with two rows.\<close>

definition twoRows :: "unit net" where
  "twoRows w m u p = (w, Inr (200, Some (JObj [(''result'', JArr
     [JObj [(''id'', JNum 7), (''payload'', JObj [(''id'', JStr ''m1'')])], JObj [(''id'', JStr ''m2''), (''payload'', JNull)]])])))"

definition qdrantCfg :: vmConfig where
  "qdrantCfg = \<lparr>vm_Port = ''8083'', vm_VectorBackend = '' Qdrant '', vm_MilvusEnabled = False, vm_MilvusEndpoint = '''', vm_QdrantEnabled = True,
     vm_QdrantEndpoint = ''http://q:6333/'', vm_QdrantCollection = '''', vm_ElasticsearchEnabled = False, vm_ElasticsearchEndpoint = '''', vm_ElasticsearchIndex = ''''\<rparr>"

theorem vectorman_composes_witness:
  "case vm_backend qdrantCfg twoRows of
     Inr sv \<Rightarrow> SemanticSearch (NewVectormanClient ''http://v/'' True) (vmHttp sv () (vc_endpoint (NewVectormanClient ''http://v/'' True))) ''hello'' (Some ''r'') 30
               = Inr [''m1'', ''m2'']
   | Inl _ \<Rightarrow> False"
proof -
  let ?q = "\<lparr>qd_endpoint = ''http://q:6333'', qd_collection = ''messages'', qd_enabled = True\<rparr>"
  have "ToLower (TrimSpace '' Qdrant '') = ''qdrant''" "NewQdrantService ''http://q:6333/'' '''' True = ?q" by code_simp+
  then have b: "vm_backend qdrantCfg twoRows = Inr (qdrantService ?q twoRows)" and e: "vm_enabled qdrantCfg"
    by (simp_all add: vm_backend_def vm_enabled_def qdrantCfg_def)
  have f: "foldName ''result'' = ''result''" "foldName ''payload'' = ''payload''" "foldName ''id'' = ''id''" by (rule foldName_lower, simp)+
  have s: "snd (vs_search (qdrantService ?q twoRows) () ''hello'' (Some ''r'') 30) = Inr (Some [''m1'', ''m2''])"
    by (simp add: qdrantService_def qd_SemanticSearch_def qd_postSearch_def qd_requestBytes_def twoRows_def unmarshalBody_def qdrantSearchResponse_def
        qdrantRow_def fList_def f decodeList_def decodeAnyMap_def mget_def qdrantID_def List.map_filter_simps)
  have "vc_enabled (NewVectormanClient ''http://v/'' True)" by (simp add: NewVectormanClient_def)
  from vectorman_composes[OF b this, of "''hello''" 30 "()" "Some ''r''" "''i''" "''r''" "''''"] show ?thesis unfolding b by (simp add: e s)
qed

lemma SemanticSearch_off: "\<not> vc_enabled c \<Longrightarrow> SemanticSearch c http q room n = Inr []"
  by (simp add: SemanticSearch_def)

text \<open>
  Where the vector data base is switched off or cannot be reached, a search in the chat server gives what it gives without the vector server.
\<close>

theorem vector_outage:
  assumes "vm_backend cfg net = Inr sv" "\<not> vm_enabled cfg \<or> (\<forall>m u p. \<exists>e. snd (net w m u p) = Inl e)" "q \<noteq> ''''"
  shows "chat_SearchMessages svc (vmHttp sv w (vc_endpoint (ch_vector svc))) s t q room limit cursor = chat_SearchMessages (withoutVector svc) http s t q room limit cursor"
proof -
  let ?c = "ch_vector svc" and ?http = "vmHttp sv w (vc_endpoint (ch_vector svc))" and ?n = "clampLimit 100 30 limit"
  note contract = vm_backend_contract[OF assms(1)]
  have n: "0 < ?n" "?n \<le> 200" using clampLimit_bounds[of 30 100 limit] by simp_all
  have "(\<exists>e. SemanticSearch ?c ?http q room ?n = Inl e) \<or> \<not> vc_enabled ?c"
    using vector_service.client_search[OF contract _ assms(3) n, of ?c w room] vector_service.client_search_down[OF contract _ assms(3) n, of ?c w room] assms(2)
    by (cases "vm_enabled cfg") auto
  then show ?thesis
    by (auto simp: chat_SearchMessages_def withoutVector_def Let_def SemanticSearch_def[of "?c\<lparr>vc_enabled := False\<rparr>"] SemanticSearch_off split: sum.split prod.split)
qed

section \<open>Defects\<close>

text \<open>
  The check for a collection that exists already looks at the error text for \<open>already\<close> or \<open>exist\<close>, but the text that \<open>postRaw\<close> makes of a refused request has only the status:
  a refusal always ends the start of the server.
\<close>

lemma Contains_subset: "Contains s t \<Longrightarrow> set t \<subseteq> set s"
  unfolding Contains_def HasPrefix_def by (metis set_drop_subset set_take_subset subset_trans)

lemma milvus_status_letters:
  assumes "c \<in> {CHR ''r'', CHR ''x''}"
  shows "c \<notin> set (ToLower (''milvus status '' @ show_nat st))"
proof -
  have digits: "lower_char x = x \<and> (of_char x :: nat) < 58" if "x \<in> set (show_nat st)" for x
    using show_nat_digits[OF that] by (auto simp: digit_char_def lower_char_def)
  have front: "map lower_char ''milvus status '' = ''milvus status ''" "ascii ''milvus status ''" by code_simp+
  have "ascii (show_nat st)" using digits by (force simp: ascii_def)
  then have "ascii (''milvus status '' @ show_nat st)" using front(2) by (simp only: ascii_def set_append ball_Un)
  then have "ToLower (''milvus status '' @ show_nat st) = ''milvus status '' @ map lower_char (show_nat st)"
    by (simp only: ToLower_ascii map_append front(1))
  moreover have "map lower_char (show_nat st) = show_nat st" using digits by (simp add: map_idI)
  moreover have "c \<notin> set (show_nat st)" using digits[of c] assms by auto
  ultimately show ?thesis using assms by auto
qed

lemma milvus_refusal:
  assumes "mv_enabled m" "\<not> mv_has (snd (mv_postRaw m net w ''/v2/vectordb/collections/has'' (PJ (JObj [(''collectionName'', JStr defaultCollectionName)]))))"
    and "\<And>w' u p. snd (net w' ''POST'' u p) = Inr (st, b)" "300 \<le> st"
  shows "snd (mv_EnsureCollection m net w) = Inl (''milvus status '' @ show_nat st)"
proof -
  let ?e = "''milvus status '' @ show_nat st"
  have refused: "\<exists>w2. mv_postRaw m net w' path p = (w2, Inl ?e)" for w' path p
  proof -
    obtain w2 where "net w' ''POST'' (mv_endpoint m @ normalizedPath path) (Some p) = (w2, Inr (st, b))" using assms(3) by (metis prod.collapse)
    then show ?thesis using assms(4) by (simp add: mv_postRaw_def)
  qed
  have "CHR ''r'' \<notin> set (ToLower ?e)" "CHR ''x'' \<notin> set (ToLower ?e)" by (rule milvus_status_letters, simp)+
  then have "\<not> Contains (ToLower ?e) ''already''" "\<not> Contains (ToLower ?e) ''exist''"
    using Contains_subset[of "ToLower ?e" "''already''"] Contains_subset[of "ToLower ?e" "''exist''"] by auto
  moreover obtain w1 r where "mv_postRaw m net w ''/v2/vectordb/collections/has'' (PJ (JObj [(''collectionName'', JStr defaultCollectionName)])) = (w1, r)"
    by fastforce
  moreover from refused obtain w2 where "mv_postRaw m net w1 ''/v2/vectordb/collections/create'' (PJ mv_schema) = (w2, Inl ?e)" by blast
  ultimately show ?thesis using assms(1,2) unfolding mv_EnsureCollection_def by simp
qed

text \<open>A room id with a quotation mark ends the string in Milvus' filter expression, and what follows it is read as a part of the expression.\<close>

lemma milvus_filter_injection:
  "mv_filter (Some (''x'' @ [CHR 34] @ '' or room_id != '' @ [CHR 34])) = ''room_id == '' @ [CHR 34] @ ''x'' @ [CHR 34] @ '' or room_id != '' @ [CHR 34, CHR 34]"
  by (simp add: mv_filter_def)

end
