(* ===== verification/RemoteStores.thy ===== *)
theory RemoteStores
  imports DbmanApi
begin

text \<open>
  The clients of the data base server: \<open>dbman_client.go\<close> of the chat, session, orgHub, fileman and tenantHub servers and the tenant metadata
  provider of \<open>server/common/infra/dbman\<close>. Each operation marshals its arguments, posts them and decodes the answer. The stores that the servers
  run on are these remote operations; they are shown to be the operations of the data base server, up to the text of errors.
\<close>

section \<open>One request\<close>

text \<open>What \<open>Post\<close> makes of a response of the endpoint (the function \<open>Post\<close> with its retries is in \<open>DbmanClient\<close>, see \<open>Post_one_endpoint\<close>).\<close>

definition callResult :: "string \<Rightarrow> (json \<Rightarrow> 'a result) \<Rightarrow> response \<Rightarrow> 'a result" where
  "callResult ep dec resp = (case resp of (code, j) \<Rightarrow> if 300 \<le> code then Inl (err_status (int code) ep) else dec j)"

definition rpost :: "'s dbmanServices \<Rightarrow> string \<Rightarrow> 's \<Rightarrow> string \<Rightarrow> json \<Rightarrow> (json \<Rightarrow> 'a result) \<Rightarrow> 's \<times> 'a result" where
  "rpost sv ep s path payload dec =
     (case dbman_post sv s (BasePath @ path) (Inr payload) of (s', resp) \<Rightarrow> (s', callResult ep dec resp))"

lemma Post_one_endpoint:
  assumes "endpoints c = [ep]" "\<not> cooling c ep (checkAt (env 0))" "send (env 0) (ep @ slashed path) body = Resp (int code) (dec j)"
  shows "fst (snd (Post c path (Inr body) env)) = callResult ep dec (code, j)"
proof -
  have "tryOrder c = [ep]" "live c env = [0]" using assms(1,2) by (simp_all add: tryOrder_def live_def)
  then show ?thesis
    using Post_decision[of c path body env] assms(1,3) by (simp add: verdictOf_def callResult_def decision_Retry)
qed

text \<open>The answers are decoded into a map, one field of a struct, or a slice.\<close>

definition decodeMap :: "json \<Rightarrow> unit result" where
  "decodeMap j = bindR (structFields j) (\<lambda>_. Inr ())"

definition decodeOne :: "((string \<times> json) list \<Rightarrow> string \<Rightarrow> 'a result) \<Rightarrow> string \<Rightarrow> json \<Rightarrow> 'a result" where
  "decodeOne f k j = bindR (structFields j) (\<lambda>fs. f fs k)"

definition decodeItems :: "(json \<Rightarrow> 'a result) \<Rightarrow> json \<Rightarrow> 'a list result" where
  "decodeItems dec j = decodeList dec j []"

definition jptr :: "string option \<Rightarrow> json" where
  "jptr p = (case p of None \<Rightarrow> JNull | Some v \<Rightarrow> JStr v)"

definition jtimeptr :: "time option \<Rightarrow> json" where
  "jtimeptr p = (case p of None \<Rightarrow> JNull | Some v \<Rightarrow> jtime v)"

definition jfields :: "(string \<times> string) list \<Rightarrow> (string \<times> json) list" where
  "jfields ks = map (\<lambda>(k, v). (k, JStr v)) ks"

section \<open>Chat client\<close>

definition rc_CreateRoom :: "'s dbmanServices \<Rightarrow> string \<Rightarrow> 's \<Rightarrow> string \<Rightarrow> ChatRoom \<Rightarrow> string list \<Rightarrow> 's \<times> string result" where
  "rc_CreateRoom sv ep s t room memberIDs =
     rpost sv ep s ''/rooms'' (JObj [(''tenant_id'', JStr t), (''room'', roomJson room), (''member_ids'', jstrs memberIDs)]) (decodeOne fStr ''room_id'')"

definition rc_AddMember :: "'s dbmanServices \<Rightarrow> string \<Rightarrow> 's \<Rightarrow> string \<Rightarrow> string \<Rightarrow> string \<Rightarrow> 's \<times> unit result" where
  "rc_AddMember sv ep s t roomID userID =
     rpost sv ep s ''/rooms/members'' (JObj (jfields [(''tenant_id'', t), (''room_id'', roomID), (''user_id'', userID)])) decodeMap"

definition rc_IsRoomMember :: "'s dbmanServices \<Rightarrow> string \<Rightarrow> 's \<Rightarrow> string \<Rightarrow> string \<Rightarrow> string \<Rightarrow> 's \<times> bool result" where
  "rc_IsRoomMember sv ep s t roomID userID =
     rpost sv ep s ''/rooms/members/check'' (JObj (jfields [(''tenant_id'', t), (''room_id'', roomID), (''user_id'', userID)])) (decodeOne fBool ''ok'')"

definition rc_CreateMessage :: "'s dbmanServices \<Rightarrow> string \<Rightarrow> 's \<Rightarrow> Message \<Rightarrow> 's \<times> Message result" where
  "rc_CreateMessage sv ep s msg = rpost sv ep s ''/messages'' (messageJson msg) unmarshalMessage"

definition rc_MarkReadUpTo :: "'s dbmanServices \<Rightarrow> string \<Rightarrow> 's \<Rightarrow> string \<Rightarrow> string \<Rightarrow> string \<Rightarrow> string \<Rightarrow> 's \<times> unit result" where
  "rc_MarkReadUpTo sv ep s t roomID userID messageID =
     rpost sv ep s ''/messages/read'' (JObj (jfields [(''tenant_id'', t), (''room_id'', roomID), (''user_id'', userID), (''message_id'', messageID)])) decodeMap"

definition rc_SearchMessages ::
  "'s dbmanServices \<Rightarrow> string \<Rightarrow> 's \<Rightarrow> string \<Rightarrow> string \<Rightarrow> string option \<Rightarrow> int \<Rightarrow> string option \<Rightarrow> 's \<times> Message list result" where
  "rc_SearchMessages sv ep s t q roomID limit cursor =
     rpost sv ep s ''/messages/search'' (JObj [(''tenant_id'', JStr t), (''q'', JStr q), (''room_id'', jptr roomID), (''limit'', JNum limit),
       (''cursor_id'', jptr cursor)]) (decodeItems unmarshalMessage)"

definition rc_ListMessages :: "'s dbmanServices \<Rightarrow> string \<Rightarrow> 's \<Rightarrow> string \<Rightarrow> string \<Rightarrow> int \<Rightarrow> string option \<Rightarrow> 's \<times> Message list result" where
  "rc_ListMessages sv ep s t roomID limit cursor =
     rpost sv ep s ''/messages/list'' (JObj [(''tenant_id'', JStr t), (''room_id'', JStr roomID), (''limit'', JNum limit), (''cursor_id'', jptr cursor)])
       (decodeItems unmarshalMessage)"

definition rc_GetMessageReaders :: "'s dbmanServices \<Rightarrow> string \<Rightarrow> 's \<Rightarrow> string \<Rightarrow> string \<Rightarrow> string \<Rightarrow> 's \<times> MessageRead list result" where
  "rc_GetMessageReaders sv ep s t roomID messageID =
     rpost sv ep s ''/messages/readers'' (JObj (jfields [(''tenant_id'', t), (''room_id'', roomID), (''message_id'', messageID)])) (decodeItems unmarshalReader)"

definition rc_GetLastReadMessageID :: "'s dbmanServices \<Rightarrow> string \<Rightarrow> 's \<Rightarrow> string \<Rightarrow> string \<Rightarrow> string \<Rightarrow> 's \<times> string result" where
  "rc_GetLastReadMessageID sv ep s t roomID userID =
     rpost sv ep s ''/messages/last-read'' (JObj (jfields [(''tenant_id'', t), (''room_id'', roomID), (''user_id'', userID)])) (decodeOne fStr ''message_id'')"

definition rc_GetUnreadCount :: "'s dbmanServices \<Rightarrow> string \<Rightarrow> 's \<Rightarrow> string \<Rightarrow> string \<Rightarrow> string \<Rightarrow> 's \<times> nat result" where
  "rc_GetUnreadCount sv ep s t roomID userID =
     rpost sv ep s ''/messages/unread-count'' (JObj (jfields [(''tenant_id'', t), (''room_id'', roomID), (''user_id'', userID)]))
       (\<lambda>j. bindR (decodeOne fInt ''count'' j) (\<lambda>n. Inr (nat n)))"

definition rc_GetUnreadCounts :: "'s dbmanServices \<Rightarrow> string \<Rightarrow> 's \<Rightarrow> string \<Rightarrow> string \<Rightarrow> 's \<times> RoomUnread list result" where
  "rc_GetUnreadCounts sv ep s t userID =
     rpost sv ep s ''/messages/unread-counts'' (JObj (jfields [(''tenant_id'', t), (''user_id'', userID)])) (decodeItems unmarshalUnread)"

definition rc_ListMyRooms ::
  "'s dbmanServices \<Rightarrow> string \<Rightarrow> 's \<Rightarrow> string \<Rightarrow> string \<Rightarrow> int \<Rightarrow> time option \<Rightarrow> string option \<Rightarrow> 's \<times> ChatRoomSummary list result" where
  "rc_ListMyRooms sv ep s t userID limit cAt cRoom =
     rpost sv ep s ''/rooms/list'' (JObj [(''tenant_id'', JStr t), (''user_id'', JStr userID), (''limit'', JNum limit),
       (''cursor_created_at'', jtimeptr cAt), (''cursor_room_id'', jptr cRoom)]) (decodeItems unmarshalSummary)"

definition remoteChat :: "'s dbmanServices \<Rightarrow> string \<Rightarrow> 's chatStore" where
  "remoteChat sv ep =
     \<lparr>cs_createRoom = rc_CreateRoom sv ep, cs_addMember = rc_AddMember sv ep, cs_isMember = rc_IsRoomMember sv ep,
      cs_createMessage = rc_CreateMessage sv ep, cs_markRead = rc_MarkReadUpTo sv ep, cs_listMessages = rc_ListMessages sv ep,
      cs_searchMessages = rc_SearchMessages sv ep, cs_readers = rc_GetMessageReaders sv ep, cs_lastRead = rc_GetLastReadMessageID sv ep,
      cs_unread = rc_GetUnreadCount sv ep, cs_unreads = rc_GetUnreadCounts sv ep, cs_listRooms = rc_ListMyRooms sv ep\<rparr>"

section \<open>Tenants\<close>

definition rc_GetTenant :: "'s dbmanServices \<Rightarrow> string \<Rightarrow> 's \<Rightarrow> string \<Rightarrow> 's \<times> Tenant result" where
  "rc_GetTenant sv ep s t = rpost sv ep s ''/tenants/get'' (JObj (jfields [(''tenant_id'', t)])) unmarshalTenant"

text \<open>\<open>GetTenant\<close> and \<open>GetTenantMinIOMeta\<close> of the file server, which passes the fields on as they are.\<close>

definition fm_GetTenant :: "'s dbmanServices \<Rightarrow> string \<Rightarrow> 's \<Rightarrow> string \<Rightarrow> 's \<times> Tenant result" where
  "fm_GetTenant sv ep s t = rpost sv ep s ''/tenants/get'' (JObj (jfields [(''tenant_id'', t)])) unmarshalTenant"

definition GetTenantMinIOMeta :: "'s dbmanServices \<Rightarrow> string \<Rightarrow> 's \<Rightarrow> string \<Rightarrow> 's \<times> TenantMinIOMeta result" where
  "GetTenantMinIOMeta sv ep s t =
     (case fm_GetTenant sv ep s t of
        (s', Inl e) \<Rightarrow> (s', Inl e)
      | (s', Inr tn) \<Rightarrow> (s', Inr \<lparr>mo_Mode = tn_DeploymentMode tn, mo_Endpoint = tn_DedicatedMinIOEndpoint tn, mo_AccessKey = tn_DedicatedMinIOAccessKey tn,
          mo_SecretKey = tn_DedicatedMinIOSecretKey tn, mo_UseSSL = tn_DedicatedMinIOUseSSL tn, mo_Bucket = tn_DedicatedMinIOBucket tn, mo_IsActive = tn_IsActive tn\<rparr>))"

text \<open>The provider decodes three fields of the answer only.\<close>

definition GetTenantDBMeta :: "'s dbmanServices \<Rightarrow> string \<Rightarrow> 's \<Rightarrow> string \<Rightarrow> 's \<times> TenantDBMeta result" where
  "GetTenantDBMeta sv ep s t = rpost sv ep s ''/tenants/get'' (JObj (jfields [(''tenant_id'', t)]))
     (\<lambda>j. bindR (structFields j) (\<lambda>fs. bindR (fStr fs ''deployment_mode'') (\<lambda>m. bindR (fStr fs ''dedicated_dsn'') (\<lambda>d. bindR (fBool fs ''is_active'') (\<lambda>a.
        Inr \<lparr>DeploymentMode = ToLower (TrimSpace m), DedicatedDSN = TrimSpace d, IsActive = a\<rparr>)))))"

definition rc_ListTenants :: "'s dbmanServices \<Rightarrow> string \<Rightarrow> 's \<Rightarrow> 's \<times> Tenant list result" where
  "rc_ListTenants sv ep s = rpost sv ep s ''/tenants/list'' (JObj []) (decodeItems unmarshalTenant)"

definition rc_CreateTenant :: "'s dbmanServices \<Rightarrow> string \<Rightarrow> 's \<Rightarrow> Tenant \<Rightarrow> 's \<times> Tenant result" where
  "rc_CreateTenant sv ep s item = rpost sv ep s ''/tenants/create'' (tenantJson item) unmarshalTenant"

definition rc_UpdateTenantConfig :: "'s dbmanServices \<Rightarrow> string \<Rightarrow> 's \<Rightarrow> Tenant \<Rightarrow> 's \<times> Tenant result" where
  "rc_UpdateTenantConfig sv ep s item = rpost sv ep s ''/tenants/update'' (tenantJson item) unmarshalTenant"

definition remoteTenants :: "'s dbmanServices \<Rightarrow> string \<Rightarrow> 's tenantStore" where
  "remoteTenants sv ep = \<lparr>ts_list = rc_ListTenants sv ep, ts_create = rc_CreateTenant sv ep, ts_update = rc_UpdateTenantConfig sv ep\<rparr>"

definition rc_CreateFile :: "'s dbmanServices \<Rightarrow> string \<Rightarrow> 's \<Rightarrow> FileObject \<Rightarrow> 's \<times> FileObject result" where
  "rc_CreateFile sv ep s item = rpost sv ep s ''/files'' (fileJson item) unmarshalFile"

section \<open>Session client\<close>

definition rc_UpsertDeviceSession :: "'s dbmanServices \<Rightarrow> string \<Rightarrow> 's \<Rightarrow> DeviceSession \<Rightarrow> 's \<times> DeviceSession result" where
  "rc_UpsertDeviceSession sv ep s session = rpost sv ep s ''/session/device/login'' (sessionJson session) unmarshalSession"

definition rc_ValidateAndTouchSession :: "'s dbmanServices \<Rightarrow> string \<Rightarrow> 's \<Rightarrow> string \<Rightarrow> string \<Rightarrow> string \<Rightarrow> string \<Rightarrow> 's \<times> bool result" where
  "rc_ValidateAndTouchSession sv ep s t userID sid token =
     rpost sv ep s ''/session/device/validate''
       (JObj (jfields [(''tenant_id'', t), (''user_id'', userID), (''session_id'', sid), (''session_token'', token)])) (decodeOne fBool ''valid'')"

definition rc_UpdateSessionUserStatus :: "'s dbmanServices \<Rightarrow> string \<Rightarrow> 's \<Rightarrow> UserStatus \<Rightarrow> 's \<times> unit result" where
  "rc_UpdateSessionUserStatus sv ep s status = rpost sv ep s ''/session/status/update'' (statusJson status) decodeMap"

definition rc_CreateSessionNote :: "'s dbmanServices \<Rightarrow> string \<Rightarrow> 's \<Rightarrow> Note \<Rightarrow> 's \<times> Note result" where
  "rc_CreateSessionNote sv ep s note = rpost sv ep s ''/session/notes/create'' (noteJson note) unmarshalNote"

definition rc_ListSessionInbox :: "'s dbmanServices \<Rightarrow> string \<Rightarrow> 's \<Rightarrow> string \<Rightarrow> string \<Rightarrow> int \<Rightarrow> 's \<times> NoteInboxItem list result" where
  "rc_ListSessionInbox sv ep s t userID limit =
     rpost sv ep s ''/session/notes/inbox'' (JObj [(''tenant_id'', JStr t), (''user_id'', JStr userID), (''limit'', JNum limit)]) (decodeItems unmarshalInbox)"

definition rc_MarkSessionNoteRead :: "'s dbmanServices \<Rightarrow> string \<Rightarrow> 's \<Rightarrow> string \<Rightarrow> string \<Rightarrow> string \<Rightarrow> 's \<times> unit result" where
  "rc_MarkSessionNoteRead sv ep s t userID noteID =
     rpost sv ep s ''/session/notes/read'' (JObj (jfields [(''tenant_id'', t), (''user_id'', userID), (''note_id'', noteID)])) decodeMap"

definition rc_SaveSessionChatNotifications :: "'s dbmanServices \<Rightarrow> string \<Rightarrow> 's \<Rightarrow> string \<Rightarrow> string \<Rightarrow> ChatNotifyInput \<Rightarrow> 's \<times> unit result" where
  "rc_SaveSessionChatNotifications sv ep s t sender inp =
     rpost sv ep s ''/session/chat/notify'' (JObj [(''tenant_id'', JStr t), (''sender_user_id'', JStr sender), (''input'', notifyJson inp)]) decodeMap"

definition remoteSessions :: "'s dbmanServices \<Rightarrow> string \<Rightarrow> 's sessionStore" where
  "remoteSessions sv ep =
     \<lparr>store_upsert = rc_UpsertDeviceSession sv ep, store_validate = rc_ValidateAndTouchSession sv ep, store_status = rc_UpdateSessionUserStatus sv ep,
      store_note = rc_CreateSessionNote sv ep, store_inbox = rc_ListSessionInbox sv ep, store_read = rc_MarkSessionNoteRead sv ep,
      store_notifications = rc_SaveSessionChatNotifications sv ep\<rparr>"

section \<open>OrgHub client\<close>

definition rc_CreateOrgUnit :: "'s dbmanServices \<Rightarrow> string \<Rightarrow> 's \<Rightarrow> string \<Rightarrow> string option \<Rightarrow> string \<Rightarrow> 's \<times> string result" where
  "rc_CreateOrgUnit sv ep s t parent nm =
     rpost sv ep s ''/org-units/create'' (JObj [(''tenant_id'', JStr t), (''parent_id'', jptr parent), (''name'', JStr nm)]) (decodeOne fStr ''id'')"

definition rc_ListOrgUnits :: "'s dbmanServices \<Rightarrow> string \<Rightarrow> 's \<Rightarrow> string \<Rightarrow> 's \<times> OrgUnit list result" where
  "rc_ListOrgUnits sv ep s t = rpost sv ep s ''/org-units/list'' (JObj (jfields [(''tenant_id'', t)])) (decodeItems unmarshalOrg)"

definition rc_CreateUser :: "'s dbmanServices \<Rightarrow> string \<Rightarrow> 's \<Rightarrow> string \<Rightarrow> User \<Rightarrow> 's \<times> string result" where
  "rc_CreateUser sv ep s t user =
     rpost sv ep s ''/users/create'' (JObj [(''tenant_id'', JStr t), (''user'', userJson user)]) (decodeOne fStr ''id'')"

definition rc_UpdateUserStatus :: "'s dbmanServices \<Rightarrow> string \<Rightarrow> 's \<Rightarrow> string \<Rightarrow> string \<Rightarrow> string \<Rightarrow> string \<Rightarrow> 's \<times> unit result" where
  "rc_UpdateUserStatus sv ep s t userID status nt =
     rpost sv ep s ''/users/status'' (JObj (jfields [(''tenant_id'', t), (''user_id'', userID), (''status'', status), (''note'', nt)])) decodeMap"

definition rc_SearchUsers :: "'s dbmanServices \<Rightarrow> string \<Rightarrow> 's \<Rightarrow> string \<Rightarrow> string \<Rightarrow> int \<Rightarrow> 's \<times> User list result" where
  "rc_SearchUsers sv ep s t q limit =
     rpost sv ep s ''/users/search'' (JObj [(''tenant_id'', JStr t), (''q'', JStr q), (''limit'', JNum limit)]) (decodeItems unmarshalUser)"

definition rc_AuthenticateUser :: "'s dbmanServices \<Rightarrow> string \<Rightarrow> 's \<Rightarrow> string \<Rightarrow> string \<Rightarrow> string \<Rightarrow> 's \<times> User result" where
  "rc_AuthenticateUser sv ep s t em pw =
     rpost sv ep s ''/users/authenticate'' (JObj (jfields [(''tenant_id'', t), (''email'', em), (''password'', pw)])) unmarshalUser"

definition rc_ListAliases :: "'s dbmanServices \<Rightarrow> string \<Rightarrow> 's \<Rightarrow> string \<Rightarrow> string \<Rightarrow> 's \<times> string list result" where
  "rc_ListAliases sv ep s t userID =
     rpost sv ep s ''/users/aliases/list'' (JObj (jfields [(''tenant_id'', t), (''user_id'', userID)])) (decodeItems (\<lambda>j. decodeStr j ''''))"

definition rc_AddAlias :: "'s dbmanServices \<Rightarrow> string \<Rightarrow> 's \<Rightarrow> string \<Rightarrow> string \<Rightarrow> string \<Rightarrow> string \<Rightarrow> string \<Rightarrow> 's \<times> unit result" where
  "rc_AddAlias sv ep s t userID a ip ua =
     rpost sv ep s ''/users/aliases/add''
       (JObj (jfields [(''tenant_id'', t), (''user_id'', userID), (''alias'', a), (''ip'', ip), (''user_agent'', ua)])) decodeMap"

definition rc_DeleteAlias :: "'s dbmanServices \<Rightarrow> string \<Rightarrow> 's \<Rightarrow> string \<Rightarrow> string \<Rightarrow> string \<Rightarrow> string \<Rightarrow> string \<Rightarrow> 's \<times> unit result" where
  "rc_DeleteAlias sv ep s t userID a ip ua =
     rpost sv ep s ''/users/aliases/delete''
       (JObj (jfields [(''tenant_id'', t), (''user_id'', userID), (''alias'', a), (''ip'', ip), (''user_agent'', ua)])) decodeMap"

definition rc_ListAliasAudit ::
  "'s dbmanServices \<Rightarrow> string \<Rightarrow> 's \<Rightarrow> string \<Rightarrow> string \<Rightarrow> int \<Rightarrow> auditFilter \<Rightarrow> time option \<Rightarrow> string option \<Rightarrow> 's \<times> AliasAudit list result" where
  "rc_ListAliasAudit sv ep s t userID limit f cAt cID =
     rpost sv ep s ''/users/aliases/audit''
       (JObj [(''tenant_id'', JStr t), (''user_id'', JStr userID), (''limit'', JNum limit), (''from'', jtimeptr (af_from f)), (''to'', jtimeptr (af_to f)),
         (''action'', JStr (af_action f)), (''cursor_created_at'', jtimeptr cAt), (''cursor_id'', jptr cID)]) (decodeItems unmarshalAudit)"

definition remoteUsers :: "'s dbmanServices \<Rightarrow> string \<Rightarrow> 's userStore" where
  "remoteUsers sv ep =
     \<lparr>os_createOrg = rc_CreateOrgUnit sv ep, os_listOrgs = rc_ListOrgUnits sv ep, os_createUser = rc_CreateUser sv ep, os_status = rc_UpdateUserStatus sv ep,
      os_search = rc_SearchUsers sv ep, os_auth = rc_AuthenticateUser sv ep, os_aliases = rc_ListAliases sv ep, os_addAlias = rc_AddAlias sv ep,
      os_deleteAlias = rc_DeleteAlias sv ep, os_audit = rc_ListAliasAudit sv ep\<rparr>"


section \<open>The wire is transparent\<close>

text \<open>What an operation looks like through the client: errors lose their text.\<close>

definition opaque :: "nat \<Rightarrow> string \<Rightarrow> 's \<times> 'a result \<Rightarrow> 's \<times> 'a result" where
  "opaque code ep out = (case out of (s', Inl _) \<Rightarrow> (s', Inl (err_status (int code) ep)) | (s', Inr x) \<Rightarrow> (s', Inr x))"

definition refused :: "string \<Rightarrow> 's \<Rightarrow> 's \<times> 'a result" where
  "refused ep s = (s, Inl (err_status 400 ep))"

lemma groupPath_BasePath [simp]: "groupPath (BasePath @ p) = Some p"
  by (simp add: groupPath_def BasePath_def HasPrefix_def TrimPrefix_def)

lemma decode_answers [simp]:
  "decodeMap NewOKResponse = Inr ()"
  "decodeOne fStr ''id'' (NewIDResponse i) = Inr i"
  "decodeOne fStr ''room_id'' (JObj [(''room_id'', JStr i)]) = Inr i"
  "decodeOne fStr ''message_id'' (JObj [(''message_id'', JStr i)]) = Inr i"
  "decodeOne fBool ''ok'' (JObj [(''ok'', JBool b)]) = Inr b"
  "decodeOne fBool ''valid'' (JObj [(''valid'', JBool b)]) = Inr b"
  "decodeOne fInt ''count'' (JObj [(''count'', JNum n)]) = Inr n"
  by (simp_all add: decodeMap_def decodeOne_def NewOKResponse_def NewIDResponse_def field_defs)

lemma decodeItems_jitems: "(\<And>x. dec (js x) = Inr x) \<Longrightarrow> decodeItems dec (jitems js xs) = Inr xs"
  by (simp add: decodeItems_def jitems_def decodeList_JArr)

lemma decodeItems_all [simp]:
  "decodeItems unmarshalMessage (jitems messageJson a1) = Inr a1"
  "decodeItems unmarshalReader (jitems readerJson a2) = Inr a2"
  "decodeItems unmarshalUnread (jitems unreadJson a3) = Inr a3"
  "decodeItems unmarshalSummary (jitems summaryJson a4) = Inr a4"
  "decodeItems unmarshalTenant (jitems tenantJson a5) = Inr a5"
  "decodeItems unmarshalInbox (jitems inboxJson a6) = Inr a6"
  "decodeItems unmarshalOrg (jitems orgJson a7) = Inr a7"
  "decodeItems unmarshalAudit (jitems auditJson a8) = Inr a8"
  "decodeItems (\<lambda>j. decodeStr j '''') (jstrs a9) = Inr a9"
  by (rule decodeItems_jitems, simp)+ (simp add: decodeItems_def)

lemma decode_pointers [simp]:
  "decodeStrPtr (jptr p) old = Inr p" "decodeTimePtr (jtimeptr q) old' = Inr q"
  by (simp_all add: jptr_def jtimeptr_def split: option.split)

text \<open>A request that is answered by \<open>answer\<close>, and one that is refused.\<close>

lemma callResult_answer:
  assumes "\<And>x. dec (js x) = Inr x" "okay < 300" "300 \<le> failed"
  shows "(case answer failed okay js out of (s', resp) \<Rightarrow> (s', callResult ep dec resp)) = opaque failed ep out"
  using assms by (auto simp: answer_def callResult_def opaque_def split: prod.splits sum.splits)

lemma rpost_handler:
  "map_of postRoutes path = Some h \<Longrightarrow> rpost sv ep s path payload dec = (case h sv s (Inr payload) of (s', resp) \<Rightarrow> (s', callResult ep dec resp))"
  by (simp add: rpost_def dbman_post_def)

lemma callResult_withJSON:
  assumes "decReq payload = Inr req"
  shows "withJSON (Inr payload) decReq s f = f req"
  using assms by (simp add: withJSON_def withBody_def)

lemma callResult_refused:
  assumes "decReq payload = Inl e"
  shows "(case withJSON (Inr payload) decReq s f of (s', resp) \<Rightarrow> (s', callResult ep dec resp)) = refused ep s"
  using assms by (simp add: withJSON_def withBody_def callResult_def refused_def)

lemma routes [simp]:
  "map_of postRoutes ''/org-units/create'' = Some db_createOrgUnit" "map_of postRoutes ''/org-units/list'' = Some db_listOrgUnits"
  "map_of postRoutes ''/users/create'' = Some db_createUser" "map_of postRoutes ''/users/status'' = Some db_updateUserStatus"
  "map_of postRoutes ''/users/search'' = Some db_searchUsers" "map_of postRoutes ''/users/authenticate'' = Some db_authenticateUser"
  "map_of postRoutes ''/users/aliases/list'' = Some db_listAliases" "map_of postRoutes ''/users/aliases/add'' = Some db_addAlias"
  "map_of postRoutes ''/users/aliases/delete'' = Some db_deleteAlias" "map_of postRoutes ''/users/aliases/audit'' = Some db_listAliasAudit"
  "map_of postRoutes ''/tenants/list'' = Some db_listTenants" "map_of postRoutes ''/tenants/get'' = Some db_getTenant"
  "map_of postRoutes ''/tenants/create'' = Some db_createTenant" "map_of postRoutes ''/tenants/update'' = Some db_updateTenant"
  "map_of postRoutes ''/files'' = Some db_createFile" "map_of postRoutes ''/rooms'' = Some db_createRoom"
  "map_of postRoutes ''/rooms/members'' = Some db_addMember" "map_of postRoutes ''/rooms/members/check'' = Some db_checkRoomMember"
  "map_of postRoutes ''/messages'' = Some db_createMessage" "map_of postRoutes ''/messages/read'' = Some db_markReadUpTo"
  "map_of postRoutes ''/messages/list'' = Some db_listMessages" "map_of postRoutes ''/messages/search'' = Some db_searchMessages"
  "map_of postRoutes ''/messages/readers'' = Some db_messageReaders" "map_of postRoutes ''/messages/last-read'' = Some db_lastReadMessage"
  "map_of postRoutes ''/messages/unread-count'' = Some db_unreadCount" "map_of postRoutes ''/messages/unread-counts'' = Some db_unreadCounts"
  "map_of postRoutes ''/rooms/list'' = Some db_listMyRooms" "map_of postRoutes ''/session/device/login'' = Some db_upsertDeviceSession"
  "map_of postRoutes ''/session/device/validate'' = Some db_validateSession"
  "map_of postRoutes ''/session/status/update'' = Some db_updateSessionUserStatus"
  "map_of postRoutes ''/session/notes/create'' = Some db_createSessionNote" "map_of postRoutes ''/session/notes/inbox'' = Some db_listSessionInbox"
  "map_of postRoutes ''/session/notes/read'' = Some db_markSessionNoteRead"
  "map_of postRoutes ''/session/chat/notify'' = Some db_saveSessionChatNotifications"
  by (simp_all add: postRoutes_def)

lemmas request_defs = bind1_def bind2_def bind3_def bind4_def bindInbox_def bindNotify_def bindOrgUnit_def bindUser_def bindUserStatus_def bindSearchUsers_def
  bindAlias_def bindAudit_def bindSearch_def bindRoom_def bindList_def bindMyRooms_def fStruct_def field_defs jfields_def

lemma mapR_single [simp]: "mapR f [x] = bindR (f x) (\<lambda>y. Inr [y])"
  by (simp add: bindR_def)

lemma withJSON_required:
  "withJSON (Inr payload) decReq s f =
     (case decReq payload of Inl e \<Rightarrow> (s, (400, NewErrorResponse e)) | Inr req \<Rightarrow> f req)"
  by (simp add: withJSON_def withBody_def)

lemma required_ok: "\<forall>(k, v) \<in> set ks. v \<noteq> '''' \<Longrightarrow> required ks x = Inr x"
  by (induction ks) (auto simp: required_def)

lemma required_blank: "(k, '''') \<in> set ks \<Longrightarrow> \<exists>e. required ks x = Inl e"
  by (induction ks) (auto simp: required_def)

text \<open>The two outcomes of a request whose handler starts with \<open>ShouldBindJSON\<close>.\<close>

lemma rpost_required:
  assumes "map_of postRoutes path = Some h" "\<And>s body. h sv s body = withJSON body decReq s (f s)"
    and "decReq payload = required ks req"
    and "\<And>s. (case f s req of (s', resp) \<Rightarrow> (s', callResult ep dec resp)) = out s"
    and "vs = set (map snd ks)"
  shows "rpost sv ep s path payload dec = (if '''' \<in> vs then refused ep s else out s)"
proof (cases "'''' \<in> snd ` set ks")
  case True
  then obtain k where "(k, '''') \<in> set ks" by force
  from required_blank[OF this, of req] show ?thesis
    using True by (auto simp: assms(5) rpost_handler[OF assms(1)] assms(2,3) withJSON_required callResult_def refused_def)
next
  case False
  then have "required ks req = Inr req" by (intro required_ok) force
  then show ?thesis
    using False by (simp add: assms(5) rpost_handler[OF assms(1)] assms(2,3) withJSON_required assms(4)[symmetric])
qed

lemma remote_addMember:
  "rc_AddMember sv ep s t r u =
     (if '''' \<in> {t, r, u} then refused ep s else opaque 500 ep (cs_addMember (dm_chat sv) s t r u))"
  unfolding rc_AddMember_def
  by (rule rpost_required[OF routes(17) db_addMember_def], simp add: request_defs, simp_all add: callResult_answer)


lemma remote_isMember:
  "rc_IsRoomMember sv ep s t r u = (if '''' \<in> {t, r, u} then refused ep s else opaque 500 ep (cs_isMember (dm_chat sv) s t r u))"
  unfolding rc_IsRoomMember_def
  by (rule rpost_required[OF routes(18) db_checkRoomMember_def], simp add: request_defs, simp_all add: callResult_answer)

lemma remote_markRead:
  "rc_MarkReadUpTo sv ep s t r u i = (if '''' \<in> {t, r, u, i} then refused ep s else opaque 500 ep (cs_markRead (dm_chat sv) s t r u i))"
  unfolding rc_MarkReadUpTo_def
  by (rule rpost_required[OF routes(20) db_markReadUpTo_def], simp add: request_defs, simp_all add: callResult_answer)

lemma remote_listMessages:
  "rc_ListMessages sv ep s t r n c = (if '''' \<in> {t, r} then refused ep s else opaque 500 ep (cs_listMessages (dm_chat sv) s t r (clampLimit 200 50 n) c))"
  unfolding rc_ListMessages_def
  by (rule rpost_required[OF routes(21) db_listMessages_def], simp add: request_defs, simp_all add: callResult_answer)

lemma remote_searchMessages:
  "rc_SearchMessages sv ep s t q r n c =
     (if '''' \<in> {t, q} then refused ep s else opaque 500 ep (cs_searchMessages (dm_chat sv) s t q r (clampLimit 200 30 n) c))"
  unfolding rc_SearchMessages_def
  by (rule rpost_required[OF routes(22) db_searchMessages_def], simp add: request_defs, simp_all add: callResult_answer)

lemma remote_readers:
  "rc_GetMessageReaders sv ep s t r i = (if '''' \<in> {t, r, i} then refused ep s else opaque 500 ep (cs_readers (dm_chat sv) s t r i))"
  unfolding rc_GetMessageReaders_def
  by (rule rpost_required[OF routes(23) db_messageReaders_def], simp add: request_defs, simp_all add: callResult_answer)

lemma remote_lastRead:
  "rc_GetLastReadMessageID sv ep s t r u = (if '''' \<in> {t, r, u} then refused ep s else opaque 500 ep (cs_lastRead (dm_chat sv) s t r u))"
  unfolding rc_GetLastReadMessageID_def
  by (rule rpost_required[OF routes(24) db_lastReadMessage_def], simp add: request_defs, simp_all add: callResult_answer)

lemma remote_unread:
  "rc_GetUnreadCount sv ep s t r u = (if '''' \<in> {t, r, u} then refused ep s else opaque 500 ep (cs_unread (dm_chat sv) s t r u))"
  unfolding rc_GetUnreadCount_def
  by (rule rpost_required[OF routes(25) db_unreadCount_def], simp add: request_defs, simp_all add: callResult_answer)

lemma remote_unreads:
  "rc_GetUnreadCounts sv ep s t u = (if '''' \<in> {t, u} then refused ep s else opaque 500 ep (cs_unreads (dm_chat sv) s t u))"
  unfolding rc_GetUnreadCounts_def
  by (rule rpost_required[OF routes(26) db_unreadCounts_def], simp add: request_defs, simp_all add: callResult_answer)

lemma remote_listRooms:
  "rc_ListMyRooms sv ep s t u n cAt cR =
     (if '''' \<in> {t, u} then refused ep s else opaque 500 ep (cs_listRooms (dm_chat sv) s t u (clampLimit 200 50 n) cAt cR))"
  unfolding rc_ListMyRooms_def
  by (rule rpost_required[OF routes(27) db_listMyRooms_def], simp add: request_defs, simp_all add: callResult_answer)

lemma callResult_bad [simp]: "callResult ep dec (400, j) = Inl (err_status 400 ep)"
  by (simp add: callResult_def)

lemma roomJson_fields: "\<exists>fs. roomJson x = JObj fs"
  by (simp add: roomJson_def)

lemma fStruct_room [simp]: "fStruct unmarshalRoom [(''tenant_id'', JStr t), (''room'', roomJson x), (''member_ids'', jstrs ms)] ''room'' = Inr x"
proof -
  obtain fs where fs: "roomJson x = JObj fs" using roomJson_fields by blast
  then show ?thesis using unmarshal_room[of x] by (simp add: fStruct_def)
qed

lemma remote_createRoom:
  "rc_CreateRoom sv ep s t room ms =
     (if '''' \<in> {t, cr_Name room, cr_RoomType room, cr_CreatedBy room} then refused ep s
      else opaque 500 ep (cs_createRoom (dm_chat sv) s t room ms))"
proof -
  have "rc_CreateRoom sv ep s t room ms =
     (if '''' \<in> {t} then refused ep s
      else if '''' \<in> {cr_Name room, cr_RoomType room, cr_CreatedBy room} then refused ep s
      else opaque 500 ep (cs_createRoom (dm_chat sv) s t room ms))"
    unfolding rc_CreateRoom_def
    by (rule rpost_required[OF routes(16) db_createRoom_def], simp add: bindRoom_def field_defs)
      (auto simp: callResult_answer refused_def)
  then show ?thesis by auto
qed

lemma remote_createMessage:
  "rc_CreateMessage sv ep s msg =
     (if '''' \<in> {ms_TenantID msg, ms_RoomID msg, ms_SenderID msg} then refused ep s else opaque 500 ep (cs_createMessage (dm_chat sv) s msg))"
  unfolding rc_CreateMessage_def rpost_handler[OF routes(19)] db_createMessage_def withJSON_required
  by (auto simp: refused_def callResult_answer)

lemmas remote_chat = remote_createRoom remote_addMember remote_isMember remote_createMessage remote_markRead remote_listMessages remote_searchMessages
  remote_readers remote_lastRead remote_unread remote_unreads remote_listRooms


subsection \<open>Sessions\<close>

lemma remote_upsert: "rc_UpsertDeviceSession sv ep s x = opaque 500 ep (store_upsert (dm_session sv) s x)"
  unfolding rc_UpsertDeviceSession_def rpost_handler[OF routes(28)] db_upsertDeviceSession_def withJSON_required
  by (simp add: callResult_answer)

lemma remote_validate:
  "rc_ValidateAndTouchSession sv ep s t u sid k =
     (if '''' \<in> {t, u, sid, k} then refused ep s else opaque 500 ep (store_validate (dm_session sv) s t u sid k))"
  unfolding rc_ValidateAndTouchSession_def
  by (rule rpost_required[OF routes(29) db_validateSession_def], simp add: request_defs, simp_all add: callResult_answer)

lemma remote_status: "rc_UpdateSessionUserStatus sv ep s x = opaque 500 ep (store_status (dm_session sv) s x)"
  unfolding rc_UpdateSessionUserStatus_def rpost_handler[OF routes(30)] db_updateSessionUserStatus_def withJSON_required
  by (simp add: callResult_answer)

lemma remote_note: "rc_CreateSessionNote sv ep s x = opaque 500 ep (store_note (dm_session sv) s x)"
  unfolding rc_CreateSessionNote_def rpost_handler[OF routes(31)] db_createSessionNote_def withJSON_required
  by (simp add: callResult_answer)

lemma remote_inbox:
  "rc_ListSessionInbox sv ep s t u n = (if '''' \<in> {t, u} then refused ep s else opaque 500 ep (store_inbox (dm_session sv) s t u (clampLimit 200 50 n)))"
  unfolding rc_ListSessionInbox_def
  by (rule rpost_required[OF routes(32) db_listSessionInbox_def], simp add: request_defs, simp_all add: callResult_answer)

lemma remote_read:
  "rc_MarkSessionNoteRead sv ep s t u i = (if '''' \<in> {t, u, i} then refused ep s else opaque 500 ep (store_read (dm_session sv) s t u i))"
  unfolding rc_MarkSessionNoteRead_def
  by (rule rpost_required[OF routes(33) db_markSessionNoteRead_def], simp add: request_defs, simp_all add: callResult_answer)

lemma fStruct_object:
  assumes "\<exists>fs. js x = JObj fs" "dec (js x) = Inr y" "fieldValues k gs = [js x]"
  shows "fStruct dec gs k = Inr y"
  using assms by (auto simp: fStruct_def)

lemma remote_notifications:
  "rc_SaveSessionChatNotifications sv ep s t u inp = (if '''' \<in> {t, u} then refused ep s else opaque 500 ep (store_notifications (dm_session sv) s t u inp))"
proof -
  have inp: "fStruct unmarshalNotify [(''tenant_id'', JStr t), (''sender_user_id'', JStr u), (''input'', notifyJson inp)] ''input'' = Inr inp"
    by (rule fStruct_object[where js = notifyJson and x = inp]) (simp_all, simp add: notifyJson_def)
  show ?thesis
    unfolding rc_SaveSessionChatNotifications_def
    by (rule rpost_required[OF routes(34) db_saveSessionChatNotifications_def], simp add: bindNotify_def field_defs inp, simp_all add: callResult_answer)
qed

lemmas remote_session = remote_upsert remote_validate remote_status remote_note remote_inbox remote_read remote_notifications

subsection \<open>Users\<close>

lemma remote_createOrg:
  "rc_CreateOrgUnit sv ep s t p n = (if '''' \<in> {t, n} then refused ep s else opaque 500 ep (os_createOrg (dm_user sv) s t p n))"
  unfolding rc_CreateOrgUnit_def
  by (rule rpost_required[OF routes(1) db_createOrgUnit_def], simp add: request_defs, simp_all add: callResult_answer)

lemma remote_listOrgs:
  "rc_ListOrgUnits sv ep s t = (if '''' \<in> {t} then refused ep s else opaque 500 ep (os_listOrgs (dm_user sv) s t))"
  unfolding rc_ListOrgUnits_def
  by (rule rpost_required[OF routes(2) db_listOrgUnits_def], simp add: request_defs, simp_all add: callResult_answer)

text \<open>The password does not cross the wire.\<close>

lemma remote_createUser:
  "rc_CreateUser sv ep s t u = (if '''' \<in> {t} then refused ep s else opaque 500 ep (os_createUser (dm_user sv) s t (u\<lparr>us_PasswordHash := ''''\<rparr>)))"
proof -
  have user: "fStruct unmarshalUser [(''tenant_id'', JStr t), (''user'', userJson u)] ''user'' = Inr (u\<lparr>us_PasswordHash := ''''\<rparr>)"
    by (rule fStruct_object[where js = userJson and x = u]) (simp_all, simp add: userJson_def)
  show ?thesis
    unfolding rc_CreateUser_def
    by (rule rpost_required[OF routes(3) db_createUser_def], simp add: bindUser_def field_defs user, simp_all add: callResult_answer)
qed

lemma remote_userStatus:
  "rc_UpdateUserStatus sv ep s t u st nt = (if '''' \<in> {t, u, st} then refused ep s else opaque 500 ep (os_status (dm_user sv) s t u st nt))"
  unfolding rc_UpdateUserStatus_def
  by (rule rpost_required[OF routes(4) db_updateUserStatus_def], simp add: request_defs, simp_all add: callResult_answer)

definition withoutHash :: "User \<Rightarrow> User" where
  "withoutHash u = u\<lparr>us_PasswordHash := ''''\<rparr>"

definition mapRes :: "('a \<Rightarrow> 'b) \<Rightarrow> 's \<times> 'a result \<Rightarrow> 's \<times> 'b result" where
  "mapRes f out = (case out of (s', Inl e) \<Rightarrow> (s', Inl e) | (s', Inr x) \<Rightarrow> (s', Inr (f x)))"

lemma callResult_answer_map:
  assumes "\<And>x. dec (js x) = Inr (g x)" "okay < 300" "300 \<le> failed"
  shows "(case answer failed okay js out of (s', resp) \<Rightarrow> (s', callResult ep dec resp)) = opaque failed ep (mapRes g out)"
  using assms by (auto simp: answer_def callResult_def opaque_def mapRes_def split: prod.splits sum.splits)

lemma decodeItems_users: "decodeItems unmarshalUser (jitems userJson xs) = Inr (map withoutHash xs)"
  unfolding decodeItems_def jitems_def decodeList_def by (induction xs) (simp_all add: withoutHash_def)

lemma remote_searchUsers:
  "rc_SearchUsers sv ep s t q n =
     (if '''' \<in> {t, q} then refused ep s else opaque 500 ep (mapRes (map withoutHash) (os_search (dm_user sv) s t q (clampLimit 100 20 n))))"
  unfolding rc_SearchUsers_def
  by (rule rpost_required[OF routes(5) db_searchUsers_def], simp add: request_defs, simp_all add: callResult_answer_map decodeItems_users)

lemma remote_auth:
  "rc_AuthenticateUser sv ep s t em pw =
     (if '''' \<in> {t, em, pw} then refused ep s else opaque 401 ep (mapRes withoutHash (os_auth (dm_user sv) s t em pw)))"
  unfolding rc_AuthenticateUser_def
  by (rule rpost_required[OF routes(6) db_authenticateUser_def], simp add: request_defs)
    (auto simp: callResult_def opaque_def mapRes_def withoutHash_def split: prod.splits sum.splits)

lemma remote_aliases:
  "rc_ListAliases sv ep s t u = (if '''' \<in> {t, u} then refused ep s else opaque 500 ep (os_aliases (dm_user sv) s t u))"
  unfolding rc_ListAliases_def
  by (rule rpost_required[OF routes(7) db_listAliases_def], simp add: request_defs, simp_all add: callResult_answer)

lemma remote_addAlias:
  "rc_AddAlias sv ep s t u a ip ua = (if '''' \<in> {t, u, a} then refused ep s else opaque 500 ep (os_addAlias (dm_user sv) s t u a ip ua))"
  unfolding rc_AddAlias_def
  by (rule rpost_required[OF routes(8) db_addAlias_def], simp add: request_defs, simp_all add: callResult_answer)

lemma remote_deleteAlias:
  "rc_DeleteAlias sv ep s t u a ip ua = (if '''' \<in> {t, u, a} then refused ep s else opaque 500 ep (os_deleteAlias (dm_user sv) s t u a ip ua))"
  unfolding rc_DeleteAlias_def
  by (rule rpost_required[OF routes(9) db_deleteAlias_def], simp add: request_defs, simp_all add: callResult_answer)

lemma auditFilter_eta [simp]: "\<lparr>af_from = af_from f, af_to = af_to f, af_action = af_action f\<rparr> = f"
  by simp

lemma remote_audit:
  "rc_ListAliasAudit sv ep s t u n f cAt cID =
     (if '''' \<in> {t, u} then refused ep s else opaque 500 ep (os_audit (dm_user sv) s t u (clampLimit 200 50 n) f cAt cID))"
  unfolding rc_ListAliasAudit_def
  by (rule rpost_required[OF routes(10) db_listAliasAudit_def], simp add: request_defs, simp_all add: callResult_answer)

lemmas remote_user = remote_createOrg remote_listOrgs remote_createUser remote_userStatus remote_searchUsers remote_auth remote_aliases remote_addAlias
  remote_deleteAlias remote_audit

subsection \<open>Tenants and files\<close>

lemma remote_listTenants: "rc_ListTenants sv ep s = opaque 500 ep (ts_list (dm_tenant sv) s)"
  unfolding rc_ListTenants_def rpost_handler[OF routes(11)] db_listTenants_def by (simp add: callResult_answer)

lemma fm_getTenant: "fm_GetTenant sv ep s t = rc_GetTenant sv ep s t"
  by (simp add: fm_GetTenant_def rc_GetTenant_def)

lemma remote_getTenant: "rc_GetTenant sv ep s t = (if '''' \<in> {t} then refused ep s else opaque 500 ep (dm_getTenant sv s t))"
  unfolding rc_GetTenant_def
  by (rule rpost_required[OF routes(12) db_getTenant_def], simp add: request_defs, simp_all add: callResult_answer)

lemma remote_createTenant: "rc_CreateTenant sv ep s x = opaque 500 ep (ts_create (dm_tenant sv) s x)"
  unfolding rc_CreateTenant_def rpost_handler[OF routes(13)] db_createTenant_def withJSON_required by (simp add: callResult_answer)

lemma remote_updateTenant: "rc_UpdateTenantConfig sv ep s x = opaque 500 ep (ts_update (dm_tenant sv) s x)"
  unfolding rc_UpdateTenantConfig_def rpost_handler[OF routes(14)] db_updateTenant_def withJSON_required by (simp add: callResult_answer)

lemma remote_tenantMeta:
  "GetTenantDBMeta sv ep s t =
     (if '''' \<in> {t} then refused ep s else case opaque 500 ep (dm_getTenant sv s t) of (s', out) \<Rightarrow> (s', tenantMeta out))"
  unfolding GetTenantDBMeta_def
  by (rule rpost_required[OF routes(12) db_getTenant_def], simp add: request_defs)
    (auto simp: callResult_def opaque_def answer_def tenantMeta_def tenantJson_def field_defs split: prod.splits sum.splits)

lemma remote_createFile:
  "rc_CreateFile sv ep s x =
     (if '''' \<in> {fo_TenantID x, fo_RoomID x, fo_UploaderID x, fo_ObjectKey x, fo_ContentType x, fo_OriginalName x} then refused ep s
      else opaque 500 ep (dm_createFile sv s x))"
  unfolding rc_CreateFile_def rpost_handler[OF routes(15)] db_createFile_def withJSON_required
  by (auto simp: refused_def callResult_answer)


section \<open>The running data base server\<close>

definition repoSessions :: "'p dbEnv \<Rightarrow> sqlEnv \<Rightarrow> 'p Repo sessionStore" where
  "repoSessions penv env =
     \<lparr>store_upsert = (\<lambda>r. UpsertDeviceSession r penv env), store_validate = (\<lambda>r. ValidateAndTouchSession r penv env),
      store_status = (\<lambda>r. UpdateUserStatus r penv env), store_note = (\<lambda>r. CreateNote r penv env), store_inbox = (\<lambda>r. ListInbox r penv env),
      store_read = (\<lambda>r. MarkNoteRead r penv env), store_notifications = (\<lambda>r. SaveChatNotifications r penv env)\<rparr>"

definition repoTenants :: "sqlEnv \<Rightarrow> 'p Repo tenantStore" where
  "repoTenants env =
     \<lparr>ts_list = (\<lambda>r. tenant_List r env), ts_create = (\<lambda>r item. case tsvc_Create r env item of (r', out, _) \<Rightarrow> (r', out)),
      ts_update = (\<lambda>r item. case tsvc_UpdateConfig r env item of (r', out, _) \<Rightarrow> (r', out))\<rparr>"

definition dbman :: "bcryptLib \<Rightarrow> userMatch \<Rightarrow> 'p dbEnv \<Rightarrow> sqlEnv \<Rightarrow> pgText \<Rightarrow> ('p Repo \<Rightarrow> unit result) \<Rightarrow> 'p Repo dbmanServices" where
  "dbman bc um penv env pg ready =
     \<lparr>dm_chat = repoStore penv env pg, dm_user = repoUsers bc um penv env pg, dm_session = repoSessions penv env, dm_tenant = repoTenants env,
      dm_getTenant = (\<lambda>r. tenant_GetByID r env), dm_createFile = (\<lambda>r. file_Create r penv env), dm_searchFiles = (\<lambda>r. SearchByRoom r penv env),
      dm_ready = ready\<rparr>"

lemma dbman_sel [simp]:
  "dm_chat (dbman bc um penv env pg ready) = repoStore penv env pg" "dm_user (dbman bc um penv env pg ready) = repoUsers bc um penv env pg"
  "dm_session (dbman bc um penv env pg ready) = repoSessions penv env" "dm_tenant (dbman bc um penv env pg ready) = repoTenants env"
  "dm_getTenant (dbman bc um penv env pg ready) = (\<lambda>r. tenant_GetByID r env)"
  "dm_createFile (dbman bc um penv env pg ready) = (\<lambda>r. file_Create r penv env)"
  by (simp_all add: dbman_def)

lemma clampLimit_idem [simp]: "0 < d \<Longrightarrow> d \<le> m \<Longrightarrow> clampLimit m d (clampLimit m d n) = clampLimit m d n"
  by (simp add: clampLimit_def)

lemma repo_clamps [simp]:
  "cs_listMessages (repoStore penv env pg) r t rm (clampLimit 200 50 n) c = cs_listMessages (repoStore penv env pg) r t rm n c"
  "cs_searchMessages (repoStore penv env pg) r t q ro (clampLimit 200 30 n) c = cs_searchMessages (repoStore penv env pg) r t q ro n c"
  "cs_listRooms (repoStore penv env pg) r t u (clampLimit 200 50 n) cAt cR = cs_listRooms (repoStore penv env pg) r t u n cAt cR"
  "os_search (repoUsers bc um penv env pg) r t q (clampLimit 100 20 n) = os_search (repoUsers bc um penv env pg) r t q n"
  "os_audit (repoUsers bc um penv env pg) r t u (clampLimit 200 50 n) f cAt cID = os_audit (repoUsers bc um penv env pg) r t u n f cAt cID"
  by (simp_all add: repoStore_def repoUsers_def svc_ListMessages_def svc_SearchMessages_def svc_ListMyRooms_def usvc_SearchUsers_def usvc_ListAliasAudit_def
      split: sum.split)


text \<open>
  The session server's store is the data base server, in the same sense; the limit of the inbox is clamped on the way.
\<close>

theorem remote_session_store:
  fixes bc um penv env pg ready ep
  defines "remote \<equiv> remoteSessions (dbman bc um penv env pg ready) ep" and "st \<equiv> repoSessions penv env"
  shows "store_upsert remote r x = opaque 500 ep (store_upsert st r x)
    \<and> store_validate remote r t u sid k = (if '''' \<in> {t, u, sid, k} then refused ep r else opaque 500 ep (store_validate st r t u sid k))
    \<and> store_status remote r y = opaque 500 ep (store_status st r y)
    \<and> store_note remote r z = opaque 500 ep (store_note st r z)
    \<and> store_inbox remote r t u n = (if '''' \<in> {t, u} then refused ep r else opaque 500 ep (store_inbox st r t u (clampLimit 200 50 n)))
    \<and> store_read remote r t u i = (if '''' \<in> {t, u, i} then refused ep r else opaque 500 ep (store_read st r t u i))
    \<and> store_notifications remote r t u inp = (if '''' \<in> {t, u} then refused ep r else opaque 500 ep (store_notifications st r t u inp))"
  unfolding remote_def st_def remoteSessions_def sessionStore.select_convs remote_session dbman_sel by simp

text \<open>
  A user can never be created over the wire: the password is not marshalled, and the data base server refuses a user without one.
\<close>

lemma remote_createUser_fails:
  "\<exists>e. os_createUser (remoteUsers (dbman bc um penv env pg ready) ep) r t u = (r, Inl e)"
  by (simp add: remoteUsers_def remote_createUser refused_def opaque_def repoUsers_def usvc_CreateUser_def TrimSpace_eval)


section \<open>Isolation through the wire\<close>

lemma opaque_fst [simp]: "fst (opaque code ep out) = fst out"
  by (auto simp: opaque_def split: prod.split sum.split)

lemma refused_fst [simp]: "fst (refused ep s) = s"
  by (simp add: refused_def)

lemma opaque_Inr: "opaque code ep out = (s', Inr x) \<Longrightarrow> out = (s', Inr x)"
  by (auto simp: opaque_def split: prod.splits sum.splits)

text \<open>The remote store keeps the contract that the chat server's handlers need for the isolation of tenants.\<close>

interpretation remote_store: isolated_store "remoteChat (dbman bc um penv env pg ready) ep" "onlyTenant penv" "\<lambda>r. 0 < db_cacheTTL (router r)"
  for bc um penv env pg ready ep
proof unfold_locales
  fix r m r1 x r2
  assume ttl: "0 < db_cacheTTL (router r)" and "cs_createMessage (remoteChat (dbman bc um penv env pg ready) ep) r m = (r1, Inr x)"
    and E: "onlyTenant penv (ms_TenantID m) r1 r2"
  then have "opaque 500 ep (cs_createMessage (repoStore penv env pg) r m) = (r1, Inr x)"
    by (auto simp: remoteChat_def remote_chat refused_def split: if_splits)
  from opaque_Inr[OF this] E show "onlyTenant penv (ms_TenantID m) r r2"
    by (rule repoStore_follow[OF ttl])
qed (simp_all add: remoteChat_def remote_chat repo_clamps repoStore_only)

end
