(* ===== verification/TenantRows.thy ===== *)
theory TenantRows
  imports RemoteStores
begin

text \<open>
  Tenants that share a data base. Every table has a column for the tenant; the rows of a tenant are what the statements of its requests may read and write.
  For every statement of the repositories: it leaves the rows of all other tenants as they are, and what a query returns depends only on the rows of the tenant.
  \<open>MarkReadUpTo\<close> updates the row that has the key of the message and the user, whatever its tenant: that it is a row of this tenant is an invariant of the tables.
\<close>

section \<open>The rows of a tenant\<close>

definition tenantRows :: "string \<Rightarrow> Database \<Rightarrow> Database" where
  "tenantRows t db =
     \<lparr>tenants = filter (\<lambda>x. tn_TenantID x = t) (tenants db), org_units = filter (\<lambda>x. ou_TenantID x = t) (org_units db),
      users = filter (\<lambda>x. us_TenantID x = t) (users db), user_aliases = filter (\<lambda>x. al_TenantID x = t) (user_aliases db),
      alias_audit = filter (\<lambda>x. aa_TenantID x = t) (alias_audit db), chat_rooms = filter (\<lambda>x. cr_TenantID x = t) (chat_rooms db),
      room_members = filter (\<lambda>x. me_TenantID x = t) (room_members db), messages = filter (\<lambda>x. ms_TenantID x = t) (messages db),
      files = filter (\<lambda>x. fo_TenantID x = t) (files db), message_reads = filter (\<lambda>x. mr_TenantID x = t) (message_reads db),
      device_sessions = filter (\<lambda>x. ds_TenantID (dr_session x) = t) (device_sessions db),
      user_presence = filter (\<lambda>x. st_TenantID x = t) (user_presence db), notes_tab = filter (\<lambda>x. nt_TenantID x = t) (notes_tab db),
      note_recipients = filter (\<lambda>x. rc_TenantID x = t) (note_recipients db), note_files = filter (\<lambda>x. ff_TenantID x = t) (note_files db),
      chat_notifications = filter (\<lambda>x. cw_TenantID x = t) (chat_notifications db)\<rparr>"

text \<open>Message ids are unique, and a read mark has the tenant of its message.\<close>

definition readsOK :: "Database \<Rightarrow> bool" where
  "readsOK db \<longleftrightarrow> distinct (map ms_ID (messages db))
     \<and> (\<forall>x \<in> set (message_reads db). \<exists>m \<in> set (messages db). ms_ID m = mr_MessageID x \<and> ms_TenantID m = mr_TenantID x)"

text \<open>What a statement for a tenant may do to a data base.\<close>

definition rowEffect :: "string \<Rightarrow> Database \<Rightarrow> Database \<Rightarrow> bool" where
  "rowEffect t db db' \<longleftrightarrow> (readsOK db \<longrightarrow> readsOK db' \<and> (\<forall>t'. t' \<noteq> t \<longrightarrow> tenantRows t' db' = tenantRows t' db))"

definition ownRows :: "string \<Rightarrow> 'a stmt \<Rightarrow> bool" where
  "ownRows t st \<longleftrightarrow> (\<forall>db. rowEffect t db (fst (st db)))"

named_theorems owning

lemma rowEffect_refl [simp]: "rowEffect t db db"
  by (simp add: rowEffect_def)

lemma rowEffect_trans: "rowEffect t a b \<Longrightarrow> rowEffect t b c \<Longrightarrow> rowEffect t a c"
  by (simp add: rowEffect_def)

lemma ownRows_return [owning]: "ownRows t (\<lambda>db. (db, x))"
  by (simp add: ownRows_def)

lemma ownRows_if [owning]: "ownRows t f \<Longrightarrow> ownRows t g \<Longrightarrow> ownRows t (\<lambda>db. if b then f db else g db)"
  by (cases b) simp_all

lemma ownRows_query: "(\<And>db. fst (st db) = db) \<Longrightarrow> ownRows t st"
  by (simp add: ownRows_def)

lemma ownRows_exec [owning]: "ownRows t st \<Longrightarrow> ownRows t (exec env k st)"
  by (auto simp: ownRows_def exec_def split: option.split)

lemma ownRows_seq [owning]: "ownRows t m \<Longrightarrow> (\<And>db db' x. m db = (db', Inr x) \<Longrightarrow> ownRows t (f x)) \<Longrightarrow> ownRows t (seqS m f)"
  unfolding ownRows_def seqS_def by (fastforce intro: rowEffect_trans split: prod.split sum.split)

lemma ownRows_forEach [owning]:
  assumes "\<And>x k. ownRows t (f x k)"
  shows "ownRows t (forEach f k xs)"
proof (induction xs arbitrary: k)
  case (Cons x xs)
  have "rowEffect t db (fst (forEach f k (x # xs) db))" for db
    using assms[of x k] Cons[of "Suc k"] unfolding ownRows_def by (fastforce intro: rowEffect_trans split: prod.split sum.split)
  then show ?case by (simp add: ownRows_def)
qed (simp add: ownRows_def)

lemma ownRows_inTx [owning]: "ownRows t body \<Longrightarrow> ownRows t (inTx env n body)"
  unfolding ownRows_def inTx_def by (auto split: option.split prod.split sum.split) (metis fst_conv)

section \<open>The statements\<close>

lemma filter_map_update: "(\<And>x. x \<in> set xs \<Longrightarrow> Q x \<Longrightarrow> \<not> P x \<and> \<not> P (f x)) \<Longrightarrow> filter P (map (\<lambda>x. if Q x then f x else x) xs) = filter P xs"
  by (induction xs) auto

text \<open>A table may change as long as the rows of the tenant in it do not.\<close>

lemma rows_frame:
  "filter (\<lambda>x. ou_TenantID x = t) v0 = filter (\<lambda>x. ou_TenantID x = t) (org_units db) \<Longrightarrow> tenantRows t (db\<lparr>org_units := v0\<rparr>) = tenantRows t db"
  "filter (\<lambda>x. us_TenantID x = t) v1 = filter (\<lambda>x. us_TenantID x = t) (users db) \<Longrightarrow> tenantRows t (db\<lparr>users := v1\<rparr>) = tenantRows t db"
  "filter (\<lambda>x. al_TenantID x = t) v2 = filter (\<lambda>x. al_TenantID x = t) (user_aliases db) \<Longrightarrow> tenantRows t (db\<lparr>user_aliases := v2\<rparr>) = tenantRows t db"
  "filter (\<lambda>x. aa_TenantID x = t) v3 = filter (\<lambda>x. aa_TenantID x = t) (alias_audit db) \<Longrightarrow> tenantRows t (db\<lparr>alias_audit := v3\<rparr>) = tenantRows t db"
  "filter (\<lambda>x. cr_TenantID x = t) v4 = filter (\<lambda>x. cr_TenantID x = t) (chat_rooms db) \<Longrightarrow> tenantRows t (db\<lparr>chat_rooms := v4\<rparr>) = tenantRows t db"
  "filter (\<lambda>x. me_TenantID x = t) v5 = filter (\<lambda>x. me_TenantID x = t) (room_members db) \<Longrightarrow> tenantRows t (db\<lparr>room_members := v5\<rparr>) = tenantRows t db"
  "filter (\<lambda>x. ms_TenantID x = t) v6 = filter (\<lambda>x. ms_TenantID x = t) (messages db) \<Longrightarrow> tenantRows t (db\<lparr>messages := v6\<rparr>) = tenantRows t db"
  "filter (\<lambda>x. fo_TenantID x = t) v7 = filter (\<lambda>x. fo_TenantID x = t) (files db) \<Longrightarrow> tenantRows t (db\<lparr>files := v7\<rparr>) = tenantRows t db"
  "filter (\<lambda>x. mr_TenantID x = t) v8 = filter (\<lambda>x. mr_TenantID x = t) (message_reads db) \<Longrightarrow> tenantRows t (db\<lparr>message_reads := v8\<rparr>) = tenantRows t db"
  "filter (\<lambda>x. ds_TenantID (dr_session x) = t) v9 = filter (\<lambda>x. ds_TenantID (dr_session x) = t) (device_sessions db) \<Longrightarrow> tenantRows t (db\<lparr>device_sessions := v9\<rparr>) = tenantRows t db"
  "filter (\<lambda>x. st_TenantID x = t) v10 = filter (\<lambda>x. st_TenantID x = t) (user_presence db) \<Longrightarrow> tenantRows t (db\<lparr>user_presence := v10\<rparr>) = tenantRows t db"
  "filter (\<lambda>x. nt_TenantID x = t) v11 = filter (\<lambda>x. nt_TenantID x = t) (notes_tab db) \<Longrightarrow> tenantRows t (db\<lparr>notes_tab := v11\<rparr>) = tenantRows t db"
  "filter (\<lambda>x. rc_TenantID x = t) v12 = filter (\<lambda>x. rc_TenantID x = t) (note_recipients db) \<Longrightarrow> tenantRows t (db\<lparr>note_recipients := v12\<rparr>) = tenantRows t db"
  "filter (\<lambda>x. ff_TenantID x = t) v13 = filter (\<lambda>x. ff_TenantID x = t) (note_files db) \<Longrightarrow> tenantRows t (db\<lparr>note_files := v13\<rparr>) = tenantRows t db"
  "filter (\<lambda>x. cw_TenantID x = t) v14 = filter (\<lambda>x. cw_TenantID x = t) (chat_notifications db) \<Longrightarrow> tenantRows t (db\<lparr>chat_notifications := v14\<rparr>) = tenantRows t db"
  "filter (\<lambda>x. tn_TenantID x = t) v15 = filter (\<lambda>x. tn_TenantID x = t) (tenants db) \<Longrightarrow> tenantRows t (db\<lparr>tenants := v15\<rparr>) = tenantRows t db"
  by (simp_all add: tenantRows_def)

lemma reads_frame [simp]:
  "readsOK (db\<lparr>org_units := w0\<rparr>) = readsOK db"
  "readsOK (db\<lparr>users := w1\<rparr>) = readsOK db"
  "readsOK (db\<lparr>user_aliases := w2\<rparr>) = readsOK db"
  "readsOK (db\<lparr>alias_audit := w3\<rparr>) = readsOK db"
  "readsOK (db\<lparr>chat_rooms := w4\<rparr>) = readsOK db"
  "readsOK (db\<lparr>room_members := w5\<rparr>) = readsOK db"
  "readsOK (db\<lparr>files := w7\<rparr>) = readsOK db"
  "readsOK (db\<lparr>device_sessions := w9\<rparr>) = readsOK db"
  "readsOK (db\<lparr>user_presence := w10\<rparr>) = readsOK db"
  "readsOK (db\<lparr>notes_tab := w11\<rparr>) = readsOK db"
  "readsOK (db\<lparr>note_recipients := w12\<rparr>) = readsOK db"
  "readsOK (db\<lparr>note_files := w13\<rparr>) = readsOK db"
  "readsOK (db\<lparr>chat_notifications := w14\<rparr>) = readsOK db"
  "readsOK (db\<lparr>tenants := w15\<rparr>) = readsOK db"
  by (simp_all add: readsOK_def)

lemma ownRowsI:
  assumes "\<And>db. readsOK db \<Longrightarrow> readsOK (fst (st db))" "\<And>db t'. readsOK db \<Longrightarrow> t' \<noteq> t \<Longrightarrow> tenantRows t' (fst (st db)) = tenantRows t' db"
  shows "ownRows t st"
  using assms by (auto simp: ownRows_def rowEffect_def)

lemma room_statements [owning]:
  "ownRows t (sql_insertRoom env t room)"
  "ownRows t (sql_insertMember env t rid u)"
  by (rule ownRowsI; simp add: sql_insertRoom_def sql_insertMember_def rows_frame)+

lemma message_statement [owning]: "ms_TenantID m = t \<Longrightarrow> ownRows t (sql_insertMessage env m)"
  by (rule ownRowsI) (auto simp: sql_insertMessage_def tenantRows_def readsOK_def Let_def)

lemma user_statements [owning]:
  "ownRows t (sql_insertOrgUnit env t p n)"
  "ownRows t (sql_insertUser env t x)"
  by (rule ownRowsI; simp add: sql_insertOrgUnit_def sql_insertUser_def rows_frame)+

lemma status_statement [owning]: "ownRows t (sql_updateUserStatus env t u status nt)"
  by (rule ownRowsI) (auto simp: sql_updateUserStatus_def Let_def intro!: rows_frame filter_map_update)

lemma alias_statements [owning]:
  "ownRows t (sql_addAlias env pg t u a ip ua)"
  "ownRows t (sql_deleteAlias env t u a ip ua)"
proof -
  have "tenantRows t' (db\<lparr>user_aliases := as, alias_audit := alias_audit db @ [auditRow env t u a act ip ua]\<rparr>) = tenantRows t' db"
    if "t' \<noteq> t" "filter (\<lambda>x. al_TenantID x = t') as = filter (\<lambda>x. al_TenantID x = t') (user_aliases db)" for db t' as act
    using that by (simp add: tenantRows_def auditRow_def)
  note frame = this
  show "ownRows t (sql_addAlias env pg t u a ip ua)"
    by (rule ownRowsI) (simp_all add: sql_addAlias_def frame)
  show "ownRows t (sql_deleteAlias env t u a ip ua)"
  proof (rule ownRowsI)
    fix db :: Database and t'
    assume t': "t' \<noteq> t"
    then have "filter (\<lambda>x. al_TenantID x = t') (filter (\<lambda>x. \<not> (al_TenantID x = t \<and> al_UserID x = u \<and> al_Alias x = a)) (user_aliases db))
      = filter (\<lambda>x. al_TenantID x = t') (user_aliases db)" by (auto intro: filter_cong)
    then show "tenantRows t' (fst (sql_deleteAlias env t u a ip ua db)) = tenantRows t' db"
      using frame[OF t'] by (auto simp: sql_deleteAlias_def Let_def)
  qed (simp add: sql_deleteAlias_def Let_def)
qed

lemma device_statements [owning]:
  "ds_TenantID x = t \<Longrightarrow> ownRows t (sql_upsertDevice env x)"
  "ownRows t (sql_touchDevice env t u sid k)"
proof -
  have key: "filter (\<lambda>r. ds_TenantID (dr_session r) = t') (map (\<lambda>r. if deviceKey r = (t, u, d) then refreshDevice env x r else r) rs)
      = filter (\<lambda>r. ds_TenantID (dr_session r) = t') rs" if "t' \<noteq> t" for t' u d rs x
    by (rule filter_map_update) (use that in \<open>auto simp: deviceKey_def refreshDevice_def\<close>)
  show "ownRows t (sql_upsertDevice env x)" if "ds_TenantID x = t"
    by (rule ownRowsI) (use that in \<open>simp_all add: sql_upsertDevice_def newDevice_def rows_frame Let_def key split: option.split\<close>)
  have valid: "filter (\<lambda>r. ds_TenantID (dr_session r) = t') (map (\<lambda>r. if validDevice t u sid k r then touchDevice env r else r) rs)
      = filter (\<lambda>r. ds_TenantID (dr_session r) = t') rs" if "t' \<noteq> t" for t' rs
    by (rule filter_map_update) (use that in \<open>auto simp: validDevice_def touchDevice_def\<close>)
  show "ownRows t (sql_touchDevice env t u sid k)"
    by (rule ownRowsI) (simp_all add: sql_touchDevice_def rows_frame valid)
qed

lemma presence_statement [owning]: "st_TenantID y = t \<Longrightarrow> ownRows t (sql_upsertPresence env y)"
  by (rule ownRowsI) (auto simp: sql_upsertPresence_def Let_def intro!: rows_frame filter_map_update)

lemma note_statements [owning]:
  "no_TenantID z = t \<Longrightarrow> ownRows t (sql_insertNote env z)"
  "no_TenantID z = t \<Longrightarrow> ownRows t (sql_insertRecipient z rc)"
  "no_TenantID z = t \<Longrightarrow> ownRows t (sql_insertNoteFile z nf)"
  "ownRows t (sql_insertNotification t u inp rcpt)"
  by (rule ownRowsI; simp add: sql_insertNote_def sql_insertRecipient_def sql_insertNoteFile_def sql_insertNotification_def recipientRow_def
      rows_frame)+

lemma markNote_statement [owning]: "ownRows t (sql_markNote env t u i)"
  by (rule ownRowsI) (auto simp: sql_markNote_def readRecipient_def intro!: rows_frame filter_map_update)

lemma roomBody_rows [owning]: "ownRows t (roomBody env t room ms)"
  unfolding roomBody_def by (intro owning)

lemma noteBody_rows [owning]:
  assumes "no_TenantID n = t"
  shows "ownRows t (noteBody env n)"
  unfolding noteBody_def
proof (rule ownRows_seq)
  show "ownRows t (exec env 1 (sql_insertNote env n))" using assms by (intro owning)
  fix db db' n'
  assume "exec env 1 (sql_insertNote env n) db = (db', Inr n')"
  then have t: "no_TenantID n' = t" using assms by (auto simp: exec_ok sql_insertNote_def split: if_splits)
  show "ownRows t (seqS (forEach (\<lambda>rc k. exec env k (sql_insertRecipient n' rc)) 2 (no_Recipients n')) (\<lambda>_.
      seqS (forEach (\<lambda>f k. exec env k (sql_insertNoteFile n' f)) (2 + length (no_Recipients n')) (no_Files n')) (\<lambda>_ db. (db, Inr n'))))"
    by (intro owning t)
qed

lemma file_statement [owning]: "fo_TenantID f = t \<Longrightarrow> ownRows t (sql_insertFile env f)"
  by (rule ownRowsI) (auto simp: sql_insertFile_def rows_frame Let_def)

text \<open>The marks that \<open>MarkReadUpTo\<close> writes are those of messages of the tenant.\<close>

lemma upTo_tenant: "m \<in> set (upTo t rid mid db) \<Longrightarrow> m \<in> set (messages db) \<and> ms_TenantID m = t"
  by (auto simp: upTo_def split: option.splits)

definition readsIn :: "Message list \<Rightarrow> MessageRead list \<Rightarrow> bool" where
  "readsIn msgs reads \<longleftrightarrow> (\<forall>x \<in> set reads. \<exists>m \<in> set msgs. ms_ID m = mr_MessageID x \<and> ms_TenantID m = mr_TenantID x)"

lemma upsertRead_own:
  assumes "distinct (map ms_ID msgs)" "readsIn msgs reads" "m \<in> set msgs" "ms_TenantID m = t"
  shows "readsIn msgs (upsertRead env u reads m)
    \<and> (\<forall>t'. t' \<noteq> t \<longrightarrow> filter (\<lambda>x. mr_TenantID x = t') (upsertRead env u reads m) = filter (\<lambda>x. mr_TenantID x = t') reads)"
proof
  have "readsIn msgs (map (\<lambda>x. if P x then x\<lparr>mr_ReadAt := at\<rparr> else x) reads)" for P at
    using assms(2) unfolding readsIn_def set_map by (intro ballI, elim imageE) (auto split: if_splits)
  then have "readsIn msgs (upsertRead env u reads m)" if "list_ex (\<lambda>x. mr_MessageID x = ms_ID m \<and> mr_UserID x = u) reads"
    using that by (simp add: upsertRead_def)
  moreover have "readsIn msgs (upsertRead env u reads m)" if "\<not> list_ex (\<lambda>x. mr_MessageID x = ms_ID m \<and> mr_UserID x = u) reads"
    using that assms(2-4) by (auto simp: readsIn_def upsertRead_def)
  ultimately show "readsIn msgs (upsertRead env u reads m)" by blast
  have own: "mr_TenantID x = t" if x: "x \<in> set reads" "mr_MessageID x = ms_ID m" for x
  proof -
    obtain m' where m': "m' \<in> set msgs" "ms_ID m' = mr_MessageID x" "ms_TenantID m' = mr_TenantID x" using assms(2) x(1) unfolding readsIn_def by blast
    have "m' = m" by (rule inj_onD[of ms_ID "set msgs"]) (use assms(1,3) m' x(2) in \<open>simp_all add: distinct_map\<close>)
    then show ?thesis using m'(3) assms(4) by simp
  qed
  have "filter (\<lambda>x. mr_TenantID x = t') (map (\<lambda>x. if mr_MessageID x = ms_ID m \<and> mr_UserID x = u then x\<lparr>mr_ReadAt := sqlNow env\<rparr> else x) reads)
      = filter (\<lambda>x. mr_TenantID x = t') reads" if "t' \<noteq> t" for t'
    by (rule filter_map_update) (use own that in auto)
  then show "\<forall>t'. t' \<noteq> t \<longrightarrow> filter (\<lambda>x. mr_TenantID x = t') (upsertRead env u reads m) = filter (\<lambda>x. mr_TenantID x = t') reads"
    using assms(4) by (simp add: upsertRead_def)
qed

lemma upsertReads_own:
  assumes "distinct (map ms_ID msgs)" "readsIn msgs reads" "\<And>m. m \<in> set ms \<Longrightarrow> m \<in> set msgs \<and> ms_TenantID m = t"
  shows "readsIn msgs (foldl (upsertRead env u) reads ms)
    \<and> (\<forall>t'. t' \<noteq> t \<longrightarrow> filter (\<lambda>x. mr_TenantID x = t') (foldl (upsertRead env u) reads ms) = filter (\<lambda>x. mr_TenantID x = t') reads)"
  using assms(2,3)
proof (induction ms arbitrary: reads)
  case (Cons m ms)
  then have "readsIn msgs (upsertRead env u reads m)
    \<and> (\<forall>t'. t' \<noteq> t \<longrightarrow> filter (\<lambda>x. mr_TenantID x = t') (upsertRead env u reads m) = filter (\<lambda>x. mr_TenantID x = t') reads)"
    using upsertRead_own[OF assms(1)] by simp
  then show ?case using Cons by simp
qed simp

lemma mark_statement [owning]: "ownRows t (sql_markRead env t rid u mid)"
proof (rule ownRowsI)
  fix db assume ok: "readsOK db"
  then have own: "readsIn (messages db) (foldl (upsertRead env u) (message_reads db) (upTo t rid mid db))
    \<and> (\<forall>t'. t' \<noteq> t \<longrightarrow> filter (\<lambda>x. mr_TenantID x = t') (foldl (upsertRead env u) (message_reads db) (upTo t rid mid db))
          = filter (\<lambda>x. mr_TenantID x = t') (message_reads db))"
    by (intro upsertReads_own upTo_tenant) (simp_all add: readsOK_def readsIn_def)
  show "readsOK (fst (sql_markRead env t rid u mid db))" using own ok by (simp add: sql_markRead_def Let_def readsOK_def readsIn_def)
  show "tenantRows t' (fst (sql_markRead env t rid u mid db)) = tenantRows t' db" if "t' \<noteq> t" for t'
    using own that by (simp add: sql_markRead_def Let_def tenantRows_def)
qed

section \<open>The queries\<close>

text \<open>A query: it changes nothing, and its result depends only on the rows of the tenant.\<close>

definition ownQuery :: "string \<Rightarrow> 'a stmt \<Rightarrow> bool" where
  "ownQuery t st \<longleftrightarrow> (\<forall>db. fst (st db) = db \<and> snd (st (tenantRows t db)) = snd (st db))"

lemma ownQuery_same: "ownQuery t st \<Longrightarrow> tenantRows t db1 = tenantRows t db2 \<Longrightarrow> snd (st db1) = snd (st db2)"
  unfolding ownQuery_def by metis

lemma ownQuery_ownRows: "ownQuery t st \<Longrightarrow> ownRows t' st"
  by (rule ownRows_query) (simp add: ownQuery_def)

lemma ownQuery_exec: "ownQuery t st \<Longrightarrow> ownQuery t (exec env k st)"
  by (auto simp: ownQuery_def exec_def split: option.split)

lemma rows_select [simp]:
  "filter (\<lambda>x. us_TenantID x = t \<and> P x) (users (tenantRows t db)) = filter (\<lambda>x. us_TenantID x = t \<and> P x) (users db)"
  "filter (\<lambda>x. ms_TenantID x = t \<and> Q x) (messages (tenantRows t db)) = filter (\<lambda>x. ms_TenantID x = t \<and> Q x) (messages db)"
  "filter (\<lambda>x. mr_TenantID x = t \<and> R x) (message_reads (tenantRows t db)) = filter (\<lambda>x. mr_TenantID x = t \<and> R x) (message_reads db)"
  "filter (\<lambda>x. me_TenantID x = t \<and> S x) (room_members (tenantRows t db)) = filter (\<lambda>x. me_TenantID x = t \<and> S x) (room_members db)"
  "filter (\<lambda>x. cr_TenantID x = t \<and> T x) (chat_rooms (tenantRows t db)) = filter (\<lambda>x. cr_TenantID x = t \<and> T x) (chat_rooms db)"
  "filter (\<lambda>x. al_TenantID x = t \<and> U x) (user_aliases (tenantRows t db)) = filter (\<lambda>x. al_TenantID x = t \<and> U x) (user_aliases db)"
  "filter (\<lambda>x. aa_TenantID x = t \<and> V x) (alias_audit (tenantRows t db)) = filter (\<lambda>x. aa_TenantID x = t \<and> V x) (alias_audit db)"
  "filter (\<lambda>x. rc_TenantID x = t \<and> W x) (note_recipients (tenantRows t db)) = filter (\<lambda>x. rc_TenantID x = t \<and> W x) (note_recipients db)"
  "filter (\<lambda>x. fo_TenantID x = t \<and> X x) (files (tenantRows t db)) = filter (\<lambda>x. fo_TenantID x = t \<and> X x) (files db)"
  "filter (\<lambda>x. ou_TenantID x = t) (org_units (tenantRows t db)) = filter (\<lambda>x. ou_TenantID x = t) (org_units db)"
  by (simp_all add: tenantRows_def)

lemma counts_own [simp]:
  "readsOf t rid u (tenantRows t db) = readsOf t rid u db"
  "readHorizon t rid u (tenantRows t db) = readHorizon t rid u db"
  "unreadCount t rid u (tenantRows t db) = unreadCount t rid u db"
  by (simp_all add: readsOf_def readHorizon_def unreadCount_def)

lemma rooms_own [simp]: "myRooms pg t u (tenantRows t db) = myRooms pg t u db"
proof -
  have "summaryOf pg t me cr (tenantRows t db) = summaryOf pg t me cr db" for me cr
    by (simp only: summaryOf_def latestMessage_def peerOf_def rows_select counts_own)
  then show ?thesis by (simp only: myRooms_def rows_select)
qed

lemma inbox_own [simp]: "inboxRows t u (tenantRows t db) = inboxRows t u db"
proof -
  have "inboxJoin (tenantRows t db) rc = inboxJoin db rc" if "rc_TenantID rc = t" for rc
  proof -
    have "filter (\<lambda>n. nt_NoteID n = rc_NoteID rc \<and> nt_TenantID n = rc_TenantID rc) (notes_tab (tenantRows t db))
        = filter (\<lambda>n. nt_NoteID n = rc_NoteID rc \<and> nt_TenantID n = rc_TenantID rc) (notes_tab db)"
      using that by (auto simp: tenantRows_def intro: filter_cong)
    moreover have "filter (\<lambda>f. ff_NoteID f = i \<and> ff_TenantID f = t) (note_files (tenantRows t db)) = filter (\<lambda>f. ff_NoteID f = i \<and> ff_TenantID f = t) (note_files db)" for i
      by (auto simp: tenantRows_def intro: filter_cong)
    ultimately show ?thesis using that by (auto simp: inboxJoin_def)
  qed
  then have "map (inboxJoin (tenantRows t db)) (filter (\<lambda>rc. rc_TenantID rc = t \<and> rc_UserID rc = u) (note_recipients db))
      = map (inboxJoin db) (filter (\<lambda>rc. rc_TenantID rc = t \<and> rc_UserID rc = u) (note_recipients db))" by (intro map_cong) auto
  then show ?thesis unfolding inboxRows_def rows_select by (rule arg_cong[where f = concat])
qed

lemma member_own [simp]: "isMember t rid u (tenantRows t db) = isMember t rid u db"
  by (auto simp: isMember_def list_ex_iff tenantRows_def)

lemma own_queries:
  "ownQuery t (\<lambda>db. (db, Inr (isMember t rid u db)))"
  "ownQuery t (sql_listMessages t rid n cur)"
  "ownQuery t (sql_searchMessages pg t q ro n cur)"
  "ownQuery t (sql_readers t rid mid)"
  "ownQuery t (sql_lastRead t rid u)"
  "ownQuery t (\<lambda>db. (db, Inr (unreadCount t rid u db)))"
  "ownQuery t (sql_unreadCounts t u)"
  "ownQuery t (sql_listRooms pg t u n rcur)"
  "ownQuery t (sql_inbox t u n)"
  "ownQuery t (sql_listOrgUnits t)"
  "ownQuery t (sql_searchUsers um t q n)"
  "ownQuery t (sql_userByEmail t em)"
  "ownQuery t (sql_listAliases t u)"
  "ownQuery t (sql_listAudit t u n f acur)"
  "ownQuery t (sql_filesByRoom t rid n)"
  by (simp_all add: ownQuery_def sql_listMessages_def sql_searchMessages_def sql_readers_def sql_lastRead_def sql_unreadCounts_def sql_listRooms_def
      sql_inbox_def sql_listOrgUnits_def sql_searchUsers_def sql_userByEmail_def sql_listAliases_def sql_listAudit_def sql_filesByRoom_def)

lemmas query_rows [owning] = own_queries[THEN ownQuery_ownRows]

section \<open>The repositories\<close>

text \<open>What a request of a tenant may do to the data bases behind the router: in none of them, shared or dedicated, does a row of another tenant change.\<close>

definition rowsApart :: "string \<Rightarrow> 'p Repo \<Rightarrow> 'p Repo \<Rightarrow> bool" where
  "rowsApart t r r' \<longleftrightarrow>
     ((\<forall>p. readsOK (pools r p)) \<longrightarrow> (\<forall>p. readsOK (pools r' p)) \<and> (\<forall>p t'. t' \<noteq> t \<longrightarrow> tenantRows t' (pools r' p) = tenantRows t' (pools r p)))"

lemma rowsApart_refl [simp]: "rowsApart t r r"
  by (simp add: rowsApart_def)

lemma rowsApart_trans: "rowsApart t a b \<Longrightarrow> rowsApart t b c \<Longrightarrow> rowsApart t a c"
  by (simp add: rowsApart_def)

lemma rowsApart_withPool [owning]:
  assumes "ownRows t st"
  shows "rowsApart t r (fst (withPool r penv t' st))"
proof -
  have "rowEffect t (pools r p) (pools (fst (withPool r penv t' st)) p)" for p
    by (rule withPool_rel) (use assms in \<open>simp_all add: ownRows_def\<close>)
  then show ?thesis by (simp add: rowsApart_def rowEffect_def)
qed

text \<open>Two states that a tenant cannot tell apart by reading.\<close>

definition sameRows :: "'p dbEnv \<Rightarrow> string \<Rightarrow> 'p Repo \<Rightarrow> 'p Repo \<Rightarrow> bool" where
  "sameRows penv t r1 r2 \<longleftrightarrow>
     router r1 = router r2 \<and> (\<forall>p. snd (DBForTenant (router r1) t penv) = Inr p \<longrightarrow> tenantRows t (pools r1 p) = tenantRows t (pools r2 p))"

lemma withPool_sameRows:
  assumes "ownQuery t st" "sameRows penv t r1 r2"
  shows "snd (withPool r1 penv t st) = snd (withPool r2 penv t st)"
proof -
  have "snd (st (pools r1 p)) = snd (st (pools r2 p))" if "snd (DBForTenant (router r1) t penv) = Inr p" for p
    using that assms(2) by (intro ownQuery_same[OF assms(1)]) (simp add: sameRows_def)
  then show ?thesis using assms(2) by (auto simp: sameRows_def withPool_def split: prod.split sum.split)
qed

lemma withPool_query: "(\<And>db. fst (st db) = db) \<Longrightarrow> pools (fst (withPool r penv t st)) = pools r"
  by (auto simp: withPool_def split: prod.split sum.split) (metis fst_conv fun_upd_triv)

end
