(* ===== verification/DbmanTenancy.thy ===== *)
theory DbmanTenancy
  imports TenantRows
begin

text \<open>
  Tenancy of the data base server as a whole. Whatever a request says, apart from the management of tenants it reads and writes the data base of the
  tenant that it names, and no other; in a data base that tenants share, it changes only rows of this tenant, and a query sees only rows of this tenant. The
  handlers are proved once, in locales for services whose operations are confined, and the repositories are such services in each of the three senses.
\<close>

section \<open>Confined operations\<close>

text \<open>An operation is confined: it changes the state only in the way \<open>E\<close>, and its result is the same in states that are the same for \<open>V\<close>.\<close>

definition confined :: "('s \<Rightarrow> 's \<Rightarrow> bool) \<Rightarrow> ('s \<Rightarrow> 's \<Rightarrow> bool) \<Rightarrow> ('s \<Rightarrow> 's \<times> 'a) \<Rightarrow> bool" where
  "confined E V f \<longleftrightarrow> (\<forall>r. E r (fst (f r))) \<and> (\<forall>r1 r2. V r1 r2 \<longrightarrow> snd (f r1) = snd (f r2))"

named_theorems confining

lemma confined_const [confining]: "(\<And>r. E r r) \<Longrightarrow> confined E V (\<lambda>r. (r, x))"
  by (simp add: confined_def)

lemma confined_if [confining]: "confined E V f \<Longrightarrow> confined E V g \<Longrightarrow> confined E V (\<lambda>r. if b then f r else g r)"
  by (simp add: confined_def)

lemma confined_sum [confining]:
  "(\<And>e. confined E V (\<lambda>r. f r e)) \<Longrightarrow> (\<And>x. confined E V (\<lambda>r. g r x)) \<Longrightarrow> confined E V (\<lambda>r. case y of Inl e \<Rightarrow> f r e | Inr x \<Rightarrow> g r x)"
  by (cases y) simp_all

lemma confined_map: "confined E V f \<Longrightarrow> confined E V (\<lambda>r. (fst (f r), g (snd (f r))))"
  by (auto simp: confined_def)

lemma confined_answer [confining]:
  fixes f :: "'s \<Rightarrow> 's \<times> 'a result"
  assumes f: "confined E V f"
  shows "confined E V (\<lambda>r. answer a b js (f r))"
proof -
  have "answer a b js out = (fst out, case snd out of Inl e \<Rightarrow> (a, NewErrorResponse e) | Inr x \<Rightarrow> (b, js x))" for out :: "'s \<times> 'a result"
    by (simp add: answer_def split: prod.split sum.split)
  then show ?thesis using confined_map[OF f, of "\<lambda>out. case out of Inl e \<Rightarrow> (a, NewErrorResponse e) | Inr x \<Rightarrow> (b, js x)"] by simp
qed

lemma confined_cases [confining]:
  fixes f :: "'s \<Rightarrow> 's \<times> ('a + 'b)"
  assumes "confined E V f"
  shows "confined E V (\<lambda>r. case f r of (r', Inl e) \<Rightarrow> (r', g e) | (r', Inr x) \<Rightarrow> (r', h x))"
proof -
  have "(case out of (r', Inl e) \<Rightarrow> (r', g e) | (r', Inr x) \<Rightarrow> (r', h x)) = (fst out, case snd out of Inl e \<Rightarrow> g e | Inr x \<Rightarrow> h x)"
    for out :: "'s \<times> ('a + 'b)"
    by (simp split: prod.split sum.split)
  then show ?thesis using confined_map[OF assms, of "\<lambda>out. case out of Inl e \<Rightarrow> g e | Inr x \<Rightarrow> h x"] by simp
qed

lemma confined_withJSON:
  "(\<And>r. E r r) \<Longrightarrow> (\<And>req. dec j = Inr req \<Longrightarrow> confined E V (\<lambda>r. f r req)) \<Longrightarrow> confined E V (\<lambda>r. withJSON (Inr j) dec r (f r))"
  by (cases "dec j") (simp_all add: withJSON_required confined_const)

section \<open>The requests\<close>

text \<open>The tenant that a request names.\<close>

definition namedTenant :: "json \<Rightarrow> string result" where
  "namedTenant = decodeOne fStr ''tenant_id''"

lemma bindR_Inr_iff [simp]: "bindR x f = Inr y \<longleftrightarrow> (\<exists>z. x = Inr z \<and> f z = Inr y)"
  by (cases x) (simp_all add: bindR_def)

lemma required_Inr: "required ks x = Inr y \<Longrightarrow> y = x"
  by (auto simp: required_def split: list.splits)

text \<open>Every request is decoded to the tenant it names.\<close>

lemma requests_name_tenant:
  assumes "namedTenant j = Inr t"
  shows "bind1 ''tenant_id'' j = Inr a1 \<Longrightarrow> a1 = t"
    and "bind2 ''tenant_id'' k2 j = Inr a2 \<Longrightarrow> fst a2 = t"
    and "bind3 ''tenant_id'' k2 k3 j = Inr a3 \<Longrightarrow> fst a3 = t"
    and "bind4 ''tenant_id'' k2 k3 k4 j = Inr a4 \<Longrightarrow> fst a4 = t"
    and "bindInbox j = Inr a5 \<Longrightarrow> fst a5 = t"
    and "bindNotify j = Inr a6 \<Longrightarrow> fst a6 = t"
    and "bindOrgUnit j = Inr a7 \<Longrightarrow> fst a7 = t"
    and "bindUser j = Inr a8 \<Longrightarrow> fst a8 = t"
    and "bindUserStatus j = Inr a9 \<Longrightarrow> fst a9 = t"
    and "bindSearchUsers j = Inr b1 \<Longrightarrow> fst b1 = t"
    and "bindAlias j = Inr b2 \<Longrightarrow> fst b2 = t"
    and "bindAudit j = Inr b3 \<Longrightarrow> fst b3 = t"
    and "bindSearch j = Inr b4 \<Longrightarrow> fst b4 = t"
    and "bindRoom j = Inr b5 \<Longrightarrow> fst b5 = t"
    and "bindList j = Inr b6 \<Longrightarrow> fst b6 = t"
    and "bindMyRooms j = Inr b7 \<Longrightarrow> fst b7 = t"
    and "unmarshalMessage j = Inr m \<Longrightarrow> ms_TenantID m = t"
    and "unmarshalFile j = Inr f \<Longrightarrow> fo_TenantID f = t"
    and "unmarshalSession j = Inr ss \<Longrightarrow> ds_TenantID ss = t"
    and "unmarshalStatus j = Inr us \<Longrightarrow> st_TenantID us = t"
    and "unmarshalNote j = Inr n \<Longrightarrow> no_TenantID n = t"
  using assms
  by (auto dest!: required_Inr simp: namedTenant_def decodeOne_def bind1_def bind2_def bind3_def bind4_def bindInbox_def bindNotify_def bindOrgUnit_def
      bindUser_def bindUserStatus_def bindSearchUsers_def bindAlias_def bindAudit_def bindSearch_def bindRoom_def bindList_def bindMyRooms_def
      unmarshalMessage_def unmarshalFile_def unmarshalSession_def unmarshalStatus_def unmarshalNote_def)


section \<open>The handlers\<close>

text \<open>What the handlers need of the services: the queries, and the operations that write.\<close>

locale reading_services =
  fixes sv :: "'s dbmanServices" and E :: "string \<Rightarrow> 's \<Rightarrow> 's \<Rightarrow> bool" and V :: "string \<Rightarrow> 's \<Rightarrow> 's \<Rightarrow> bool"
  assumes still: "E t r r"
    and chat_reads:
    "confined (E t) (V t) (\<lambda>r. cs_isMember (dm_chat sv) r t rid u)"
    "confined (E t) (V t) (\<lambda>r. cs_listMessages (dm_chat sv) r t rid n cur)"
    "confined (E t) (V t) (\<lambda>r. cs_searchMessages (dm_chat sv) r t q ro n cur)"
    "confined (E t) (V t) (\<lambda>r. cs_readers (dm_chat sv) r t rid mid)"
    "confined (E t) (V t) (\<lambda>r. cs_lastRead (dm_chat sv) r t rid u)"
    "confined (E t) (V t) (\<lambda>r. cs_unread (dm_chat sv) r t rid u)"
    "confined (E t) (V t) (\<lambda>r. cs_unreads (dm_chat sv) r t u)"
    "confined (E t) (V t) (\<lambda>r. cs_listRooms (dm_chat sv) r t u n at rc)"
    and user_reads:
    "confined (E t) (V t) (\<lambda>r. os_listOrgs (dm_user sv) r t)"
    "confined (E t) (V t) (\<lambda>r. os_search (dm_user sv) r t q n)"
    "confined (E t) (V t) (\<lambda>r. os_auth (dm_user sv) r t em pw)"
    "confined (E t) (V t) (\<lambda>r. os_aliases (dm_user sv) r t u)"
    "confined (E t) (V t) (\<lambda>r. os_audit (dm_user sv) r t u n f at rc)"
    and session_reads: "confined (E t) (V t) (\<lambda>r. store_inbox (dm_session sv) r t u n)"

definition readingRoutes :: "string set" where
  "readingRoutes = {''/org-units/list'', ''/users/search'', ''/users/authenticate'', ''/users/aliases/list'', ''/users/aliases/audit'', ''/rooms/members/check'',
     ''/messages/list'', ''/messages/search'', ''/messages/readers'', ''/messages/last-read'', ''/messages/unread-count'', ''/messages/unread-counts'',
     ''/rooms/list'', ''/session/notes/inbox''}"

definition tenantRoutes :: "string set" where
  "tenantRoutes = {''/tenants/list'', ''/tenants/get'', ''/tenants/create'', ''/tenants/update''}"

lemmas reading_handlers = db_listOrgUnits_def db_searchUsers_def db_authenticateUser_def db_listAliases_def db_listAliasAudit_def db_checkRoomMember_def
  db_listMessages_def db_searchMessages_def db_messageReaders_def db_lastReadMessage_def db_unreadCount_def db_unreadCounts_def db_listMyRooms_def
  db_listSessionInbox_def

lemmas writing_handlers = db_createOrgUnit_def db_createUser_def db_updateUserStatus_def db_addAlias_def db_deleteAlias_def db_createFile_def db_createRoom_def
  db_addMember_def db_createMessage_def db_markReadUpTo_def db_upsertDeviceSession_def db_validateSession_def db_updateSessionUserStatus_def
  db_createSessionNote_def db_markSessionNoteRead_def db_saveSessionChatNotifications_def

context reading_services
begin

lemma reading_confined:
  assumes "namedTenant j = Inr t"
  shows "list_all (\<lambda>(sub, h). sub \<notin> readingRoutes \<or> confined (E t) (V t) (\<lambda>r. h sv r (Inr j))) postRoutes"
proof -
  note names = requests_name_tenant[OF assms]
  show ?thesis
    unfolding postRoutes_def reading_handlers readingRoutes_def
    by (simp, (rule conjI confined_withJSON still | (clarsimp?, drule names, clarsimp?, (rule confining chat_reads user_reads session_reads still refl)+))+)
qed

end

locale confined_services = reading_services +
  assumes chat_writes:
    "confined (E t) (V t) (\<lambda>r. cs_createRoom (dm_chat sv) r t room ms)"
    "confined (E t) (V t) (\<lambda>r. cs_addMember (dm_chat sv) r t rid u)"
    "confined (E t) (V t) (\<lambda>r. cs_markRead (dm_chat sv) r t rid u mid)"
    "ms_TenantID m = t \<Longrightarrow> confined (E t) (V t) (\<lambda>r. cs_createMessage (dm_chat sv) r m)"
    and user_writes:
    "confined (E t) (V t) (\<lambda>r. os_createOrg (dm_user sv) r t p n)"
    "confined (E t) (V t) (\<lambda>r. os_createUser (dm_user sv) r t x)"
    "confined (E t) (V t) (\<lambda>r. os_status (dm_user sv) r t u st nt)"
    "confined (E t) (V t) (\<lambda>r. os_addAlias (dm_user sv) r t u a ip ua)"
    "confined (E t) (V t) (\<lambda>r. os_deleteAlias (dm_user sv) r t u a ip ua)"
    and session_writes:
    "ds_TenantID d = t \<Longrightarrow> confined (E t) (V t) (\<lambda>r. store_upsert (dm_session sv) r d)"
    "confined (E t) (V t) (\<lambda>r. store_validate (dm_session sv) r t u sid k)"
    "st_TenantID y = t \<Longrightarrow> confined (E t) (V t) (\<lambda>r. store_status (dm_session sv) r y)"
    "no_TenantID z = t \<Longrightarrow> confined (E t) (V t) (\<lambda>r. store_note (dm_session sv) r z)"
    "confined (E t) (V t) (\<lambda>r. store_read (dm_session sv) r t u i)"
    "confined (E t) (V t) (\<lambda>r. store_notifications (dm_session sv) r t u inp)"
    and file_writes: "fo_TenantID fo = t \<Longrightarrow> confined (E t) (V t) (\<lambda>r. dm_createFile sv r fo)"
begin

lemma handlers_confined:
  assumes "namedTenant j = Inr t"
  shows "list_all (\<lambda>(sub, h). sub \<in> tenantRoutes \<or> confined (E t) (V t) (\<lambda>r. h sv r (Inr j))) postRoutes"
proof -
  note names = requests_name_tenant[OF assms]
  show ?thesis
    unfolding postRoutes_def reading_handlers writing_handlers tenantRoutes_def
    by (simp, (rule conjI confined_withJSON still | (clarsimp?, drule names, clarsimp?,
      (rule confining chat_reads user_reads session_reads chat_writes user_writes session_writes file_writes still refl)+))+)
qed

end

text \<open>From the handlers to the server: the routes in \<open>S\<close>.\<close>

lemma post_confined:
  assumes "\<And>r. E r r" "list_all (\<lambda>(sub, h). sub \<notin> S \<or> confined E V (\<lambda>r. h sv r body)) postRoutes"
    and "\<And>sub. groupPath path = Some sub \<Longrightarrow> sub \<in> S"
  shows "confined E V (\<lambda>r. dbman_post sv r path body)"
proof (cases "groupPath path")
  case (Some sub)
  show ?thesis
  proof (cases "map_of (postRoutes :: (string \<times> 'a handler) list) sub")
    case (Some h)
    then have "(sub, h) \<in> set postRoutes" by (rule map_of_SomeD)
    then have "confined E V (\<lambda>r. h sv r body)"
      using assms(2,3) \<open>groupPath path = Some sub\<close> by (force simp: list_all_iff)
    then show ?thesis using Some \<open>groupPath path = Some sub\<close> by (simp add: dbman_post_def)
  qed (use Some assms(1) in \<open>simp add: dbman_post_def confined_const\<close>)
qed (simp add: dbman_post_def confined_const assms(1))

section \<open>The repositories\<close>

text \<open>Data bases: an operation runs on the pool of its tenant.\<close>

definition sameView :: "'p dbEnv \<Rightarrow> string \<Rightarrow> 'p Repo \<Rightarrow> 'p Repo \<Rightarrow> bool" where
  "sameView penv t r1 r2 \<longleftrightarrow>
     router r1 = router r2 \<and> (\<forall>p. snd (DBForTenant (router r1) t penv) = Inr p \<longrightarrow> pools r1 p = pools r2 p)"

lemma pool_view: "confined (onlyTenant penv t) (sameView penv t) (\<lambda>r. withPool r penv t st)"
  unfolding confined_def
proof (intro conjI allI impI onlyTenant_withPool)
  show "snd (withPool r1 penv t st) = snd (withPool r2 penv t st)" if "sameView penv t r1 r2" for r1 r2
    using that by (auto simp: sameView_def withPool_def split: prod.split sum.split)
qed

text \<open>Rows: an operation changes only rows of its tenant, and a query sees only those.\<close>

lemma pool_rows: "ownRows t st \<Longrightarrow> confined (rowsApart t) (=) (\<lambda>r. withPool r penv t st)"
  by (simp add: confined_def rowsApart_withPool)

definition samePools :: "string \<Rightarrow> 'p Repo \<Rightarrow> 'p Repo \<Rightarrow> bool" where
  "samePools t r r' \<longleftrightarrow> pools r' = pools r"

lemma pool_query:
  assumes "ownQuery t st"
  shows "confined (samePools t) (sameRows penv t) (\<lambda>r. withPool r penv t (exec env k st))"
  unfolding confined_def samePools_def
proof (intro conjI allI impI)
  have q: "ownQuery t (exec env k st)" by (rule ownQuery_exec[OF assms])
  show "pools (fst (withPool r penv t (exec env k st))) = pools r" for r by (rule withPool_query) (use q in \<open>simp add: ownQuery_def\<close>)
  show "snd (withPool r1 penv t (exec env k st)) = snd (withPool r2 penv t (exec env k st))" if "sameRows penv t r1 r2" for r1 r2
    by (rule withPool_sameRows[OF q that])
qed

lemma repoAuth:
  "os_auth (repoUsers bc um penv env pg) r t em pw =
     (case GetByEmail r penv env t em of (r', Inl e) \<Rightarrow> (r', Inl e)
      | (r', Inr u) \<Rightarrow> (r', case CompareHashAndPassword bc (us_PasswordHash u) pw of Inl _ \<Rightarrow> Inl ''invalid credentials''
          | Inr _ \<Rightarrow> Inr (u\<lparr>us_PasswordHash := ''''\<rparr>)))"
  by (simp add: repoUsers_def usvc_Authenticate_def split: prod.split sum.split)

lemmas pool_ops = repoUsers_def repoSessions_def CreateOrgUnit_def ListOrgUnits_def repo_CreateUser_def user_UpdateStatus_def repo_SearchUsers_def
  usvc_SearchUsers_def GetByEmail_def ListAliases_def repo_AddAlias_def repo_DeleteAlias_def repo_ListAliasAudit_def UpsertDeviceSession_def
  ValidateAndTouchSession_def UpdateUserStatus_def CreateNote_def ListInbox_def MarkNoteRead_def SaveChatNotifications_def file_Create_def SearchByRoom_def
  usvc_CreateUser_def usvc_AddAlias_def usvc_DeleteAlias_def usvc_ListAliasAudit_def repoStore_def repo_ops Let_def

interpretation by_view: confined_services "dbman bc um penv env pg ready" "onlyTenant penv" "sameView penv" for bc um penv env pg ready
  by unfold_locales (unfold dbman_sel repoAuth, auto simp: pool_ops intro!: confining pool_view)

interpretation by_rows: confined_services "dbman bc um penv env pg ready" rowsApart "\<lambda>t. (=)" for bc um penv env pg ready
  by unfold_locales (unfold dbman_sel repoAuth, auto simp: pool_ops intro!: confining pool_rows owning)

interpretation by_query: reading_services "dbman bc um penv env pg ready" samePools "sameRows penv" for bc um penv env pg ready
  by unfold_locales (unfold dbman_sel repoAuth, auto simp: pool_ops samePools_def intro!: confining pool_query own_queries)


section \<open>Properties\<close>


definition joinBody :: json where
  "joinBody = JObj (jfields [(''tenant_id'', ''acme''), (''room_id'', ''r1''), (''user_id'', ''bob'')])"

lemma joinBody_tenant: "namedTenant joinBody = Inr ''acme''"
  by (simp add: namedTenant_def decodeOne_def joinBody_def jfields_def field_defs)

text \<open>A data base in which \<open>acme\<close> and \<open>bee\<close> both have rows.\<close>

definition mixedDB :: Database where
  "mixedDB = roomsDB\<lparr>users := users roomsDB @ [(userRow ''eve'')\<lparr>us_TenantID := ''bee''\<rparr>],
     room_members := room_members roomsDB @ [(memberOf ''z'' ''eve'')\<lparr>me_TenantID := ''bee''\<rparr>]\<rparr>"

definition dbmanEx :: "string Repo dbmanServices" where
  "dbmanEx = dbman bcEx (\<lambda>q u. us_Name u = q) acmeEnv chatEnv lowerText (\<lambda>_. Inr ())"

lemma mixedDB_ok: "readsOK mixedDB"
  by (simp add: readsOK_def mixedDB_def roomsDB_def readDB_def chatDB_def msgAt_def emptyDB_def)


text \<open>
  C8: A query sees only the rows of its tenant. Two states of the data base server in which the rows of a tenant are the same in the tenant's data base, whatever else this and the other data bases
  hold, give the same answers to every request of the tenant that reads (lists, searches, counts, the check of a membership, a login), and a request that reads changes no data base.
\<close>

theorem dbman_reads_own_rows:
  assumes "namedTenant j = Inr t" and "groupPath path = Some sub" and "sub \<in> readingRoutes" and "router r1 = router r2"
    and "\<And>p. snd (DBForTenant (router r1) t penv) = Inr p \<Longrightarrow> tenantRows t (pools r1 p) = tenantRows t (pools r2 p)"
  shows "snd (dbman_post (dbman bc um penv env pg ready) r1 path (Inr j)) = snd (dbman_post (dbman bc um penv env pg ready) r2 path (Inr j))
    \<and> pools (fst (dbman_post (dbman bc um penv env pg ready) r1 path (Inr j))) = pools r1"
proof -
  have "confined (samePools t) (sameRows penv t) (\<lambda>r. dbman_post (dbman bc um penv env pg ready) r path (Inr j))"
    by (rule post_confined[OF by_query.still by_query.reading_confined[OF assms(1)]]) (use assms(2,3) in simp)
  then show ?thesis using assms(4,5) by (simp add: confined_def sameRows_def samePools_def)
qed

theorem dbman_reads_own_rows_witness:
  "mixedDB \<noteq> roomsDB
   \<and> snd (dbman_post dbmanEx (chatRepoEx mixedDB) ''/api/v1/db/rooms/members/check'' (Inr joinBody))
     = snd (dbman_post dbmanEx (chatRepoEx roomsDB) ''/api/v1/db/rooms/members/check'' (Inr joinBody))"
proof
  have "users mixedDB \<noteq> users roomsDB" by (simp add: mixedDB_def)
  then show "mixedDB \<noteq> roomsDB" by auto
  have path: "groupPath ''/api/v1/db/rooms/members/check'' = Some ''/rooms/members/check''"
    by (simp add: groupPath_def HasPrefix_def TrimPrefix_def)
  have "tenantRows ''acme'' mixedDB = tenantRows ''acme'' roomsDB" by (simp add: tenantRows_def mixedDB_def)
  then show "snd (dbman_post dbmanEx (chatRepoEx mixedDB) ''/api/v1/db/rooms/members/check'' (Inr joinBody))
     = snd (dbman_post dbmanEx (chatRepoEx roomsDB) ''/api/v1/db/rooms/members/check'' (Inr joinBody))"
    using dbman_reads_own_rows[OF joinBody_tenant path, of "chatRepoEx mixedDB" "chatRepoEx roomsDB" acmeEnv bcEx "\<lambda>q u. us_Name u = q" chatEnv lowerText "\<lambda>_. Inr ()",
        folded dbmanEx_def]
    by (simp add: readingRoutes_def) (simp add: chatRepoEx_def)
qed

end
