(* ===== verification/Routes.thy ===== *)
theory Routes
  imports RemoteStores
begin

text \<open>
  The chat and session servers as they are seen from the network: a request with its method, path, header, query and body goes through the route table
  (\<open>RegisterRoutes\<close> in \<open>server/chat/api/handler.go\<close> and \<open>server/session/api/handler.go\<close>), the token middleware of the group \<open>/api/v1\<close>, the decoding of the
  body and the handler. Which route matches a path is gin's work and an argument.
\<close>

section \<open>Requests and routes\<close>

record httpReq =
  hq_method :: string
  hq_path :: string
  hq_authorization :: string
  hq_query :: "string \<Rightarrow> string option"
  hq_body :: "json result"
  hq_upgrade :: "nat result"

text \<open>\<open>c.Query\<close>.\<close>

definition queryOf :: "httpReq \<Rightarrow> string \<Rightarrow> string" where
  "queryOf req k = (case hq_query req k of None \<Rightarrow> '''' | Some v \<Rightarrow> v)"

text \<open>
  Gin's router: from the registered methods and patterns, the method and the path to the position of the matching route and the values of its parameters. The
  documented behaviour that matters here: it answers with a route that was registered for this method, or with none.
\<close>

type_synonym gin = "(string \<times> string) list \<Rightarrow> string \<Rightarrow> string \<Rightarrow> (nat \<times> (string \<Rightarrow> string)) option"

definition gin_ok :: "gin \<Rightarrow> bool" where
  "gin_ok g \<longleftrightarrow> (\<forall>rs m p i ps. g rs m p = Some (i, ps) \<longrightarrow> i < length rs \<and> fst (rs ! i) = m)"

text \<open>The routes of a server: method, pattern, whether the route is in the group behind the middleware, and its handler.\<close>

type_synonym 'h routes = "(string \<times> string \<times> bool \<times> 'h) list"

definition serveHTTP ::
  "gin \<Rightarrow> 'h routes \<Rightarrow> (string \<Rightarrow> (string \<times> string \<times> string) result) \<Rightarrow> ('h \<Rightarrow> (string \<Rightarrow> string) \<Rightarrow> ctx \<Rightarrow> 'st \<Rightarrow> 'st \<times> (response + 'o))
   \<Rightarrow> httpReq \<Rightarrow> 'st \<Rightarrow> 'st \<times> (response + 'o)" where
  "serveHTTP g routes parse handle req st =
     (case g (map (\<lambda>(m, p, _). (m, p)) routes) (hq_method req) (hq_path req) of
        None \<Rightarrow> (st, Inl notFound)
      | Some (i, params) \<Rightarrow>
          (case routes ! i of (_, _, inGroup, h) \<Rightarrow>
             if inGroup then
               (case AuthRequired parse (hq_authorization req) Map.empty of Inl resp \<Rightarrow> (st, Inl resp) | Inr c \<Rightarrow> handle h params c st)
             else handle h params Map.empty st))"

section \<open>Chat\<close>

datatype chatRoute = R_health | R_ws | R_createRoom | R_listMyRooms | R_addMember | R_createMessage | R_listMessages | R_getRoomUnreadCount
  | R_getMyUnreadCounts | R_markRoomRead | R_getMyReadState | R_getMessageReaders | R_searchMessages

definition chat_RegisterRoutes :: "chatRoute routes" where
  "chat_RegisterRoutes =
     [(''GET'', ''/health'', False, R_health), (''GET'', ''/ws'', False, R_ws), (''POST'', ''/api/v1/rooms'', True, R_createRoom),
      (''GET'', ''/api/v1/rooms'', True, R_listMyRooms), (''POST'', ''/api/v1/rooms/:id/members'', True, R_addMember),
      (''POST'', ''/api/v1/rooms/:id/messages'', True, R_createMessage), (''GET'', ''/api/v1/rooms/:id/messages'', True, R_listMessages),
      (''GET'', ''/api/v1/rooms/:id/unread-count'', True, R_getRoomUnreadCount), (''GET'', ''/api/v1/rooms/unread-counts'', True, R_getMyUnreadCounts),
      (''POST'', ''/api/v1/rooms/:id/read'', True, R_markRoomRead), (''GET'', ''/api/v1/rooms/:id/read'', True, R_getMyReadState),
      (''GET'', ''/api/v1/rooms/:id/messages/:messageId/readers'', True, R_getMessageReaders), (''GET'', ''/api/v1/messages/search'', True, R_searchMessages)]"

definition bindRoomReq :: "json \<Rightarrow> roomReq result" where
  "bindRoomReq j = bindR (structFields j) (\<lambda>fs. bindR (fStr fs ''name'') (\<lambda>n. bindR (fStr fs ''room_type'') (\<lambda>t. bindR (fStrs fs ''member_ids'') (\<lambda>ms.
     required [(''name'', n)] \<lparr>rr_Name = n, rr_RoomType = t, rr_MemberIDs = ms\<rparr>))))"

definition bindMessageReq :: "json \<Rightarrow> messageReq result" where
  "bindMessageReq j = bindR (structFields j) (\<lambda>fs. bindR (fStr fs ''body'') (\<lambda>b. bindR (fStrPtr fs ''file_id'') (\<lambda>f. bindR (fStrs fs ''file_ids'') (\<lambda>ids.
     bindR (decodeField decodeStrs None (fieldValues ''emojis'' fs)) (\<lambda>es.
       required [(''body'', b)] \<lparr>mq_Body = b, mq_FileID = f, mq_FileIDs = ids, mq_Emojis = es\<rparr>)))))"

text \<open>
  The state of the server: the store, the rooms of the web sockets and the Redis router. \<open>pubErr\<close> and \<open>http\<close> are the outcomes of publishing on Redis and of the requests to
  the vector server.
\<close>

type_synonym ('s, 'c) chatState = "'s \<times> 'c rooms \<times> 'c TenantRedisRouter"

definition restOut :: "'r \<Rightarrow> 's \<times> response \<Rightarrow> ('s \<times> 'r) \<times> (response + 'o)" where
  "restOut others out = ((fst out, others), Inl (snd out))"

definition chat_handle ::
  "'s ChatService \<Rightarrow> (string \<Rightarrow> (string \<times> string \<times> string) result) \<Rightarrow> 'c redisEnv \<Rightarrow> ('c \<Rightarrow> string option) \<Rightarrow> (string \<Rightarrow> json \<Rightarrow> json outcome)
   \<Rightarrow> httpReq \<Rightarrow> chatRoute \<Rightarrow> (string \<Rightarrow> string) \<Rightarrow> ctx \<Rightarrow> ('s, 'c) chatState \<Rightarrow> ('s, 'c) chatState \<times> (response + wsConn)" where
  "chat_handle svc parse renv pubErr http req h param c st =
     (case st of (s, rs, rt) \<Rightarrow>
      let body = hq_body req; limitQ = hq_query req ''limit''; cursor = queryOf req ''cursor''; keep = restOut (rs, rt) in
      case h of
        R_health \<Rightarrow> keep (s, (200, NewHealthResponse ''ok''))
      | R_ws \<Rightarrow>
          (case handleWS svc parse renv s rs rt c
             \<lparr>wr_authorization = hq_authorization req, wr_accessToken = queryOf req ''access_token'', wr_token = queryOf req ''token'',
              wr_tenant = queryOf req ''tenant_id'', wr_room = queryOf req ''room_id''\<rparr> (hq_upgrade req) of
             (s', rs', rt', out) \<Rightarrow> ((s', rs', rt'), out))
      | R_createRoom \<Rightarrow> keep (api_createRoom svc s c (bindR body bindRoomReq))
      | R_listMyRooms \<Rightarrow> keep (api_listMyRooms svc s c limitQ cursor)
      | R_addMember \<Rightarrow> keep (api_addMember svc s c (param ''id'') (bindR body (bind1 ''user_id'')))
      | R_createMessage \<Rightarrow>
          (case api_createMessage svc renv pubErr s rt c (param ''id'') (bindR body bindMessageReq) of
             (s', rt', resp, sent, pub) \<Rightarrow> ((s', rs, rt'), Inl resp))
      | R_listMessages \<Rightarrow> keep (api_listMessages svc s c (param ''id'') limitQ cursor)
      | R_getRoomUnreadCount \<Rightarrow> keep (api_getRoomUnreadCount svc s c (param ''id''))
      | R_getMyUnreadCounts \<Rightarrow> keep (api_getMyUnreadCounts svc s c)
      | R_markRoomRead \<Rightarrow> keep (api_markRoomRead svc s c (param ''id'') (bindR body (bind1 ''message_id'')))
      | R_getMyReadState \<Rightarrow> keep (api_getMyReadState svc s c (param ''id''))
      | R_getMessageReaders \<Rightarrow> keep (api_getMessageReaders svc s c (param ''id'') (param ''messageId''))
      | R_searchMessages \<Rightarrow> keep (api_searchMessages svc http s c (queryOf req ''q'') limitQ cursor (queryOf req ''room_id'')))"

definition chat_serve ::
  "gin \<Rightarrow> 's ChatService \<Rightarrow> (string \<Rightarrow> (string \<times> string \<times> string) result) \<Rightarrow> 'c redisEnv \<Rightarrow> ('c \<Rightarrow> string option) \<Rightarrow> (string \<Rightarrow> json \<Rightarrow> json outcome)
   \<Rightarrow> httpReq \<Rightarrow> ('s, 'c) chatState \<Rightarrow> ('s, 'c) chatState \<times> (response + wsConn)" where
  "chat_serve g svc parse renv pubErr http req = serveHTTP g chat_RegisterRoutes parse (chat_handle svc parse renv pubErr http req) req"

section \<open>Sessions\<close>

datatype sessionRoute = S_health | S_ws | S_loginDevice | S_updateSessionStatus | S_sendNote | S_listInbox | S_markNoteRead | S_notifyChat

definition session_RegisterRoutes :: "sessionRoute routes" where
  "session_RegisterRoutes =
     [(''GET'', ''/health'', False, S_health), (''GET'', ''/ws/session'', False, S_ws), (''POST'', ''/api/v1/session/login'', True, S_loginDevice),
      (''PATCH'', ''/api/v1/session/status'', True, S_updateSessionStatus), (''POST'', ''/api/v1/notes'', True, S_sendNote),
      (''GET'', ''/api/v1/notes/inbox'', True, S_listInbox), (''POST'', ''/api/v1/notes/:id/read'', True, S_markNoteRead),
      (''POST'', ''/api/v1/chat/notify'', True, S_notifyChat)]"

definition bindLoginReq :: "json \<Rightarrow> loginReq result" where
  "bindLoginReq j = bindR (structFields j) (\<lambda>fs. bindR (fStr fs ''device_id'') (\<lambda>i. bindR (fStr fs ''device_name'') (\<lambda>n. bindR (fStrs fs ''allowed_tenants'') (\<lambda>ts.
     required [(''device_id'', i)] \<lparr>lr_DeviceID = i, lr_DeviceName = n, lr_AllowedTenants = ts\<rparr>))))"

definition bindStatusReq :: "json \<Rightarrow> (string \<times> string) result" where
  "bindStatusReq j = bindR (structFields j) (\<lambda>fs. bindR (fStr fs ''status'') (\<lambda>s. bindR (fStr fs ''status_note'') (\<lambda>n. required [(''status'', s)] (s, n))))"

definition unmarshalNoteInput :: "json \<Rightarrow> NoteCreateInput result" where
  "unmarshalNoteInput j = bindR (structFields j) (\<lambda>fs. bindR (fStr fs ''title'') (\<lambda>t. bindR (fStr fs ''body'') (\<lambda>b. bindR (fStrs fs ''to'') (\<lambda>to.
     bindR (fStrs fs ''cc'') (\<lambda>cc. bindR (fStrs fs ''bcc'') (\<lambda>bcc. bindR (fList unmarshalNoteFile fs ''files'') (\<lambda>fl.
       Inr \<lparr>ni_Title = t, ni_Body = b, ni_To = to, ni_CC = cc, ni_BCC = bcc, ni_Files = fl\<rparr>)))))))"

text \<open>
  The state: the store and the hub. Besides the response, what was handed to the hub for notification; a web socket that was opened is the client and its greeting.
  \<open>rnd\<close>, \<open>pubErr\<close>, \<open>now\<close> and \<open>clock\<close> are the random bytes, the outcome of publishing and the clock.
\<close>

definition session_handle ::
  "'s sessionStore \<Rightarrow> nat list result \<Rightarrow> string option \<Rightarrow> time \<Rightarrow> (string \<Rightarrow> time) \<Rightarrow> httpReq \<Rightarrow> sessionRoute \<Rightarrow> (string \<Rightarrow> string) \<Rightarrow> ctx
   \<Rightarrow> 's \<times> Hub \<Rightarrow> ('s \<times> Hub) \<times> (response + (response \<times> dispatch option + WSClient \<times> delivery list))" where
  "session_handle st rnd pubErr now clock req h param c state =
     (case state of (s, hub) \<Rightarrow>
      let body = hq_body req;
          notified = (\<lambda>(s', resp, d). ((s', hub), Inr (Inl (resp, d)))) in
      case h of
        S_health \<Rightarrow> restOut hub (s, (200, NewHealthResponse ''ok''))
      | S_ws \<Rightarrow>
          (case handleSessionWS_open st s hub \<lparr>wq_tenant = queryOf req ''tenant_id'', wq_user = queryOf req ''user_id'',
               wq_session = queryOf req ''session_id'', wq_token = queryOf req ''session_token''\<rparr> (hq_upgrade req) now of
             (s', hub', Inl resp) \<Rightarrow> ((s', hub'), Inl resp)
           | (s', hub', Inr opened) \<Rightarrow> ((s', hub'), Inr (Inr opened)))
      | S_loginDevice \<Rightarrow> restOut hub (loginDevice st rnd s c (bindR body bindLoginReq))
      | S_updateSessionStatus \<Rightarrow> notified (updateSessionStatus st hub pubErr now s c (bindR body bindStatusReq))
      | S_sendNote \<Rightarrow> notified (sendNote st hub pubErr s c (bindR body unmarshalNoteInput))
      | S_listInbox \<Rightarrow> restOut hub (listInbox st s c (hq_query req ''limit''))
      | S_markNoteRead \<Rightarrow> restOut hub (markNoteRead st s c (param ''id''))
      | S_notifyChat \<Rightarrow> notified (notifyChat st hub pubErr clock s c (bindR body unmarshalNotify)))"

definition session_serve ::
  "gin \<Rightarrow> 's sessionStore \<Rightarrow> (string \<Rightarrow> (string \<times> string \<times> string) result) \<Rightarrow> nat list result \<Rightarrow> string option \<Rightarrow> time \<Rightarrow> (string \<Rightarrow> time) \<Rightarrow> httpReq
   \<Rightarrow> 's \<times> Hub \<Rightarrow> ('s \<times> Hub) \<times> (response + (response \<times> dispatch option + WSClient \<times> delivery list))" where
  "session_serve g st parse rnd pubErr now clock req = serveHTTP g session_RegisterRoutes parse (session_handle st rnd pubErr now clock req) req"


section \<open>Who may change what over the network\<close>

lemma serveHTTP_cases:
  assumes "gin_ok g" "serveHTTP g routes parse handle req st = out"
  obtains (missing) "out = (st, Inl notFound)"
  | (refused) resp where "AuthRequired parse (hq_authorization req) Map.empty = Inl resp" "out = (st, Inl resp)"
  | (inGroup) m p h params c where "(m, p, True, h) \<in> set routes" "AuthRequired parse (hq_authorization req) Map.empty = Inr c" "out = handle h params c st" "m = hq_method req"
  | (free) m p h params where "(m, p, False, h) \<in> set routes" "out = handle h params Map.empty st" "m = hq_method req"
proof (cases "g (map (\<lambda>(m, p, _). (m, p)) routes) (hq_method req) (hq_path req)")
  case None
  then show ?thesis using assms(2) missing by (simp add: serveHTTP_def)
next
  case (Some ip)
  obtain i params where ip: "ip = (i, params)" by (cases ip)
  obtain m p b h where ri: "routes ! i = (m, p, b, h)" by (cases "routes ! i")
  have i: "i < length routes" "fst (map (\<lambda>(m, p, _). (m, p)) routes ! i) = hq_method req" using assms(1) Some ip by (fastforce simp: gin_ok_def)+
  then have m: "m = hq_method req" using ri by simp
  have mem: "(m, p, b, h) \<in> set routes" using ri i(1) by (metis nth_mem)
  show ?thesis
  proof (cases b)
    case True
    show ?thesis
    proof (cases "AuthRequired parse (hq_authorization req) Map.empty")
      case (Inl resp)
      then show ?thesis using assms(2) Some ip ri True by (intro refused[OF Inl]) (simp add: serveHTTP_def)
    next
      case (Inr c)
      then show ?thesis using assms(2) Some ip ri mem m True by (intro inGroup[OF _ Inr, of m p h params]) (simp_all add: serveHTTP_def)
    qed
  next
    case False
    then show ?thesis using assms(2) Some ip ri mem m by (intro free[of m p h params]) (simp_all add: serveHTTP_def)
  qed
qed

lemma AuthRequired_cases:
  "(case AuthRequired parse header Map.empty of
      Inl resp \<Rightarrow> fst resp = 401 \<and> \<not> (HasPrefix header ''Bearer '' \<and> is_ok (parse (TrimPrefix header ''Bearer '')))
    | Inr c \<Rightarrow> HasPrefix header ''Bearer '' \<and> (\<exists>u t role. parse (TrimPrefix header ''Bearer '') = Inr (u, t, role) \<and> c ''auth_tenant_id'' = Some (CStr t)))"
  by (auto simp: AuthRequired_def Let_def is_ok_iff split: sum.split)

text \<open>The tenants of the tokens in a request that the server accepts: the bearer token of the middleware, or the token of a web-socket request.\<close>

definition chat_reqTenants :: "(string \<Rightarrow> (string \<times> string \<times> string) result) \<Rightarrow> httpReq \<Rightarrow> string set" where
  "chat_reqTenants parse req =
     {t. \<exists>u role. HasPrefix (hq_authorization req) ''Bearer '' \<and> parse (TrimPrefix (hq_authorization req) ''Bearer '') = Inr (u, t, role)} \<union>
     {t. \<exists>token u role. wsAccessToken (hq_authorization req) (queryOf req ''access_token'') (queryOf req ''token'') = Some token \<and> parse token = Inr (u, t, role)}"

lemmas chat_request_pairs = chat_request.createRoom[OF surjective_pairing] chat_request.listMyRooms[OF surjective_pairing]
  chat_request.addMember[OF surjective_pairing] chat_request.listMessages[OF surjective_pairing] chat_request.getRoomUnreadCount[OF surjective_pairing]
  chat_request.getMyUnreadCounts[OF surjective_pairing] chat_request.markRoomRead[OF surjective_pairing] chat_request.getMyReadState[OF surjective_pairing]
  chat_request.getMessageReaders[OF surjective_pairing] chat_request.searchMessages[OF surjective_pairing] chat_request.createMessage

lemma chat_handle_request:
  assumes "h \<noteq> R_health" "h \<noteq> R_ws" "chat_handle svc parse renv pubErr http req h param c (s, rs, rt) = ((s', rs', rt'), out)"
  shows "\<exists>resp. out = Inl resp \<and> chat_request svc renv c s s' resp"
  using assms by (cases h)
    (auto simp: chat_handle_def restOut_def Let_def simp del: split_paired_Ex split: prod.splits intro: chat_request_pairs)

context isolated_store
begin

lemma ws_only:
  assumes "ch_store svc = st" "chat_handle svc parse renv pubErr http req R_ws param c (s, rs, rt) = ((s', rs', rt'), out)"
  shows "(\<exists>t \<in> chat_reqTenants parse req. E t s s') \<or> ((s', rs', rt') = (s, rs, rt) \<and> (\<exists>resp. out = Inl resp \<and> fst resp = 401))"
proof (cases "wsAccessToken (hq_authorization req) (queryOf req ''access_token'') (queryOf req ''token'')")
  case None
  then show ?thesis using assms(2) by (auto simp: chat_handle_def handleWS_def)
next
  case (Some token)
  show ?thesis
  proof (cases "parse token")
    case (Inl e)
    then show ?thesis using assms(2) Some by (auto simp: chat_handle_def handleWS_def)
  next
    case (Inr utr)
    obtain u t role where utr: "utr = (u, t, role)" by (cases utr)
    have "E t s (fst (cs_isMember (ch_store svc) s t (TrimSpace (queryOf req ''room_id'')) u))" unfolding assms(1) by (rule only)
    then have "E t s s'"
      using assms(2) Some Inr utr by (auto simp: chat_handle_def handleWS_def Let_def still split: prod.splits sum.splits if_splits)
    then show ?thesis using Some Inr utr by (auto simp: chat_reqTenants_def)
  qed
qed

lemma http_only:
  assumes "gin_ok g" "ch_store svc = st" "ok s"
    and "chat_serve g svc parse renv pubErr http req (s, rs, rt) = ((s', rs', rt'), out)"
  shows "(\<exists>t \<in> chat_reqTenants parse req. E t s s') \<or>
    (s', rs', rt') = (s, rs, rt) \<and> (\<exists>code j. out = Inl (code, j) \<and> (code \<in> {401, 404} \<or> (code, j) = (200, NewHealthResponse ''ok'')))"
  using assms(1) assms(4)[unfolded chat_serve_def]
proof (cases rule: serveHTTP_cases)
  case (refused resp)
  then show ?thesis using AuthRequired_cases[where parse = parse and header = "hq_authorization req"] by (cases resp) auto
next
  case (inGroup m p h params c)
  then obtain u t role where t: "t \<in> chat_reqTenants parse req" "c ''auth_tenant_id'' = Some (CStr t)"
    using AuthRequired_cases[where parse = parse and header = "hq_authorization req"] by (auto simp: chat_reqTenants_def)
  have "h \<noteq> R_health" "h \<noteq> R_ws" using inGroup(1) by (auto simp: chat_RegisterRoutes_def)
  then obtain resp where "chat_request svc renv c s s' resp" using chat_handle_request inGroup(3) by metis
  then have "E t s s'" by (rule request_only[where c = c and t = t, OF assms(2,3) t(2)])
  then show ?thesis using t(1) by blast
next
  case (free m p h params)
  then have "h = R_health \<or> h = R_ws" by (auto simp: chat_RegisterRoutes_def)
  then show ?thesis
  proof
    assume "h = R_health"
    then show ?thesis using free(2) by (auto simp: chat_handle_def restOut_def)
  next
    assume "h = R_ws"
    then have "chat_handle svc parse renv pubErr http req R_ws params Map.empty (s, rs, rt) = ((s', rs', rt'), out)" using free(2) by simp
    from ws_only[OF assms(2) this] show ?thesis by auto
  qed
qed (simp add: notFound_def)

end

text \<open>
  C5: The chat server, with the data base server behind it, from the network. Whatever request arrives - any method, path, header, query and body, and whatever route gin takes it for - it changes no data base but
  that of the tenant of a token in the request that the server accepts. A request without an accepted token changes nothing at all: it is refused with 401 or 404, or it
  is the health check.
\<close>

theorem chat_http_isolation:
  assumes "gin_ok g" "ch_store svc = remoteChat (dbman bc um penv env pg ready) ep" "0 < db_cacheTTL (router r)"
    and "chat_serve g svc parse renv pubErr http req (r, rs, rt) = ((r', rs', rt'), out)"
  shows "(\<forall>p. (\<forall>t \<in> chat_reqTenants parse req. snd (DBForTenant (router r) t penv) \<noteq> Inr p) \<longrightarrow> pools r' p = pools r p) \<and>
    (chat_reqTenants parse req = {} \<longrightarrow> (r', rs', rt') = (r, rs, rt) \<and> (\<exists>code j. out = Inl (code, j) \<and> (code \<in> {401, 404} \<or> (code, j) = (200, NewHealthResponse ''ok''))))"
  using remote_store.http_only[OF assms] by (auto simp: onlyTenant_def)

text \<open>A router that takes the first route that matches, a parameter for one segment that is not empty.\<close>

fun segMatch :: "string list \<Rightarrow> string list \<Rightarrow> (string \<times> string) list option" where
  "segMatch [] [] = Some []"
| "segMatch (p # ps) (s # ss) =
     (if HasPrefix p '':'' \<and> s \<noteq> '''' then map_option ((#) (tl p, s)) (segMatch ps ss) else if p = s then segMatch ps ss else None)"
| "segMatch _ _ = None"

fun firstMatch :: "nat \<Rightarrow> gin" where
  "firstMatch i [] m p = None"
| "firstMatch i ((m', pat) # rs) m p =
     (case (if m' = m then segMatch (Split pat (CHR ''/'')) (Split p (CHR ''/'')) else None) of
        Some ps \<Rightarrow> Some (i, \<lambda>k. case map_of ps k of Some v \<Rightarrow> v | None \<Rightarrow> '''')
      | None \<Rightarrow> firstMatch (Suc i) rs m p)"

lemma firstMatch_ok: "firstMatch i rs m p = Some (j, ps) \<Longrightarrow> \<exists>k < length rs. j = i + k \<and> fst (rs ! k) = m"
proof (induction i rs m p rule: firstMatch.induct)
  case (2 i m' pat rs m p)
  show ?case
  proof (cases "if m' = m then segMatch (Split pat (CHR ''/'')) (Split p (CHR ''/'')) else None")
    case None
    then obtain k where "k < length rs" "j = Suc i + k" "fst (rs ! k) = m" using 2 by auto
    then show ?thesis by (intro exI[of _ "Suc k"]) simp
  next
    case (Some qs)
    then show ?thesis using "2.prems" by (intro exI[of _ 0]) (auto split: if_splits)
  qed
qed simp

lemma gin_firstMatch: "gin_ok (firstMatch 0)"
  unfolding gin_ok_def using firstMatch_ok[of 0] by fastforce

definition acceptTok :: "string \<Rightarrow> (string \<times> string \<times> string) result" where
  "acceptTok token = (if token = ''tok'' then Inr (''ada'', ''acme'', ''user'') else Inl ''bad'')"

definition addBob :: httpReq where
  "addBob = \<lparr>hq_method = ''POST'', hq_path = ''/api/v1/rooms/r/members'', hq_authorization = ''Bearer tok'', hq_query = (\<lambda>_. None),
     hq_body = Inr (JObj [(''user_id'', JStr ''bob'')]), hq_upgrade = Inl ''no''\<rparr>"

definition remoteSvc :: "string Repo ChatService" where
  "remoteSvc = chatSvc\<lparr>ch_store := remoteChat (dbman bcEx (\<lambda>q u. us_Name u = q) acmeEnv chatEnv plainText (\<lambda>_. Inr ())) ''http://dbman:8082''\<rparr>"

theorem chat_http_isolation_witness:
  "pools (fst (fst (chat_serve (firstMatch 0) remoteSvc acceptTok redisEnvEx (\<lambda>_. None) (\<lambda>_ _. DoErr ''down'') addBob
     (chatRepoEx roomsDB, [], NewTenantRedisRouter ''redis'' False)))) ''shared'' = roomsDB"
proof -
  let ?serve = "chat_serve (firstMatch 0) remoteSvc acceptTok redisEnvEx (\<lambda>_. None) (\<lambda>_ _. DoErr ''down'') addBob (chatRepoEx roomsDB, [], NewTenantRedisRouter ''redis'' False)"
  obtain r' rs' rt' out where serve: "?serve = ((r', rs', rt'), out)" by (metis prod.collapse)
  have st: "ch_store remoteSvc = remoteChat (dbman bcEx (\<lambda>q u. us_Name u = q) acmeEnv chatEnv plainText (\<lambda>_. Inr ())) ''http://dbman:8082''" by (simp add: remoteSvc_def)
  have ttl: "0 < db_cacheTTL (router (chatRepoEx roomsDB))" by (simp add: chatRepoEx_def NewTenantDBRouterWithProvider_def)
  have "t = ''acme''" if "t \<in> chat_reqTenants acceptTok addBob" for t using that by (auto simp: chat_reqTenants_def acceptTok_def split: if_splits)
  then have "\<forall>t \<in> chat_reqTenants acceptTok addBob. snd (DBForTenant (router (chatRepoEx roomsDB)) t acmeEnv) \<noteq> Inr ''shared''"
    using chatRepoEx_pool[of roomsDB] by auto
  then have "pools r' ''shared'' = pools (chatRepoEx roomsDB) ''shared''"
    using chat_http_isolation[OF gin_firstMatch st ttl serve] by blast
  then show ?thesis by (simp add: serve)
qed

text \<open>
  The session server from the network: a request without an accepted token changes nothing and notifies nobody, unless it is the handshake of a web socket, which brings the token
  of a session.
\<close>

theorem session_http_authenticated:
  assumes "gin_ok g" "session_serve g st parse rnd pubErr now clock req (s, hub) = ((s', hub'), out)"
    and "\<not> (HasPrefix (hq_authorization req) ''Bearer '' \<and> is_ok (parse (TrimPrefix (hq_authorization req) ''Bearer '')))"
  shows "(s', hub') = (s, hub) \<and> (\<exists>code j. out = Inl (code, j) \<and> (code \<in> {401, 404} \<or> (code, j) = (200, NewHealthResponse ''ok'')))
    \<or> (\<exists>params. session_handle st rnd pubErr now clock req S_ws params Map.empty (s, hub) = ((s', hub'), out))"
  using assms(1) assms(2)[unfolded session_serve_def]
proof (cases rule: serveHTTP_cases)
  case (refused resp)
  then show ?thesis using AuthRequired_cases[where parse = parse and header = "hq_authorization req"] by (cases resp) auto
next
  case (inGroup m p h params c)
  then show ?thesis using AuthRequired_cases[where parse = parse and header = "hq_authorization req"] assms(3) by (auto simp: is_ok_iff)
next
  case (free m p h params)
  then have "h = S_health \<or> h = S_ws" by (auto simp: session_RegisterRoutes_def)
  then show ?thesis using free(2) by (auto simp: session_handle_def[where h = S_health] restOut_def)
qed (simp add: notFound_def)

end
