(* ===== verification/Logger.thy ===== *)
theory Logger
  imports Filepath Env
begin

text \<open>
  The logger of \<open>server/common/log/logger.go\<close>. The file system is a map from clean paths to contents that only the logger writes to; every system call may
  fail, as the environment \<open>ioEnv\<close> of a call says. The search for a free name is a loop without a bound: \<open>None\<close> means that it does not return.
\<close>

section \<open>State\<close>

datatype level = DebugLevel | InfoLevel | WarnLevel | ErrorLevel | ExceptionLevel

fun levelName :: "level \<Rightarrow> string" where
  "levelName DebugLevel = ''DEBUG''"
| "levelName InfoLevel = ''INFO''"
| "levelName WarnLevel = ''WARN''"
| "levelName ErrorLevel = ''ERROR''"
| "levelName ExceptionLevel = ''EXCEPTION''"

datatype handle = Opened | Closed

record logger =
  lg_filePath :: string
  lg_maxSizeBytes :: int
  lg_format :: string
  lg_colorEnabled :: bool
  lg_file :: "handle option"

definition parseBoolDefault :: "string \<Rightarrow> bool \<Rightarrow> bool" where
  "parseBoolDefault raw defaultValue =
     (let v = ToLower (TrimSpace raw) in
      if v \<in> {''1'', ''true'', ''yes'', ''y'', ''on''} then True
      else if v \<in> {''0'', ''false'', ''no'', ''n'', ''off''} then False else defaultValue)"

definition newLoggerFromEnv :: "environ \<Rightarrow> logger" where
  "newLoggerFromEnv getenv =
     (let path0 = TrimSpace (getenv ''LOG_FILE_PATH''); path = (if path0 = '''' then ''./logs/msg_server.log'' else path0);
          raw = TrimSpace (getenv ''LOG_MAX_SIZE_MB'');
          maxSizeBytes = (if raw \<noteq> '''' then (case Atoi raw of (sizeMB, None) \<Rightarrow> if 0 < sizeMB then wrap64 (wrap64 (sizeMB * 1024) * 1024) else 20 * 1024 * 1024
                                            | (_, Some _) \<Rightarrow> 20 * 1024 * 1024) else 20 * 1024 * 1024);
          format0 = ToLower (TrimSpace (getenv ''LOG_FORMAT'')); format = (if format0 \<noteq> ''json'' then ''text'' else format0) in
      \<lparr>lg_filePath = path, lg_maxSizeBytes = maxSizeBytes, lg_format = format,
       lg_colorEnabled = parseBoolDefault (TrimSpace (getenv ''LOG_COLOR'')) True, lg_file = None\<rparr>)"

section \<open>Lines\<close>

fun colorForLevel :: "level \<Rightarrow> string" where
  "colorForLevel DebugLevel = CHR 0x1B # ''[90m''"
| "colorForLevel InfoLevel = CHR 0x1B # ''[32m''"
| "colorForLevel WarnLevel = CHR 0x1B # ''[33m''"
| "colorForLevel ErrorLevel = CHR 0x1B # ''[31m''"
| "colorForLevel ExceptionLevel = CHR 0x1B # ''[35m''"

definition terminalColorReset :: string where
  "terminalColorReset = CHR 0x1B # ''[0m''"

text \<open>\<open>fullName\<close> is the name of the calling function, if the runtime knows it.\<close>

definition callerFuncName :: "string option \<Rightarrow> string" where
  "callerFuncName fullName = (case fullName of None \<Rightarrow> ''unknown'' | Some n \<Rightarrow> last (Split n (CHR ''/'')))"

text \<open>\<open>marshal\<close> is \<open>json.Marshal\<close> of a map from strings to strings.\<close>

definition formatLine :: "logger \<Rightarrow> ((string \<times> string) list \<Rightarrow> string result) \<Rightarrow> string \<Rightarrow> level \<Rightarrow> string \<Rightarrow> string \<Rightarrow> string" where
  "formatLine l marshal ts lv caller message =
     (let plain = ts @ '':'' @ levelName lv @ '':'' @ caller @ '':'' @ message in
      if lg_format l = ''json''
      then (case marshal [(''timestamp'', ts), (''level'', levelName lv), (''caller'', caller), (''message'', message)] of Inr b \<Rightarrow> b | Inl _ \<Rightarrow> plain)
      else plain)"

section \<open>Files\<close>

type_synonym fs = "string \<rightharpoonup> string"

text \<open>The failures of the system calls of one call of the logger, and the time of a rotation as text. A failing write has written a part of the line.\<close>

record ioEnv =
  io_ts :: string
  io_mkdir :: "string option"
  io_open :: "string option"
  io_stat :: "string option"
  io_sync :: "string option"
  io_close :: "string option"
  io_candStat :: "string \<Rightarrow> string option"
  io_rename :: "string option"
  io_reopen :: "string option"
  io_write :: "(nat \<times> string) option"

definition contents :: "fs \<Rightarrow> string \<Rightarrow> string" where
  "contents fs p = (case fs p of None \<Rightarrow> '''' | Some c \<Rightarrow> c)"

definition ensureOpen :: "logger \<Rightarrow> fs \<Rightarrow> ioEnv \<Rightarrow> logger \<times> fs \<times> unit result" where
  "ensureOpen l fs io =
     (case lg_file l of
        Some _ \<Rightarrow> (l, fs, Inr ())
      | None \<Rightarrow>
          (case io_mkdir io of
             Some e \<Rightarrow> (l, fs, Inl e)
           | None \<Rightarrow>
               (case io_open io of
                  Some e \<Rightarrow> (l, fs, Inl e)
                | None \<Rightarrow> (l\<lparr>lg_file := Some Opened\<rparr>, fs(Clean (lg_filePath l) \<mapsto> contents fs (Clean (lg_filePath l))), Inr ()))))"

partial_function (option) nextFree :: "fs \<Rightarrow> (string \<Rightarrow> string option) \<Rightarrow> (nat \<Rightarrow> string) \<Rightarrow> nat \<Rightarrow> string result option" where
  "nextFree fs statErr candidate index =
     (case statErr (candidate index) of
        Some e \<Rightarrow> Some (Inl e)
      | None \<Rightarrow>
          (case fs (candidate index) of
             None \<Rightarrow> Some (Inr (candidate index))
           | Some _ \<Rightarrow> nextFree fs statErr candidate (Suc index)))"

definition rotatedName :: "string \<Rightarrow> string \<Rightarrow> nat \<Rightarrow> string" where
  "rotatedName currentPath ts index =
     (let ext = Ext currentPath; base = TrimSuffix (Base currentPath) ext in
      Join2 (Dir currentPath) (base @ ''_'' @ ts @ ''_'' @ show_nat index @ ext))"

definition nextRotatedPath :: "fs \<Rightarrow> ioEnv \<Rightarrow> string \<Rightarrow> string result option" where
  "nextRotatedPath fs io currentPath = nextFree fs (io_candStat io) (rotatedName currentPath (io_ts io)) 1"

definition err_closed :: "string \<Rightarrow> string" where "err_closed name = ''stat '' @ name @ '': use of closed file''"

definition rotateIfNeeded :: "logger \<Rightarrow> fs \<Rightarrow> ioEnv \<Rightarrow> int \<Rightarrow> (logger \<times> fs \<times> unit result) option" where
  "rotateIfNeeded l fs io incomingSize =
     (let p = Clean (lg_filePath l) in
      case lg_file l of
        None \<Rightarrow> Some (l, fs, Inr ())
      | Some Closed \<Rightarrow> Some (l, fs, Inl (err_closed (lg_filePath l)))
      | Some Opened \<Rightarrow>
          (case io_stat io of
             Some e \<Rightarrow> Some (l, fs, Inl e)
           | None \<Rightarrow>
          if int (length (contents fs p)) + incomingSize \<le> lg_maxSizeBytes l then Some (l, fs, Inr ())
          else (case io_sync io of
             Some e \<Rightarrow> Some (l, fs, Inl e)
           | None \<Rightarrow>
          let closed = l\<lparr>lg_file := Some Closed\<rparr> in
          (case io_close io of
             Some e \<Rightarrow> Some (closed, fs, Inl e)
           | None \<Rightarrow>
          (case nextRotatedPath fs io (lg_filePath l) of
             None \<Rightarrow> None
           | Some (Inl e) \<Rightarrow> Some (closed, fs, Inl e)
           | Some (Inr rotatedPath) \<Rightarrow>
          (case io_rename io of
             Some e \<Rightarrow> Some (closed, fs, Inl e)
           | None \<Rightarrow>
          let moved = (fs(rotatedPath := fs p))(p := None) in
          (case io_reopen io of
             Some e \<Rightarrow> Some (closed, moved, Inl e)
           | None \<Rightarrow> Some (l\<lparr>lg_file := Some Opened\<rparr>, moved(p \<mapsto> ''''), Inr ()))))))))"

text \<open>Besides the state, what is printed to standard error.\<close>

definition writeToFile :: "logger \<Rightarrow> fs \<Rightarrow> ioEnv \<Rightarrow> string \<Rightarrow> (logger \<times> fs \<times> string list) option" where
  "writeToFile l fs io line =
     (case ensureOpen l fs io of
        (l1, fs1, Inl e) \<Rightarrow> Some (l1, fs1, [''logger open file error: '' @ e])
      | (l1, fs1, Inr _) \<Rightarrow>
          (case rotateIfNeeded l1 fs1 io (int (length line)) of
             None \<Rightarrow> None
           | Some (l2, fs2, Inl e) \<Rightarrow> Some (l2, fs2, [''logger rotate error: '' @ e])
           | Some (l2, fs2, Inr _) \<Rightarrow>
               let p = Clean (lg_filePath l2) in
               case io_write io of
                 Some (k, e) \<Rightarrow> Some (l2, fs2(p \<mapsto> contents fs2 p @ take k line), [''logger write error: '' @ e])
               | None \<Rightarrow> Some (l2, fs2(p \<mapsto> contents fs2 p @ line), [])))"

text \<open>The line on standard output and what \<open>writeToFile\<close> does.\<close>

definition logf ::
  "logger \<Rightarrow> ((string \<times> string) list \<Rightarrow> string result) \<Rightarrow> fs \<Rightarrow> ioEnv \<Rightarrow> string \<Rightarrow> string option \<Rightarrow> level \<Rightarrow> string
   \<Rightarrow> string \<times> (logger \<times> fs \<times> string list) option" where
  "logf l marshal fs io ts fullName lv message =
     (let line = formatLine l marshal ts lv (callerFuncName fullName) message;
          shown = (if lg_colorEnabled l then colorForLevel lv @ line @ terminalColorReset else line) in
      (shown, writeToFile l fs io (line @ [CHR 0x0A])))"

definition Debugf where "Debugf l marshal fs io ts fullName message = logf l marshal fs io ts fullName DebugLevel message"

definition Infof where "Infof l marshal fs io ts fullName message = logf l marshal fs io ts fullName InfoLevel message"

definition Warnf where "Warnf l marshal fs io ts fullName message = logf l marshal fs io ts fullName WarnLevel message"

definition Errorf where "Errorf l marshal fs io ts fullName message = logf l marshal fs io ts fullName ErrorLevel message"

definition Exceptionf where "Exceptionf l marshal fs io ts fullName message = logf l marshal fs io ts fullName ExceptionLevel message"

text \<open>Writes one after the other, as the mutex orders them, and what they print to standard error.\<close>

fun writeAll :: "logger \<Rightarrow> fs \<Rightarrow> (ioEnv \<times> string) list \<Rightarrow> (logger \<times> fs \<times> string list) option" where
  "writeAll l fs [] = Some (l, fs, [])"
| "writeAll l fs ((io, line) # ws) =
     (case writeToFile l fs io line of
        None \<Rightarrow> None
      | Some (l1, fs1, out1) \<Rightarrow> (case writeAll l1 fs1 ws of None \<Rightarrow> None | Some (l2, fs2, out2) \<Rightarrow> Some (l2, fs2, out1 @ out2)))"


section \<open>The names of rotated files\<close>

lemma digit_char_inj: "a < 10 \<Longrightarrow> b < 10 \<Longrightarrow> digit_char a = digit_char b \<Longrightarrow> a = b"
  by (metis digit_val_char option.inject)

lemma show_nat_inj: "show_nat m = show_nat n \<Longrightarrow> m = n"
proof (induction m arbitrary: n rule: show_nat.induct)
  case (1 m)
  have split: "show_nat k = (if k < 10 then [] else show_nat (k div 10)) @ [digit_char (k mod 10)]" for k
    by (subst show_nat.simps) simp
  have digit: "m mod 10 = n mod 10"
    using arg_cong[OF "1.prems", of last] by (intro digit_char_inj) (simp_all add: split)
  have front: "(if m < 10 then [] else show_nat (m div 10)) = (if n < 10 then [] else show_nat (n div 10))"
    using arg_cong[OF "1.prems", of butlast] by (simp only: split[of m] split[of n] butlast_snoc)
  show ?case
  proof (cases "m < 10")
    case True
    then have "n < 10" using front by (metis show_nat_Nil)
    then show ?thesis using True digit by simp
  next
    case False
    then have "\<not> n < 10" "m div 10 = n div 10" using front "1.IH"[OF False, of "n div 10"] by (auto split: if_splits)
    then show ?thesis using digit by (metis div_mult_mod_eq)
  qed
qed

lemma TrimSuffix_subset: "set (TrimSuffix s p) \<subseteq> set s"
  by (auto simp: TrimSuffix_def dest: in_set_takeD)

definition rotatable :: "string \<Rightarrow> string \<Rightarrow> bool" where
  "rotatable path ts \<longleftrightarrow> Base path \<noteq> ''/'' \<and> CHR ''/'' \<notin> set ts"

lemma rotatedName_inj:
  assumes "rotatable path ts"
  shows "inj (rotatedName path ts)"
proof -
  let ?b = "TrimSuffix (Base path) (Ext path)"
  have dir: "Dir path \<noteq> ''''" by (simp add: Dir_def)
  have digits: "CHR ''/'' \<notin> set (show_nat i)" for i
  proof
    assume "CHR ''/'' \<in> set (show_nat i)"
    then obtain d where "d < 10" "CHR ''/'' = digit_char d" using show_nat_digits by blast
    then have "of_char (CHR ''/'' :: char) = (48 + d :: nat)" by (simp add: digit_char_def)
    then show False by simp
  qed
  have base: "CHR ''/'' \<notin> set ?b"
    using Base_plain[of path] TrimSuffix_subset[of "Base path" "Ext path"] assms by (auto simp: rotatable_def)
  have plain: "plainName (?b @ ''_'' @ ts @ ''_'' @ show_nat i @ Ext path)" for i
    using base digits[of i] Ext_slash[of path] assms by (auto simp: plainName_def rotatable_def append_eq_Cons_conv)
  obtain pre where "\<And>name. plainName name \<Longrightarrow> Join2 (Dir path) name = pre @ name"
    using Join2_prefix[OF dir] by blast
  then have "rotatedName path ts i = pre @ ?b @ ''_'' @ ts @ ''_'' @ show_nat i @ Ext path" for i
    unfolding rotatedName_def Let_def using plain by blast
  then show ?thesis by (auto intro!: injI dest: show_nat_inj)
qed


section \<open>The search for a free name returns\<close>

lemma nextFree_step:
  "fs (cand i) = None \<Longrightarrow> \<exists>r. nextFree fs se cand i = Some r \<and> (\<forall>p. r = Inr p \<longrightarrow> fs p = None) \<and> ((\<forall>p. se p = None) \<longrightarrow> (\<exists>p. r = Inr p))"
  by (subst nextFree.simps) (auto split: option.split)

lemma nextFree_reaches:
  "fs (cand (i + k)) = None \<Longrightarrow>
   \<exists>r. nextFree fs se cand i = Some r \<and> (\<forall>p. r = Inr p \<longrightarrow> fs p = None) \<and> ((\<forall>p. se p = None) \<longrightarrow> (\<exists>p. r = Inr p))"
proof (induction k arbitrary: i)
  case 0
  then show ?case using nextFree_step[of fs cand i] by simp
next
  case (Suc k)
  show ?case
  proof (cases "fs (cand i)")
    case (Some c)
    then show ?thesis using Suc.IH[of "Suc i"] Suc.prems by (subst (1) nextFree.simps) (auto split: option.split)
  qed (rule nextFree_step)
qed

lemma nextFree_returns:
  assumes "finite (dom fs)" "inj cand"
  shows "\<exists>r. nextFree fs se cand i = Some r \<and> (\<forall>p. r = Inr p \<longrightarrow> fs p = None) \<and> ((\<forall>p. se p = None) \<longrightarrow> (\<exists>p. r = Inr p))"
proof -
  have "inj (\<lambda>k. cand (i + k))" using assms(2) unfolding inj_def by (metis add_left_cancel)
  then have "infinite (range (\<lambda>k. cand (i + k)))" using finite_imageD infinite_UNIV_nat by blast
  then have "\<not> range (\<lambda>k. cand (i + k)) \<subseteq> dom fs" using assms(1) finite_subset by blast
  then obtain k where "fs (cand (i + k)) = None" by blast
  then show ?thesis by (rule nextFree_reaches)
qed

text \<open>
  C30: The search for the name of a rotated file ends, however many files lie in the directory and whatever names they have, and the name that it returns is free:
  a rotation never overwrites a file. Only a failing \<open>os.Stat\<close> makes it return an error.
\<close>

theorem nextRotatedPath_returns:
  assumes "finite (dom fs)" "rotatable path (io_ts io)"
  shows "\<exists>r. nextRotatedPath fs io path = Some r \<and> (\<forall>p. r = Inr p \<longrightarrow> fs p = None) \<and> ((\<forall>p. io_candStat io p = None) \<longrightarrow> (\<exists>p. r = Inr p))"
  unfolding nextRotatedPath_def by (rule nextFree_returns[OF assms(1) rotatedName_inj[OF assms(2)]])


theorem nextRotatedPath_returns_witness:
  "\<exists>r. nextRotatedPath [''logs/a_1_1.log'' \<mapsto> ''x'', ''logs/a_1_2.log'' \<mapsto> ''y'']
          \<lparr>io_ts = ''1'', io_mkdir = None, io_open = None, io_stat = None, io_sync = None, io_close = None, io_candStat = \<lambda>_. None,
           io_rename = None, io_reopen = None, io_write = None\<rparr> ''./logs/a.log'' = Some (Inr r) \<and> r \<notin> {''logs/a_1_1.log'', ''logs/a_1_2.log''}"
proof -
  have "rotatable ''./logs/a.log'' ''1''" by code_simp
  then show ?thesis
    using nextRotatedPath_returns[where fs = "[''logs/a_1_1.log'' \<mapsto> ''x'', ''logs/a_1_2.log'' \<mapsto> ''y'']" and path = "''./logs/a.log''"
        and io = "\<lparr>io_ts = ''1'', io_mkdir = None, io_open = None, io_stat = None, io_sync = None, io_close = None, io_candStat = \<lambda>_. None,
                   io_rename = None, io_reopen = None, io_write = None\<rparr>"]
    by (auto split: if_splits)
qed

section \<open>No line is lost\<close>

definition faultFree :: "ioEnv \<Rightarrow> bool" where
  "faultFree io \<longleftrightarrow> io_mkdir io = None \<and> io_open io = None \<and> io_stat io = None \<and> io_sync io = None \<and> io_close io = None \<and>
     (\<forall>p. io_candStat io p = None) \<and> io_rename io = None \<and> io_reopen io = None \<and> io_write io = None"

definition logger_ok :: "logger \<Rightarrow> fs \<Rightarrow> bool" where
  "logger_ok l fs \<longleftrightarrow> finite (dom fs) \<and> lg_file l \<noteq> Some Closed \<and> (lg_file l = Some Opened \<longrightarrow> fs (Clean (lg_filePath l)) \<noteq> None)"

lemma ensureOpen_ok:
  assumes "logger_ok l fs" "faultFree io"
  shows "ensureOpen l fs io = (l\<lparr>lg_file := Some Opened\<rparr>, fs(Clean (lg_filePath l) \<mapsto> contents fs (Clean (lg_filePath l))), Inr ())"
proof (cases "lg_file l")
  case None
  then show ?thesis using assms(2) by (simp add: ensureOpen_def faultFree_def)
next
  case (Some h)
  then have "h = Opened" "\<exists>c. fs (Clean (lg_filePath l)) = Some c" using assms(1) by (cases h; auto simp: logger_ok_def)+
  then show ?thesis using Some by (auto simp: ensureOpen_def contents_def fun_upd_idem)
qed

lemma rotateIfNeeded_ok:
  assumes "finite (dom fs)" "faultFree io" "rotatable (lg_filePath l) (io_ts io)" "lg_file l = Some Opened" "fs (Clean (lg_filePath l)) = Some c"
  shows "int (length c + n) \<le> lg_maxSizeBytes l \<and> rotateIfNeeded l fs io (int n) = Some (l, fs, Inr ()) \<or>
         (\<exists>rp. fs rp = None \<and> rp \<noteq> Clean (lg_filePath l) \<and>
            rotateIfNeeded l fs io (int n) = Some (l, fs(rp \<mapsto> c, Clean (lg_filePath l) \<mapsto> ''''), Inr ()))"
proof (cases "int (length c + n) \<le> lg_maxSizeBytes l")
  case True
  then show ?thesis using assms by (simp add: rotateIfNeeded_def faultFree_def contents_def Let_def)
next
  case False
  obtain rp where "nextRotatedPath fs io (lg_filePath l) = Some (Inr rp)" "fs rp = None"
    using nextFree_returns[OF assms(1) rotatedName_inj[OF assms(3)], of "io_candStat io" 1] assms(2)
    unfolding nextRotatedPath_def faultFree_def by blast
  moreover have "l\<lparr>lg_file := Some Opened\<rparr> = l" using assms(4) by simp
  ultimately show ?thesis
    using assms False by (intro disjI2 exI[of _ rp]) (auto simp: rotateIfNeeded_def faultFree_def contents_def Let_def fun_upd_twist)
qed

lemma write_step:
  assumes "logger_ok l fs" "faultFree io" "rotatable (lg_filePath l) (io_ts io)"
  defines "p \<equiv> Clean (lg_filePath l)"
  shows "\<exists>fs'. writeToFile l fs io line = Some (l\<lparr>lg_file := Some Opened\<rparr>, fs', []) \<and>
           (int (length (contents fs p @ line)) \<le> lg_maxSizeBytes l \<and> fs' = fs(p \<mapsto> contents fs p @ line) \<or>
            (\<exists>rp. fs rp = None \<and> rp \<noteq> p \<and> fs' = fs(rp \<mapsto> contents fs p, p \<mapsto> line)))"
proof -
  let ?l = "l\<lparr>lg_file := Some Opened\<rparr>" and ?fs = "fs(p \<mapsto> contents fs p)"
  have "finite (dom ?fs)" using assms(1) by (simp add: logger_ok_def)
  then consider (fits) "int (length (contents fs p) + length line) \<le> lg_maxSizeBytes ?l" "rotateIfNeeded ?l ?fs io (int (length line)) = Some (?l, ?fs, Inr ())"
    | (rotates) rp where "?fs rp = None" "rp \<noteq> p" "rotateIfNeeded ?l ?fs io (int (length line)) = Some (?l, ?fs(rp \<mapsto> contents fs p, p \<mapsto> ''''), Inr ())"
    using rotateIfNeeded_ok[of ?fs io ?l "contents fs p" "length line"] assms by auto
  then show ?thesis
  proof cases
    case fits
    then show ?thesis
      using assms(2) unfolding writeToFile_def ensureOpen_ok[OF assms(1,2)] p_def[symmetric]
      by (intro exI[of _ "fs(p \<mapsto> contents fs p @ line)"]) (simp add: faultFree_def contents_def Let_def p_def)
  next
    case rotates
    have "?fs(rp \<mapsto> contents fs p, p \<mapsto> '''') = fs(rp \<mapsto> contents fs p, p \<mapsto> '''')" using rotates(2) by (simp add: fun_upd_twist)
    then show ?thesis
      using rotates assms(2) unfolding writeToFile_def ensureOpen_ok[OF assms(1,2)] p_def[symmetric]
      by (intro exI[of _ "fs(rp \<mapsto> contents fs p, p \<mapsto> line)"]) (auto simp: faultFree_def contents_def Let_def p_def)
  qed
qed


lemma contents_upd: "contents (fs(p \<mapsto> c)) q = (if q = p then c else contents fs q)"
  by (simp add: contents_def)

text \<open>
  What a sequence of writes leaves: the files \<open>ps\<close> into which the log was rotated, in order, did not exist before, are not the current file, and with the current
  file hold the old content and all lines in order; no other file changed; a file is no larger than the limit, or is what the log held at first, or is a single line.
\<close>

definition logKept :: "string \<Rightarrow> int \<Rightarrow> fs \<Rightarrow> fs \<Rightarrow> string list \<Rightarrow> string list \<Rightarrow> bool" where
  "logKept p maxSize fs fs' lines ps \<longleftrightarrow>
     distinct ps \<and> (\<forall>r \<in> set ps. fs r = None \<and> r \<noteq> p) \<and>
     concat (map (contents fs') ps) @ contents fs' p = contents fs p @ concat lines \<and>
     (\<forall>q. q \<noteq> p \<and> q \<notin> set ps \<longrightarrow> fs' q = fs q) \<and>
     (\<forall>q \<in> set (p # ps). int (length (contents fs' q)) \<le> maxSize \<or> contents fs' q \<in> set (contents fs p # lines))"

lemma logKept_append:
  assumes "int (length (contents fs p @ line)) \<le> m" "logKept p m (fs(p \<mapsto> contents fs p @ line)) fs' ls ps"
  shows "logKept p m fs fs' (line # ls) ps"
  using assms by (auto simp: logKept_def contents_upd split: if_splits)

lemma logKept_rotate:
  assumes "fs rp = None" "rp \<noteq> p" "logKept p m (fs(rp \<mapsto> contents fs p, p \<mapsto> line)) fs' ls ps"
  shows "logKept p m fs fs' (line # ls) (rp # ps)"
proof -
  have new: "rp \<notin> set ps" and same: "fs' rp = Some (contents fs p)"
    using assms by (auto simp: logKept_def split: if_splits)
  then have "contents fs' rp = contents fs p" by (simp add: contents_def)
  then show ?thesis using assms new by (auto simp: logKept_def contents_upd split: if_splits)
qed

lemma writeAll_kept:
  assumes "logger_ok l fs" "\<forall>(io, line) \<in> set ws. faultFree io \<and> rotatable (lg_filePath l) (io_ts io)"
  shows "\<exists>l' fs' ps. writeAll l fs ws = Some (l', fs', []) \<and> logger_ok l' fs' \<and> logKept (Clean (lg_filePath l)) (lg_maxSizeBytes l) fs fs' (map snd ws) ps"
  using assms
proof (induction ws arbitrary: l fs)
  case Nil
  then show ?case by (auto simp: logKept_def intro!: exI[of _ "[]"])
next
  case (Cons w ws)
  obtain io line where w: "w = (io, line)" by (cases w)
  let ?l = "l\<lparr>lg_file := Some Opened\<rparr>" and ?p = "Clean (lg_filePath l)"
  obtain fs1 where step: "writeToFile l fs io line = Some (?l, fs1, [])"
    and how: "int (length (contents fs ?p @ line)) \<le> lg_maxSizeBytes l \<and> fs1 = fs(?p \<mapsto> contents fs ?p @ line) \<or>
              (\<exists>rp. fs rp = None \<and> rp \<noteq> ?p \<and> fs1 = fs(rp \<mapsto> contents fs ?p, ?p \<mapsto> line))"
    using write_step[OF Cons.prems(1), of io line] Cons.prems(2) w by auto
  have "logger_ok ?l fs1" using how Cons.prems(1) by (auto simp: logger_ok_def)
  then obtain l' fs' ps where rest: "writeAll ?l fs1 ws = Some (l', fs', [])" "logger_ok l' fs'" "logKept ?p (lg_maxSizeBytes l) fs1 fs' (map snd ws) ps"
    using Cons.IH[of ?l fs1] Cons.prems(2) by auto
  have "\<exists>qs. logKept ?p (lg_maxSizeBytes l) fs fs' (line # map snd ws) qs"
    using how rest(3) logKept_append logKept_rotate by blast
  then show ?case using step rest w by auto
qed



section \<open>After a failed rotation\<close>

text \<open>
  A rotation that fails after it closed the file leaves the closed file in the logger. From then on every line is refused, although the file system works again: only
  a restart of the process helps.
\<close>

lemma rotation_failure_closes:
  assumes "rotateIfNeeded l fs io n = Some (l', fs', Inl e)" "lg_file l = Some Opened" "io_stat io = None" "io_sync io = None"
  shows "lg_file l' = Some Closed"
  using assms by (auto simp: rotateIfNeeded_def Let_def split: if_splits option.splits sum.splits)

lemma logger_stuck:
  assumes "lg_file l = Some Closed"
  shows "writeAll l fs ws = Some (l, fs, map (\<lambda>_. ''logger rotate error: '' @ err_closed (lg_filePath l)) ws)"
proof (induction ws)
  case (Cons w ws)
  then show ?case using assms by (cases w) (simp add: writeToFile_def ensureOpen_def rotateIfNeeded_def Let_def)
qed simp

text \<open>A size in megabytes whose number of bytes does not fit into 64 bits makes the limit negative, and every line its own file.\<close>

lemma newLoggerFromEnv_overflow:
  assumes "Atoi (TrimSpace (getenv ''LOG_MAX_SIZE_MB'')) = (2 ^ 43, None)"
  shows "lg_maxSizeBytes (newLoggerFromEnv getenv) = - (2 ^ 63)"
proof -
  have "TrimSpace (getenv ''LOG_MAX_SIZE_MB'') \<noteq> ''''" using assms by (auto simp: Atoi_def ParseInt_def Let_def)
  then show ?thesis using assms by (simp add: newLoggerFromEnv_def Let_def wrap64_def)
qed

lemma newLoggerFromEnv_limit:
  assumes "Atoi (TrimSpace (getenv ''LOG_MAX_SIZE_MB'')) = (n, None)" "0 < n" "n < 2 ^ 43"
  shows "lg_maxSizeBytes (newLoggerFromEnv getenv) = n * 1024 * 1024"
proof -
  have "TrimSpace (getenv ''LOG_MAX_SIZE_MB'') \<noteq> ''''" using assms(1) by (auto simp: Atoi_def ParseInt_def Let_def)
  then show ?thesis using assms by (simp add: newLoggerFromEnv_def Let_def wrap64_id)
qed

lemma newLoggerFromEnv_format: "lg_format (newLoggerFromEnv getenv) \<in> {''json'', ''text''}"
  by (simp add: newLoggerFromEnv_def Let_def)

end
