(* ===== verification/Process.thy ===== *)
theory Process
  imports Servers
begin

text \<open>
  The processes of \<open>cmd/*/main.go\<close>: start, signal, graceful stop. The seven \<open>main\<close> functions differ in their configuration (\<open>Servers\<close>), in their texts and in what
  \<open>Shutdown\<close> closes. Two goroutines run: \<open>main\<close> itself, which waits for a signal and then calls \<open>Shutdown\<close>, and the listener, which calls \<open>ListenAndServe\<close>.
  Requests run beside both, also between the calls of \<open>Shutdown\<close>, so that it is a list of stages and the server a state that requests change in between.
\<close>

section \<open>The two goroutines\<close>

record mainTexts =
  mt_init :: string
  mt_start :: string
  mt_run :: string
  mt_stop :: string

text \<open>The chat server has no name in its texts.\<close>

definition textsOf :: "string \<Rightarrow> mainTexts" where
  "textsOf name = \<lparr>mt_init = ''initialize '' @ name @ ''server: '', mt_start = ''start '' @ name @ ''http server on :'',
     mt_run = ''run '' @ name @ ''http server: '', mt_stop = ''shutdown '' @ name @ ''server gracefully: ''\<rparr>"

text \<open>
  \<open>Waiting\<close> is \<open><-ctx.Done()\<close>, \<open>Stopping i\<close> stands before stage \<open>i\<close> of \<open>Shutdown\<close>, \<open>StoppingHTTP\<close> is \<open>HTTPServer.Shutdown\<close>. \<open>Fatal\<close> is \<open>log.Fatalf\<close>, which ends the process.
\<close>

datatype phase = Waiting | Stopping nat | StoppingHTTP | Returned | Fatal string

datatype listener = Starting | Listening | Closed

record ('s, 'x) process =
  pr_server :: 's
  pr_phase :: phase
  pr_listen :: listener
  pr_closed :: "'x list"
  pr_log :: "string list"

fun running :: "phase \<Rightarrow> bool" where
  "running Returned = False"
| "running (Fatal _) = False"
| "running _ = True"

definition main_start :: "mainTexts \<Rightarrow> 's result \<Rightarrow> string + ('s, 'x) process" where
  "main_start texts new =
     (case new of
        Inl e \<Rightarrow> Inl (mt_init texts @ e)
      | Inr s \<Rightarrow> Inr \<lparr>pr_server = s, pr_phase = Waiting, pr_listen = Starting, pr_closed = [], pr_log = []\<rparr>)"

text \<open>A stage closes connections and may change the server.\<close>

type_synonym ('s, 'x) stage = "'s \<Rightarrow> 's \<times> 'x list \<Rightarrow> bool"

datatype mainEvent = Started | Request | ListenError string | Signal | Stage | StopListening | ListenClosed | Exit "string option"

text \<open>
  \<open>ListenAndServe\<close> returns \<open>http.ErrServerClosed\<close> once \<open>HTTPServer.Shutdown\<close> is called, also if it is called later, and any other error only before.
  \<open>HTTPServer.Shutdown\<close> returns when no request is left or with the error of its context, which ends after 10 seconds.
\<close>

definition ErrServerClosed :: string where
  "ErrServerClosed = ''http: Server closed''"

inductive proc_step :: "mainTexts \<Rightarrow> string \<Rightarrow> ('s \<Rightarrow> 's \<Rightarrow> bool) \<Rightarrow> ('s, 'x) stage list \<Rightarrow> mainEvent \<Rightarrow> ('s, 'x) process \<Rightarrow> ('s, 'x) process \<Rightarrow> bool"
  for texts port serve stages where
  started: "running (pr_phase p) \<Longrightarrow> pr_listen p = Starting \<Longrightarrow>
     proc_step texts port serve stages Started p (p\<lparr>pr_listen := Listening, pr_log := pr_log p @ [mt_start texts @ port]\<rparr>)"
| request: "running (pr_phase p) \<Longrightarrow> pr_listen p \<noteq> Starting \<Longrightarrow> serve (pr_server p) s' \<Longrightarrow>
     proc_step texts port serve stages Request p (p\<lparr>pr_server := s'\<rparr>)"
| listen_error: "running (pr_phase p) \<Longrightarrow> pr_phase p \<noteq> StoppingHTTP \<Longrightarrow> pr_listen p = Listening \<Longrightarrow> e \<noteq> ErrServerClosed \<Longrightarrow>
     proc_step texts port serve stages (ListenError e) p (p\<lparr>pr_phase := Fatal (mt_run texts @ e)\<rparr>)"
| signal: "pr_phase p = Waiting \<Longrightarrow> proc_step texts port serve stages Signal p (p\<lparr>pr_phase := Stopping 0\<rparr>)"
| stage: "pr_phase p = Stopping i \<Longrightarrow> i < length stages \<Longrightarrow> (stages ! i) (pr_server p) (s', xs) \<Longrightarrow>
     proc_step texts port serve stages Stage p (p\<lparr>pr_server := s', pr_phase := Stopping (Suc i), pr_closed := pr_closed p @ xs\<rparr>)"
| stop_listening: "pr_phase p = Stopping (length stages) \<Longrightarrow> proc_step texts port serve stages StopListening p (p\<lparr>pr_phase := StoppingHTTP\<rparr>)"
| listen_closed: "pr_phase p = StoppingHTTP \<Longrightarrow> pr_listen p = Listening \<Longrightarrow>
     proc_step texts port serve stages ListenClosed p (p\<lparr>pr_listen := Closed\<rparr>)"
| exit: "pr_phase p = StoppingHTTP \<Longrightarrow>
     proc_step texts port serve stages (Exit err) p
       (p\<lparr>pr_phase := Returned, pr_log := pr_log p @ (case err of None \<Rightarrow> [] | Some e \<Rightarrow> [mt_stop texts @ e])\<rparr>)"

text \<open>A run, with the number of its steps that are not requests.\<close>

inductive proc_run ::
  "mainTexts \<Rightarrow> string \<Rightarrow> ('s \<Rightarrow> 's \<Rightarrow> bool) \<Rightarrow> ('s, 'x) stage list \<Rightarrow> ('s, 'x) process \<Rightarrow> nat \<Rightarrow> ('s, 'x) process \<Rightarrow> bool"
  for texts port serve stages p0 where
  start: "proc_run texts port serve stages p0 0 p0"
| more: "proc_run texts port serve stages p0 n p \<Longrightarrow> proc_step texts port serve stages ev p q \<Longrightarrow>
     proc_run texts port serve stages p0 (if ev = Request then n else Suc n) q"

text \<open>A whole \<open>main\<close>, given what \<open>NewServer\<close> returned.\<close>

definition main_run ::
  "mainTexts \<Rightarrow> string \<Rightarrow> ('s \<Rightarrow> 's \<Rightarrow> bool) \<Rightarrow> ('s, 'x) stage list \<Rightarrow> 's result \<Rightarrow> nat \<Rightarrow> ('s, 'x) process \<Rightarrow> bool" where
  "main_run texts port serve stages new n p \<longleftrightarrow> (\<exists>p0. main_start texts new = Inr p0 \<and> proc_run texts port serve stages p0 n p)"


section \<open>What every server promises\<close>

text \<open>The steps that are left.\<close>

fun listenLeft :: "listener \<Rightarrow> nat" where
  "listenLeft Starting = 2"
| "listenLeft Listening = 1"
| "listenLeft Closed = 0"

fun stepsLeft :: "nat \<Rightarrow> phase \<Rightarrow> nat" where
  "stepsLeft n Waiting = n + 3"
| "stepsLeft n (Stopping i) = n - i + 2"
| "stepsLeft n StoppingHTTP = 1"
| "stepsLeft n _ = 0"

text \<open>How many stages have run; a fatal error may come between any two.\<close>

fun stagesRun :: "nat \<Rightarrow> phase \<Rightarrow> nat \<Rightarrow> bool" where
  "stagesRun n Waiting k \<longleftrightarrow> k = 0"
| "stagesRun n (Stopping i) k \<longleftrightarrow> k = i"
| "stagesRun n (Fatal _) k \<longleftrightarrow> True"
| "stagesRun n _ k \<longleftrightarrow> k = n"

text \<open>The contract: an invariant that requests and stages keep, and under which every stage can run.\<close>

locale stopping_server =
  fixes serve :: "'s \<Rightarrow> 's \<Rightarrow> bool" and stages :: "('s, 'x) stage list" and I :: "'s \<Rightarrow> bool"
  assumes serves: "I s \<Longrightarrow> serve s s' \<Longrightarrow> I s'"
    and keeps: "k \<in> set stages \<Longrightarrow> I s \<Longrightarrow> k s (s', xs) \<Longrightarrow> I s'"
    and total: "k \<in> set stages \<Longrightarrow> I s \<Longrightarrow> \<exists>out. k s out"
begin

text \<open>What is closed is what the stages closed that have run, in their order, each on a server with the invariant.\<close>

definition closedSo :: "('s, 'x) process \<Rightarrow> 'x list list \<Rightarrow> bool" where
  "closedSo p xss \<longleftrightarrow> pr_closed p = concat xss \<and> length xss \<le> length stages \<and> stagesRun (length stages) (pr_phase p) (length xss)
     \<and> (\<forall>i < length xss. \<exists>s s'. I s \<and> (stages ! i) s (s', xss ! i))"

lemma closedSo_cong:
  assumes "closedSo p xss" "pr_closed q = pr_closed p" "\<And>k. stagesRun (length stages) (pr_phase p) k \<Longrightarrow> k \<le> length stages \<Longrightarrow> stagesRun (length stages) (pr_phase q) k"
  shows "closedSo q xss"
  using assms by (auto simp: closedSo_def)

lemma step_closed:
  assumes "proc_step texts port serve stages ev p q" "I (pr_server p)" "closedSo p xss"
  shows "I (pr_server q) \<and> (\<exists>yss. closedSo q yss)"
  using assms
proof cases
  case (stage i s' xs)
  have "closedSo q (xss @ [xs])"
    using assms(2,3) stage by (auto simp: closedSo_def nth_append less_Suc_eq)
  moreover have "I s'" using stage assms(2) keeps[of "stages ! i" "pr_server p" s' xs] by simp
  ultimately show ?thesis using stage by auto
next
  case (request s')
  then show ?thesis using assms(2,3) serves[of "pr_server p" s'] closedSo_cong[of p xss q] by auto
qed (use assms(2,3) closedSo_cong[of p xss q] in auto)

lemma step_measure:
  assumes "proc_step texts port serve stages ev p q"
  shows "stepsLeft (length stages) (pr_phase q) + listenLeft (pr_listen q) + (if ev = Request then 0 else 1)
    \<le> stepsLeft (length stages) (pr_phase p) + listenLeft (pr_listen p)"
  using assms
proof cases
  case listen_error
  then show ?thesis by (cases "pr_phase p") auto
qed auto

lemma run_ok:
  assumes "proc_run texts port serve stages p0 n p" "I (pr_server p0)" "closedSo p0 []"
  shows "I (pr_server p) \<and> (\<exists>xss. closedSo p xss)
    \<and> n + stepsLeft (length stages) (pr_phase p) + listenLeft (pr_listen p) \<le> stepsLeft (length stages) (pr_phase p0) + listenLeft (pr_listen p0)"
  using assms
proof (induction rule: proc_run.induct)
  case start
  then show ?case by auto
next
  case (more n p ev q)
  then obtain xss where "I (pr_server p)" "closedSo p xss" by auto
  then show ?case using step_closed[OF more(2)] step_measure[OF more(2)] more by auto
qed

text \<open>After the signal, the process can always go on without another request.\<close>

lemma not_stuck:
  assumes "closedSo p xss" "I (pr_server p)" "running (pr_phase p)" "pr_phase p \<noteq> Waiting"
  shows "\<exists>ev q. ev \<noteq> Request \<and> proc_step texts port serve stages ev p q"
proof (cases "pr_phase p")
  case (Stopping i)
  then have "i \<le> length stages" using assms(1) by (auto simp: closedSo_def)
  then consider "i < length stages" | "i = length stages" by linarith
  then show ?thesis
  proof cases
    case 1
    then obtain s' xs where "(stages ! i) (pr_server p) (s', xs)" using total[of "stages ! i" "pr_server p"] assms(2) by fastforce
    then show ?thesis using proc_step.stage[OF Stopping 1] by blast
  next
    case 2
    then show ?thesis using proc_step.stop_listening[of p stages] Stopping by blast
  qed
next
  case StoppingHTTP
  then show ?thesis using proc_step.exit[of p] by blast
qed (use assms(3,4) in auto)

lemma started_ok: "main_start texts (Inr s) = Inr p \<Longrightarrow> I s \<Longrightarrow> I (pr_server p) \<and> closedSo p [] \<and> pr_phase p = Waiting \<and> pr_listen p = Starting"
  by (auto simp: main_start_def closedSo_def)

text \<open>A run from the start: bounded, nothing is closed before the signal, never stuck after it, and complete when \<open>main\<close> returns.\<close>

theorem graceful:
  assumes "main_run texts port serve stages (Inr s) n p" "I s"
  shows "n \<le> length stages + 5 \<and> (pr_phase p = Waiting \<longrightarrow> pr_closed p = [])
    \<and> (running (pr_phase p) \<and> pr_phase p \<noteq> Waiting \<longrightarrow> (\<exists>ev q. ev \<noteq> Request \<and> proc_step texts port serve stages ev p q))
    \<and> (pr_phase p = Returned \<longrightarrow> (\<exists>xss. pr_closed p = concat xss \<and> length xss = length stages \<and> (\<forall>i < length stages. \<exists>s s'. I s \<and> (stages ! i) s (s', xss ! i))))"
proof -
  obtain p0 where p0: "main_start texts (Inr s) = Inr p0" "proc_run texts port serve stages p0 n p" using assms(1) by (auto simp: main_run_def)
  note init = started_ok[OF p0(1) assms(2)]
  obtain xss where p: "I (pr_server p)" "closedSo p xss" "n + stepsLeft (length stages) (pr_phase p) + listenLeft (pr_listen p) \<le> length stages + 5"
    using run_ok[OF p0(2)] init by auto
  then show ?thesis using not_stuck[OF p(2,1)] by (auto simp: closedSo_def)
qed

end


section \<open>The seven servers\<close>

subsection \<open>Chat\<close>

text \<open>Requests change the two tables of dedicated connections and the state of the circuit breaker, in ways of which only this matters here.\<close>

definition chat_requests :: "('c, 'n, 'h) chatServer \<Rightarrow> ('c, 'n, 'h) chatServer \<Rightarrow> bool" where
  "chat_requests s s' \<longleftrightarrow> (\<exists>rt pub cl. s' = s\<lparr>csv_RedisRouter := rt, csv_Publisher := pub, csv_dbman := cl\<rparr> \<and> finite (dom (rd_clients rt))
     \<and> (case csv_Publisher s of None \<Rightarrow> pub = None | Some _ \<Rightarrow> \<exists>p. pub = Some p \<and> finite (dom (mq_dedicated p))))"

text \<open>The tables are walked in any order; \<open>keys\<close> is the order of the range loop.\<close>

definition chat_stages :: "(('c, 'n, 'h) chatServer, ('c, 'n, 'h) closing) stage list" where
  "chat_stages =
     [\<lambda>s out. case csv_Publisher s of
          None \<Rightarrow> out = (s, [])
        | Some p \<Rightarrow> \<exists>keys. distinct keys \<and> set keys = dom (mq_dedicated p)
            \<and> out = (s\<lparr>csv_Publisher := Some (fst (mq_Close p keys))\<rparr>, map ClosePublisher (snd (mq_Close p keys))),
      \<lambda>s out. \<exists>keys. distinct keys \<and> set keys = dom (rd_clients (csv_RedisRouter s))
            \<and> out = (s\<lparr>csv_RedisRouter := fst (rd_Close (csv_RedisRouter s) keys)\<rparr>, map CloseClient (snd (rd_Close (csv_RedisRouter s) keys))),
      \<lambda>s out. out = (s, case csv_MQConn s of None \<Rightarrow> [] | Some n \<Rightarrow> [CloseConn n]),
      \<lambda>s out. out = (s, [CloseClient (csv_Redis s)])]"

definition chat_inv :: "'c \<Rightarrow> 'n option \<Rightarrow> ('c, 'n, 'h) chatServer \<Rightarrow> bool" where
  "chat_inv c n s \<longleftrightarrow> csv_Redis s = c \<and> csv_MQConn s = n \<and> finite (dom (rd_clients (csv_RedisRouter s)))
     \<and> (\<forall>p. csv_Publisher s = Some p \<longrightarrow> finite (dom (mq_dedicated p)))"

lemma rd_Close_finite: "finite (dom (rd_clients r)) \<Longrightarrow> finite (dom (rd_clients (fst (rd_Close r keys))))"
  by (induction r keys rule: rd_Close.induct) (auto simp: Let_def case_prod_beta split: option.split)

lemma mq_Close_finite: "finite (dom (mq_dedicated p)) \<Longrightarrow> finite (dom (mq_dedicated (fst (mq_Close p keys))))"
  by (induction p keys rule: mq_Close.induct) (auto simp: Let_def case_prod_beta split: option.split)

lemma key_order: "finite (dom m) \<Longrightarrow> \<exists>keys. distinct keys \<and> set keys = dom m"
  using finite_distinct_list[of "dom m"] by blast

lemmas chat_defs = chat_inv_def chat_requests_def chat_stages_def

lemma chat_stages_total:
  assumes "k \<in> set chat_stages" "chat_inv c n s"
  shows "\<exists>out. k s out"
  using assms by (cases "csv_Publisher s") (auto simp: chat_defs dest: key_order)

interpretation chat_process: stopping_server chat_requests chat_stages "chat_inv c n" for c n
  by (unfold_locales; (rule chat_stages_total, assumption+ | auto simp: chat_defs rd_Close_finite mq_Close_finite split: option.splits))

definition chat_run ::
  "environ \<Rightarrow> (string \<Rightarrow> 'c) \<Rightarrow> ('c \<Rightarrow> unit result) \<Rightarrow> ('n, 'h) mqEnv \<Rightarrow> nat \<Rightarrow> (('c, 'n, 'h) chatServer, ('c, 'n, 'h) closing) process \<Rightarrow> bool" where
  "chat_run getenv newClient ping mq n p \<longleftrightarrow> (\<exists>cfg. LoadConfig getenv = Some cfg
     \<and> main_run (textsOf []) (cfgPort cfg) chat_requests chat_stages (chat_NewServer getenv cfg newClient ping mq) n p)"

text \<open>Where no request comes between the stages, they close what \<open>chat_Shutdown\<close> says.\<close>

lemma chat_stages_Shutdown:
  assumes "(chat_stages ! 0) s (s1, x0)" "(chat_stages ! 1) s1 (s2, x1)" "(chat_stages ! 2) s2 (s3, x2)" "(chat_stages ! 3) s3 (s4, x3)"
  shows "\<exists>pubKeys clientKeys. concat [x0, x1, x2, x3] @ [StopHTTP] = chat_Shutdown s pubKeys clientKeys"
  using assms by (auto simp: chat_stages_def chat_Shutdown_def split: option.splits)

subsection \<open>Data base server\<close>

definition dbman_requests :: "'c dbmanServer \<Rightarrow> 'c dbmanServer \<Rightarrow> bool" where
  "dbman_requests s s' \<longleftrightarrow> (\<exists>rt pr. s' = s\<lparr>dsv_Router := rt, dsv_provider := pr\<rparr> \<and> finite (dom (db_dedicated rt)) \<and> (pr = None \<longleftrightarrow> dsv_provider s = None))"

definition dbman_stages :: "('c dbmanServer, ('c, 'n, 'h) closing) stage list" where
  "dbman_stages =
     [\<lambda>s out. \<exists>keys. distinct keys \<and> set keys = dom (db_dedicated (dsv_Router s))
            \<and> out = (s\<lparr>dsv_Router := fst (db_Close (dsv_Router s) keys)\<rparr>, map CloseClient (snd (db_Close (dsv_Router s) keys))),
      \<lambda>s out. out = (s, [CloseClient (dsv_DB s)])]"

definition dbman_inv :: "'c \<Rightarrow> 'c dbmanServer \<Rightarrow> bool" where
  "dbman_inv c s \<longleftrightarrow> dsv_DB s = c \<and> finite (dom (db_dedicated (dsv_Router s)))"

lemma db_Close_finite: "finite (dom (db_dedicated r)) \<Longrightarrow> finite (dom (db_dedicated (fst (db_Close r keys))))"
  by (induction r keys rule: db_Close.induct) (auto simp: Let_def case_prod_beta split: option.split)

interpretation dbman_process: stopping_server dbman_requests dbman_stages "dbman_inv c" for c
  by unfold_locales (auto simp: dbman_inv_def dbman_requests_def dbman_stages_def db_Close_finite dest: key_order)

definition dbman_run :: "environ \<Rightarrow> (string \<Rightarrow> 'c result) \<Rightarrow> nat \<Rightarrow> ('c dbmanServer, ('c, 'n, 'h) closing) process \<Rightarrow> bool" where
  "dbman_run getenv newPool n p \<longleftrightarrow>
     main_run (textsOf ''dbman '') (dc_Port (dbman_main getenv)) dbman_requests dbman_stages (dbman_NewServer getenv (dbman_main getenv) newPool) n p"

lemma dbman_stages_Shutdown:
  assumes "(dbman_stages ! 0) s (s1, x0)" "(dbman_stages ! 1) s1 (s2, x1)"
  shows "\<exists>keys. concat [x0, x1] @ [StopHTTP] = dbman_Shutdown s keys"
  using assms by (auto simp: dbman_stages_def dbman_Shutdown_def)

subsection \<open>Session server\<close>

definition session_requests :: "'c sessionServer \<Rightarrow> 'c sessionServer \<Rightarrow> bool" where
  "session_requests s s' \<longleftrightarrow> (\<exists>hub cl. s' = s\<lparr>ssv_hub := hub, ssv_dbman := cl\<rparr>)"

definition session_stages :: "('c sessionServer, ('c, 'n, 'h) closing) stage list" where
  "session_stages = [\<lambda>s out. out = (s\<lparr>ssv_hub := StopRedisSubscriber (ssv_hub s)\<rparr>, []), \<lambda>s out. out = (s, [CloseClient (ssv_Redis s)])]"

interpretation session_process: stopping_server session_requests session_stages "\<lambda>s. ssv_Redis s = c" for c
  by unfold_locales (auto simp: session_requests_def session_stages_def)

definition session_run :: "environ \<Rightarrow> (string \<Rightarrow> 'c) \<Rightarrow> ('c \<Rightarrow> unit result) \<Rightarrow> nat \<Rightarrow> ('c sessionServer, ('c, 'n, 'h) closing) process \<Rightarrow> bool" where
  "session_run getenv newClient ping n p \<longleftrightarrow> (\<exists>cfg. session_main getenv = Some cfg
     \<and> main_run (textsOf ''session '') (sc_Port cfg) session_requests session_stages (session_NewServer getenv cfg newClient ping) n p)"

lemma session_stages_Shutdown:
  assumes "(session_stages ! 0) s (s1, x0)" "(session_stages ! 1) s1 (s2, x1)"
  shows "session_Shutdown s = (s2, concat [x0, x1] @ [StopHTTP])"
  using assms by (auto simp: session_stages_def session_Shutdown_def)

subsection \<open>The others\<close>

text \<open>The file, organisation, tenant and vector servers only stop the HTTP server.\<close>

definition plain_stages :: "('s, ('c, 'n, 'h) closing) stage list" where
  "plain_stages = []"

definition fileman_requests :: "'m fileServer \<Rightarrow> 'm fileServer \<Rightarrow> bool" where
  "fileman_requests s s' \<longleftrightarrow> (\<exists>rt cl. s' = s\<lparr>fsv_Router := rt, fsv_dbman := cl\<rparr>)"

definition hub_requests :: "hubServer \<Rightarrow> hubServer \<Rightarrow> bool" where
  "hub_requests s s' \<longleftrightarrow> (\<exists>cl. s' = s\<lparr>hsv_dbman := cl\<rparr>)"

definition fileman_run :: "environ \<Rightarrow> 'm minioEnv \<Rightarrow> nat \<Rightarrow> ('m fileServer, ('c, 'n, 'h) closing) process \<Rightarrow> bool" where
  "fileman_run getenv env n p \<longleftrightarrow> (\<exists>cfg. fileman_main getenv = Some cfg
     \<and> main_run (textsOf ''fileman '') (fc_Port cfg) fileman_requests plain_stages (fileman_NewServer getenv cfg env) n p)"

definition orghub_run :: "environ \<Rightarrow> nat \<Rightarrow> (hubServer, ('c, 'n, 'h) closing) process \<Rightarrow> bool" where
  "orghub_run getenv n p \<longleftrightarrow>
     main_run (textsOf ''orghub '') (hc_Port (orghub_main getenv)) hub_requests plain_stages (Inr (orghub_NewServer getenv (orghub_main getenv))) n p"

definition tenanthub_run :: "environ \<Rightarrow> nat \<Rightarrow> (hubServer, ('c, 'n, 'h) closing) process \<Rightarrow> bool" where
  "tenanthub_run getenv n p \<longleftrightarrow>
     main_run (textsOf ''tenanthub '') (hc_Port (tenanthub_main getenv)) hub_requests plain_stages (Inr (tenanthub_NewServer getenv (tenanthub_main getenv))) n p"

text \<open>The vector server itself keeps no state.\<close>

definition vectorman_run :: "environ \<Rightarrow> 'w net \<Rightarrow> 'w \<Rightarrow> nat \<Rightarrow> ('w VectorService, ('c, 'n, 'h) closing) process \<Rightarrow> bool" where
  "vectorman_run getenv net w n p \<longleftrightarrow>
     main_run (textsOf ''vectorman '') (vm_Port (vectorman_main getenv)) (=) plain_stages (snd (vm_NewServer (vectorman_main getenv) net w)) n p"

interpretation plain_process: stopping_server serve plain_stages "\<lambda>_. True" for serve
  by unfold_locales (auto simp: plain_stages_def)


section \<open>How the other servers stop\<close>

lemma main_run_ok: "main_run texts port serve stages new n p \<Longrightarrow> \<exists>s. new = Inr s"
  by (cases new) (auto simp: main_run_def main_start_def)

text \<open>The data base server closes dedicated pools and then the shared pool, the session server its Redis client; a run ends after at most as many steps as there are calls.\<close>

lemma dbman_graceful:
  assumes "dbman_run getenv newPool n p"
  shows "n \<le> 7 \<and> (pr_phase p = Waiting \<longrightarrow> pr_closed p = [])
    \<and> (pr_phase p = Returned \<longrightarrow> (\<exists>pool cls. newPool (dc_PostgresDSN (dbman_main getenv)) = Inr pool \<and> pr_closed p = map CloseClient cls @ [CloseClient pool]))"
proof -
  obtain s where s: "dbman_NewServer getenv (dbman_main getenv) newPool = Inr s" using assms main_run_ok unfolding dbman_run_def by blast
  then have pool: "newPool (dc_PostgresDSN (dbman_main getenv)) = Inr (dsv_DB s)" and inv: "dbman_inv (dsv_DB s) s"
    by (auto simp: dbman_NewServer_def dbman_inv_def NewTenantDBRouterWithProvider_def split: sum.splits)
  have two: "length dbman_stages = 2" by (simp add: dbman_stages_def)
  note run = dbman_process.graceful[OF assms[unfolded dbman_run_def s] inv, unfolded two]
  have "\<exists>cls. pr_closed p = map CloseClient cls @ [CloseClient (dsv_DB s)]" if returned: "pr_phase p = Returned"
  proof -
    obtain xss where x: "pr_closed p = concat xss" "length xss = 2" "\<And>i. i < 2 \<Longrightarrow> \<exists>u v. dbman_inv (dsv_DB s) u \<and> (dbman_stages ! i) u (v, xss ! i)"
      using run[THEN conjunct2, THEN conjunct2, THEN conjunct2, THEN mp, OF returned] by (elim exE conjE) (rule that, auto)
    obtain x0 x1 where xss: "xss = [x0, x1]" using x(2) by (auto simp: numeral_eq_Suc length_Suc_conv)
    obtain cls where "x0 = map CloseClient cls" using x(3)[of 0] by (auto simp: xss dbman_stages_def)
    moreover have "x1 = [CloseClient (dsv_DB s)]" using x(3)[of 1] by (auto simp: xss dbman_stages_def dbman_inv_def)
    ultimately show ?thesis using x(1) xss by auto
  qed
  then show ?thesis using run pool by simp
qed

lemma session_graceful:
  assumes "session_run getenv newClient ping n p"
  shows "n \<le> 7 \<and> (pr_phase p = Waiting \<longrightarrow> pr_closed p = [])
    \<and> (pr_phase p = Returned \<longrightarrow> pr_closed p = [CloseClient (newClient (envString getenv ''REDIS_ADDR'' ''localhost:6379''))])"
proof -
  obtain cfg where cfg: "session_main getenv = Some cfg"
    and run0: "main_run (textsOf ''session '') (sc_Port cfg) session_requests session_stages (session_NewServer getenv cfg newClient ping) n p"
    using assms unfolding session_run_def by blast
  obtain s where s: "session_NewServer getenv cfg newClient ping = Inr s" using run0 main_run_ok by blast
  let ?c = "newClient (envString getenv ''REDIS_ADDR'' ''localhost:6379'')"
  have "sc_RedisAddr cfg = envString getenv ''REDIS_ADDR'' ''localhost:6379''" using cfg by (auto simp: session_main_def Let_def split: list.splits)
  then have inv: "ssv_Redis s = ?c" using s by (auto simp add: session_NewServer_def Let_def split: sum.splits)
  have two: "length session_stages = 2" by (simp add: session_stages_def)
  note run = session_process.graceful[OF run0[unfolded s] inv, unfolded two]
  have "pr_closed p = [CloseClient ?c]" if returned: "pr_phase p = Returned"
  proof -
    obtain xss where x: "pr_closed p = concat xss" "length xss = 2" "\<And>i. i < 2 \<Longrightarrow> \<exists>u v. ssv_Redis u = ?c \<and> (session_stages ! i) u (v, xss ! i)"
      using run[THEN conjunct2, THEN conjunct2, THEN conjunct2, THEN mp, OF returned] by (elim exE conjE) (rule that, auto)
    obtain x0 x1 where xss: "xss = [x0, x1]" using x(2) by (auto simp: numeral_eq_Suc length_Suc_conv)
    have "x0 = []" using x(3)[of 0] by (auto simp: xss session_stages_def)
    moreover have "x1 = [CloseClient ?c]" using x(3)[of 1] by (auto simp: xss session_stages_def)
    ultimately show ?thesis using x(1) xss by auto
  qed
  then show ?thesis using run by simp
qed

text \<open>The other four.\<close>

lemma plain_graceful:
  assumes "main_run texts port serve (plain_stages :: ('s, ('c, 'n, 'h) closing) stage list) new n p"
  shows "n \<le> 5 \<and> (running (pr_phase p) \<and> pr_phase p \<noteq> Waiting \<longrightarrow> (\<exists>ev q. ev \<noteq> Request \<and> proc_step texts port serve plain_stages ev p q))"
proof -
  obtain s where s: "new = Inr s" using main_run_ok[OF assms] by blast
  from plain_process.graceful[OF assms[unfolded s] TrueI] show ?thesis by (simp add: plain_stages_def)
qed

lemma others_bounded:
  "fileman_run getenv env n p1 \<Longrightarrow> n \<le> 5" "orghub_run getenv n p2 \<Longrightarrow> n \<le> 5" "tenanthub_run getenv n p2 \<Longrightarrow> n \<le> 5" "vectorman_run getenv net w n p3 \<Longrightarrow> n \<le> 5"
  unfolding fileman_run_def orghub_run_def tenanthub_run_def vectorman_run_def using plain_graceful by blast+


section \<open>Properties\<close>



end
