(* ===== verification/Isolation.thy ===== *)
theory Isolation
  imports DbmanTenancy Routes
begin

text \<open>
  The isolation of tenants in the whole system: the chat, session, organisation, file and tenant servers, each with its client of the data base server behind it. What one
  request may change is proved for each server against a locale of its store, and holds for the remote store in every sense in which the operations of the data base server
  are confined; then for any sequence of requests to all of them.
\<close>

section \<open>The stores behind the clients\<close>

text \<open>What the handlers of the session server need of their store.\<close>

locale isolated_sessions =
  fixes st :: "'s sessionStore" and E :: "string \<Rightarrow> 's \<Rightarrow> 's \<Rightarrow> bool"
  assumes still: "E t s s"
    and only:
    "E (ds_TenantID d) s (fst (store_upsert st s d))"
    "E t s (fst (store_validate st s t u sid k))"
    "E (st_TenantID y) s (fst (store_status st s y))"
    "E (no_TenantID z) s (fst (store_note st s z))"
    "E t s (fst (store_inbox st s t u n))"
    "E t s (fst (store_read st s t u i))"
    "E t s (fst (store_notifications st s t u inp))"

text \<open>What the handlers of the organisation server need of theirs.\<close>

locale isolated_users =
  fixes st :: "'s userStore" and E :: "string \<Rightarrow> 's \<Rightarrow> 's \<Rightarrow> bool"
  assumes still: "E t s s"
    and only:
    "E t s (fst (os_createOrg st s t p n))"
    "E t s (fst (os_listOrgs st s t))"
    "E t s (fst (os_createUser st s t x))"
    "E t s (fst (os_status st s t u status nt))"
    "E t s (fst (os_search st s t q k))"
    "E t s (fst (os_aliases st s t u))"
    "E t s (fst (os_addAlias st s t u a ip ua))"
    "E t s (fst (os_deleteAlias st s t u a ip ua))"
    "E t s (fst (os_audit st s t u k f cAt cID))"

text \<open>Through the client, a request to the data base server names the tenant of the operation.\<close>

lemma bodies_name_tenant [simp]:
  "namedTenant (messageJson m) = Inr (ms_TenantID m)"
  "namedTenant (fileJson f) = Inr (fo_TenantID f)"
  "namedTenant (sessionJson d) = Inr (ds_TenantID d)"
  "namedTenant (statusJson y) = Inr (st_TenantID y)"
  "namedTenant (noteJson z) = Inr (no_TenantID z)"
  by (simp_all add: namedTenant_def decodeOne_def field_defs messageJson_def fileJson_def sessionJson_def statusJson_def noteJson_def)

lemma object_names_tenant [simp]: "fieldValues ''tenant_id'' fs = [] \<Longrightarrow> namedTenant (JObj ((''tenant_id'', JStr t) # fs)) = Inr t"
  by (simp add: namedTenant_def decodeOne_def field_defs)

lemma jfields_names_tenant [simp]: "fieldValues ''tenant_id'' (jfields fs) = [] \<Longrightarrow> namedTenant (JObj (jfields ((''tenant_id'', t) # fs))) = Inr t"
  by (simp add: jfields_def)

context confined_services
begin

lemma rpost_only: "namedTenant body = Inr t \<Longrightarrow> sub \<notin> tenantRoutes \<Longrightarrow> E t s (fst (rpost sv ep s sub body dec))"
  using post_confined[of "E t" "- tenantRoutes" "V t" sv "Inr body" "BasePath @ sub"] handlers_confined still
  by (simp add: rpost_def confined_def split: prod.split) (metis fst_conv)

end

sublocale confined_services \<subseteq> remote_sessions: isolated_sessions "remoteSessions sv ep" E for ep
  by unfold_locales (auto simp: remoteSessions_def rc_UpsertDeviceSession_def rc_ValidateAndTouchSession_def rc_UpdateSessionUserStatus_def rc_CreateSessionNote_def
      rc_ListSessionInbox_def rc_MarkSessionNoteRead_def rc_SaveSessionChatNotifications_def tenantRoutes_def still jfields_def field_defs intro!: rpost_only)

sublocale confined_services \<subseteq> remote_users: isolated_users "remoteUsers sv ep" E for ep
  by unfold_locales (auto simp: remoteUsers_def rc_CreateOrgUnit_def rc_ListOrgUnits_def rc_CreateUser_def rc_UpdateUserStatus_def rc_SearchUsers_def
      rc_ListAliases_def rc_AddAlias_def rc_DeleteAlias_def rc_ListAliasAudit_def tenantRoutes_def still jfields_def field_defs intro!: rpost_only)

text \<open>For the chat server the effect must also compose: \<open>CreateMessage\<close> calls its store twice.\<close>

locale composed_services = confined_services +
  assumes compose: "E t r1 r2 \<Longrightarrow> E t r2 r3 \<Longrightarrow> E t r1 r3"

sublocale composed_services \<subseteq> remote_chat: isolated_store "remoteChat sv ep" E "\<lambda>_. True" for ep
proof -
  have only: "E (ms_TenantID m) s (fst (cs_createMessage (remoteChat sv ep) s m))" for m s
    by (auto simp: remoteChat_def rc_CreateMessage_def tenantRoutes_def intro!: rpost_only)
  show "isolated_store (remoteChat sv ep) E (\<lambda>_. True)"
  proof unfold_locales
    show "E (ms_TenantID m) s s2" if "cs_createMessage (remoteChat sv ep) s m = (s1, Inr x)" "E (ms_TenantID m) s1 s2" for s m s1 x s2
      using compose[OF _ that(2)] only[of m s] that(1) by simp
  qed (auto simp: remoteChat_def rc_CreateRoom_def rc_AddMember_def rc_IsRoomMember_def rc_MarkReadUpTo_def rc_ListMessages_def rc_SearchMessages_def
      rc_GetMessageReaders_def rc_GetLastReadMessageID_def rc_GetUnreadCount_def rc_GetUnreadCounts_def rc_ListMyRooms_def rc_CreateMessage_def
      tenantRoutes_def still jfields_def field_defs intro!: rpost_only)
qed

interpretation system_rows: composed_services "dbman bc um penv env pg ready" rowsApart "\<lambda>t. (=)" for bc um penv env pg ready
  by unfold_locales (rule rowsApart_trans)

section \<open>The session server\<close>

text \<open>
  The tenants that a request to the session server may act for: that of its accepted token (trimmed, for a login), or, for the handshake of a web socket, the one named
  together with a session and its token.
\<close>

definition bearerTenants :: "(string \<Rightarrow> (string \<times> string \<times> string) result) \<Rightarrow> string \<Rightarrow> string set" where
  "bearerTenants parse header = {t. \<exists>u role. HasPrefix header ''Bearer '' \<and> parse (TrimPrefix header ''Bearer '') = Inr (u, t, role)}"

definition session_reqTenants :: "(string \<Rightarrow> (string \<times> string \<times> string) result) \<Rightarrow> httpReq \<Rightarrow> string set" where
  "session_reqTenants parse req =
     bearerTenants parse (hq_authorization req) \<union> TrimSpace ` bearerTenants parse (hq_authorization req) \<union>
     {t. hq_method req = ''GET'' \<and> t = TrimSpace (queryOf req ''tenant_id'') \<and> TrimSpace (queryOf req ''session_id'') \<noteq> '''' \<and> TrimSpace (queryOf req ''session_token'') \<noteq> ''''}"

lemma actorFromContext_tenant:
  assumes "actorFromContext c = Some (t', u)" "c ''auth_tenant_id'' = Some (CStr t)"
  shows "t' = t"
  using assms by (auto simp: actorFromContext_def ctxString_def split: option.splits if_splits)

context isolated_sessions
begin

lemma services_only:
  "E (TrimSpace t) s (fst (LoginDevice st rnd s t u d dn tok al))"
  "E t s (fst (UpdateStatus st hub pubErr now s t u raw nt))"
  "E t s (fst (SendNote st hub pubErr s t u input))"
  "E t s (fst (svc_ListInbox st s t u n))"
  "E t s (fst (svc_MarkNoteRead st s t u i))"
  "E t s (fst (NotifyChat st hub pubErr clock s t u tok inp))"
  "E t s (fst (ValidateSession st s t u sid k))"
proof -
  show "E (TrimSpace t) s (fst (LoginDevice st rnd s t u d dn tok al))"
    using only(1)[of "\<lparr>ds_SessionID = '''', ds_TenantID = TrimSpace t, ds_UserID = uu, ds_DeviceID = dd, ds_DeviceName = nn, ds_AuthToken = '''',
        ds_SessionToken = kk, ds_AllowedTenants = aa, ds_LastSeenAt = 0, ds_CreatedAt = 0\<rparr>" s for uu dd nn kk aa]
    by (auto simp: LoginDevice_def Let_def still split: sum.split prod.split) (metis fst_conv)+
  show "E t s (fst (UpdateStatus st hub pubErr now s t u raw nt))"
    using only(3)[of "\<lparr>st_TenantID = t, st_UserID = u, st_Status = ss, st_StatusNote = nn, st_UpdatedAt = now\<rparr>" s for ss nn]
    by (auto simp: UpdateStatus_def Let_def still split: sum.split prod.split) (metis fst_conv)+
  show "E t s (fst (SendNote st hub pubErr s t u input))"
    using only(4)[of "\<lparr>no_NoteID = '''', no_TenantID = t, no_SenderUserID = u, no_Title = ti, no_Body = bo, no_Recipients = re, no_Files = fi, no_CreatedAt = 0\<rparr>" s for ti bo re fi]
    by (auto simp: SendNote_def Let_def still split: sum.split prod.split) (metis fst_conv)+
  show "E t s (fst (svc_ListInbox st s t u n))" "E t s (fst (svc_MarkNoteRead st s t u i))" "E t s (fst (ValidateSession st s t u sid k))"
    by (simp_all add: svc_ListInbox_def svc_MarkNoteRead_def ValidateSession_def only still)
  show "E t s (fst (NotifyChat st hub pubErr clock s t u tok inp))"
    using only(7)[of t s u inp] by (auto simp: NotifyChat_def Let_def still split: sum.split prod.split)
qed

end

lemma fst_pair_cases [simp]:
  "fst (case out of (s', Inl e) \<Rightarrow> (s', f e) | (s', Inr x) \<Rightarrow> (s', g x)) = fst out"
  "fst (case out3 of (s', Inl e, d) \<Rightarrow> (s', f3 e d) | (s', Inr x, d) \<Rightarrow> (s', g3 x d)) = fst out3"
  by (auto split: prod.split sum.split)

context isolated_sessions
begin

lemma handlers_only:
  assumes "c ''auth_tenant_id'' = Some (CStr t)"
  shows "E (TrimSpace t) s (fst (loginDevice st rnd s c b1))"
    and "E t s (fst (updateSessionStatus st hub pubErr now s c b2))"
    and "E t s (fst (sendNote st hub pubErr s c b3))"
    and "E t s (fst (listInbox st s c limitQ))"
    and "E t s (fst (markNoteRead st s c param))"
    and "E t s (fst (notifyChat st hub pubErr clock s c b4))"
  using actorFromContext_tenant[where c = c and t = t, OF _ assms]
  by (auto simp: loginDevice_def updateSessionStatus_def sendNote_def listInbox_def markNoteRead_def notifyChat_def still services_only
      split: option.split sum.split)

lemma group_only:
  assumes "c ''auth_tenant_id'' = Some (CStr t)" "h \<noteq> S_ws" "session_handle st rnd pubErr now clock req h param c (s, hub) = ((s', hub'), out)"
  shows "hub' = hub \<and> (E t s s' \<or> E (TrimSpace t) s s')"
  using handlers_only[where c = c and t = t, OF assms(1)] still assms(2,3)
  by (cases h) (auto simp: session_handle_def restOut_def Let_def split: prod.splits sum.splits, (metis fst_conv)+)

lemma handshake_only:
  assumes "session_handle st rnd pubErr now clock req S_ws param c (s, hub) = ((s', hub'), out)"
  shows "s' = s \<or> E (TrimSpace (queryOf req ''tenant_id'')) s s' \<and> TrimSpace (queryOf req ''session_id'') \<noteq> '''' \<and> TrimSpace (queryOf req ''session_token'') \<noteq> ''''"
proof -
  let ?v = "ValidateSession st s (TrimSpace (queryOf req ''tenant_id'')) (TrimSpace (queryOf req ''user_id'')) (TrimSpace (queryOf req ''session_id''))
    (TrimSpace (queryOf req ''session_token''))"
  have "s' = fst ?v"
    using assms by (auto simp: session_handle_def handleSessionWS_open_def Let_def split: prod.splits sum.splits if_splits)
  moreover have "TrimSpace (queryOf req ''session_id'') = '''' \<or> TrimSpace (queryOf req ''session_token'') = '''' \<Longrightarrow> fst ?v = s"
    by (auto simp: ValidateSession_def TrimSpace_eval)
  ultimately show ?thesis using services_only(7) by auto
qed

lemma http_only:
  assumes "gin_ok g" "session_serve g st parse rnd pubErr now clock req (s, hub) = ((s', hub'), out)"
  shows "s' = s \<or> (\<exists>t \<in> session_reqTenants parse req. E t s s')"
  using assms(1) assms(2)[unfolded session_serve_def]
proof (cases rule: serveHTTP_cases)
  case (inGroup m p h params c)
  then obtain t where t: "t \<in> bearerTenants parse (hq_authorization req)" "c ''auth_tenant_id'' = Some (CStr t)"
    using AuthRequired_cases[where parse = parse and header = "hq_authorization req"] by (auto simp: bearerTenants_def)
  have "h \<noteq> S_ws" using inGroup(1) by (auto simp: session_RegisterRoutes_def)
  then have "E t s s' \<or> E (TrimSpace t) s s'" using group_only[where c = c and t = t, OF t(2)] inGroup(3) by metis
  then show ?thesis using t(1) by (auto simp: session_reqTenants_def)
next
  case (free m p h params)
  then have "h = S_health \<or> h = S_ws" by (auto simp: session_RegisterRoutes_def)
  then show ?thesis
  proof
    assume "h = S_health"
    then show ?thesis using free(2) by (auto simp: session_handle_def restOut_def)
  next
    assume "h = S_ws"
    then have "session_handle st rnd pubErr now clock req S_ws params Map.empty (s, hub) = ((s', hub'), out)" using free(2) by simp
    from handshake_only[OF this] show ?thesis using \<open>h = S_ws\<close> free(1,3) by (auto simp: session_reqTenants_def session_RegisterRoutes_def)
  qed
qed auto

end


text \<open>Whom a notification reaches on a hub \<open>h\<close>: the consumers of the published event, or the clients that the fallback has written to.\<close>

fun deliveries :: "Hub \<Rightarrow> dispatch \<Rightarrow> delivery list" where
  "deliveries h (Published ev) = consumeEvent h (Some ev)"
| "deliveries h (Fallback ds) = ds"

lemma local_tenant:
  assumes "hub_reach h" "plainTenants h" "plain t"
  shows "(c, j) \<in> set (fst (notifyUserLocal h t u payload)) \<Longrightarrow> TenantID c = t"
    and "(c, j) \<in> set (fst (broadcastTenantLocal h t payload)) \<Longrightarrow> TenantID c = t"
proof -
  show "TenantID c = t" if "(c, j) \<in> set (fst (notifyUserLocal h t u payload))"
  proof (cases payload)
    case (Inr k)
    then show ?thesis using that hub_delivery[OF assms, of u k] by auto
  qed (use that in \<open>simp add: notifyUserLocal_def WriteJSON_def Let_def\<close>)
  show "TenantID c = t" if "(c, j) \<in> set (fst (broadcastTenantLocal h t payload))"
  proof (cases payload)
    case (Inr k)
    then show ?thesis using that broadcastTenantLocal_exact[OF assms, of k] by auto
  qed (use that in \<open>auto simp: broadcastTenantLocal_def WriteJSON_def Let_def\<close>)
qed

lemma set_choice: "set (if a then A else if b then B else if k then C else []) \<subseteq> set A \<union> set B \<union> set C"
  by auto

lemma consume_tenant:
  assumes "hub_reach h" "plainTenants h" "plain (evTenantID ev)" "(c, j) \<in> set (consumeEvent h (Some ev))"
  shows "TenantID c = evTenantID ev"
proof -
  note here = local_tenant[OF assms(1-3)]
  have "set (consumeEvent h (Some ev)) \<subseteq> (\<Union>u p. set (fst (notifyUserLocal h (evTenantID ev) u (Inr p)))) \<union> (\<Union>p. set (fst (broadcastTenantLocal h (evTenantID ev) (Inr p))))"
    unfolding consumeEvent_def option.case by (rule subset_trans[OF set_choice]) (auto split: option.split_asm)
  then show ?thesis using assms(4) here by blast
qed

lemma dispatch_tenant:
  assumes "hub_reach hub" "plainTenants hub" "hub_reach h" "plainTenants h" "plain t"
    and "d = NotifyUsers hub pubErr t us build \<or> d = BroadcastTenant hub pubErr t payload" "(c, j) \<in> set (deliveries h d)"
  shows "TenantID c = t"
proof -
  have ev: "evTenantID ev = t" if "publishNotifyUsers hub pubErr t us build = Some ev \<or> publishBroadcastTenant hub pubErr t payload = Some ev" for ev
    using that by (auto simp: publishNotifyUsers_def publishBroadcastTenant_def split: if_splits option.splits sum.splits)
  have published: "TenantID c = t" if "d = Published e" "evTenantID e = t" for e
    using consume_tenant[OF assms(3,4), of e c j] assms(5,7) that by simp
  have local: "TenantID c = t" if "d = Fallback ds" "ds = concat (map (\<lambda>u. fst (notifyUserLocal hub t u (build u))) us) \<or> ds = fst (broadcastTenantLocal hub t payload)" for ds
    using that assms(7) by (auto dest: local_tenant[OF assms(1,2,5)])
  from assms(6) show ?thesis
  proof
    assume d: "d = NotifyUsers hub pubErr t us build"
    show ?thesis by (cases "publishNotifyUsers hub pubErr t us build") (use d ev published local in \<open>auto simp: NotifyUsers_def\<close>)
  next
    assume d: "d = BroadcastTenant hub pubErr t payload"
    show ?thesis by (cases "publishBroadcastTenant hub pubErr t payload") (use d ev published local in \<open>auto simp: BroadcastTenant_def\<close>)
  qed
qed

text \<open>What the handlers hand to the hub is for the tenant of the token.\<close>

definition announces :: "Hub \<Rightarrow> string option \<Rightarrow> string \<Rightarrow> dispatch \<Rightarrow> bool" where
  "announces hub pubErr t d \<longleftrightarrow> (\<exists>us build payload. d = NotifyUsers hub pubErr t us build \<or> d = BroadcastTenant hub pubErr t payload)"

lemma handlers_announce:
  assumes "c ''auth_tenant_id'' = Some (CStr t)"
  shows "updateSessionStatus st hub pubErr now s c b1 = (s', resp, Some d) \<Longrightarrow> announces hub pubErr t d"
    and "sendNote st hub pubErr s c b2 = (s', resp, Some d) \<Longrightarrow> announces hub pubErr t d"
    and "notifyChat st hub pubErr clock s c b3 = (s', resp, Some d) \<Longrightarrow> announces hub pubErr t d"
proof -
  have "snd (snd (UpdateStatus st hub pubErr now s t u raw nt)) = Some d \<Longrightarrow> announces hub pubErr t d" for u raw nt
    unfolding announces_def UpdateStatus_def Let_def by (auto split: if_splits prod.splits sum.splits)
  then show "updateSessionStatus st hub pubErr now s c b1 = (s', resp, Some d) \<Longrightarrow> announces hub pubErr t d"
    using actorFromContext_tenant[where c = c and t = t, OF _ assms]
    by (auto simp: updateSessionStatus_def split: option.splits sum.splits prod.splits) (metis snd_conv)+
  have "snd (snd (SendNote st hub pubErr s t u input)) = Some d \<Longrightarrow> announces hub pubErr t d" for u input
    unfolding announces_def SendNote_def Let_def by (auto split: if_splits prod.splits sum.splits)
  then show "sendNote st hub pubErr s c b2 = (s', resp, Some d) \<Longrightarrow> announces hub pubErr t d"
    using actorFromContext_tenant[where c = c and t = t, OF _ assms]
    by (auto simp: sendNote_def split: option.splits sum.splits prod.splits) (metis snd_conv)+
  have "snd (snd (NotifyChat st hub pubErr clock s t u tok inp)) = Some d \<Longrightarrow> announces hub pubErr t d" for u tok inp
    unfolding announces_def NotifyChat_def Let_def by (auto split: if_splits prod.splits sum.splits)
  then show "notifyChat st hub pubErr clock s c b3 = (s', resp, Some d) \<Longrightarrow> announces hub pubErr t d"
    using actorFromContext_tenant[where c = c and t = t, OF _ assms]
    by (auto simp: notifyChat_def split: option.splits sum.splits prod.splits) (metis snd_conv)+
qed

lemma http_announces:
  assumes "gin_ok g" "session_serve g st parse rnd pubErr now clock req (s, hub) = ((s', hub'), Inr (Inl (resp, Some d)))"
  shows "\<exists>t \<in> bearerTenants parse (hq_authorization req). announces hub pubErr t d"
  using assms(1) assms(2)[unfolded session_serve_def]
proof (cases rule: serveHTTP_cases)
  case (inGroup m p h params c)
  then obtain t where t: "t \<in> bearerTenants parse (hq_authorization req)" "c ''auth_tenant_id'' = Some (CStr t)"
    using AuthRequired_cases[where parse = parse and header = "hq_authorization req"] by (auto simp: bearerTenants_def)
  have "h \<noteq> S_ws" using inGroup(1) by (auto simp: session_RegisterRoutes_def)
  then have "announces hub pubErr t d"
    using inGroup(3) by (cases h) (auto simp: session_handle_def restOut_def Let_def split: prod.splits dest: handlers_announce[where c = c and t = t, OF t(2)])
  then show ?thesis using t(1) by blast
next
  case (free m p h params)
  then have "h = S_health \<or> h = S_ws" by (auto simp: session_RegisterRoutes_def)
  then show ?thesis using free(2) by (auto simp: session_handle_def restOut_def split: prod.splits sum.splits)
qed auto

section \<open>The organisation server\<close>

context isolated_users
begin

lemma actor_only: "c ''auth_tenant_id'' = Some (CStr t) \<Longrightarrow> (\<And>u. E t s (fst (f t u))) \<Longrightarrow> E t s (fst (withOrgActor c s f))"
  by (auto simp: withOrgActor_def org_actorFromContext_def still split: option.split ctxval.split)

lemma body_only: "(\<And>req. E t s (fst (f req))) \<Longrightarrow> E t s (fst (withBody bind s f))"
  by (auto simp: withBody_def still split: sum.split)

lemma audit_only: "E t s (fst (org_ListAliasAudit st s t u n f cur))"
  by (auto simp: org_ListAliasAudit_def Let_def still only split: sum.split)

lemma handlers_only:
  assumes "c ''auth_tenant_id'' = Some (CStr t)"
  shows "E t s (fst (org_createOrgUnit st s c b1))" and "E t s (fst (org_listOrgUnits st s c))" and "E t s (fst (org_createUser st s c b2))"
    and "E t s (fst (org_updateUserStatus st s c target b3))" and "E t s (fst (org_searchUsers st s c q l))" and "E t s (fst (org_listMyAliases st s c))"
    and "E t s (fst (org_addMyAlias st s c b4 ip ua))" and "E t s (fst (org_deleteMyAlias st s c b4 ip ua))" and "E t s (fst (org_listMyAliasAudit st pt s c aq))"
  unfolding org_createOrgUnit_def org_listOrgUnits_def org_createUser_def org_updateUserStatus_def org_searchUsers_def org_listMyAliases_def
    org_addMyAlias_def org_deleteMyAlias_def org_listMyAliasAudit_def org_SearchUsers_def
  by (rule actor_only[where c = c and t = t, OF assms]; auto simp: only still audit_only split: option.split intro!: body_only)+

lemma serve_only:
  assumes "org_serve st parse pt header s call = (s', resp)"
  shows "s' = s \<or> (\<exists>t \<in> bearerTenants parse header. E t s s')"
proof (cases "AuthRequired parse header Map.empty")
  case (Inl e)
  then show ?thesis using assms by (cases call) (auto simp: authed_def adminOrManager_def)
next
  case (Inr c)
  then obtain t where t: "t \<in> bearerTenants parse header" "c ''auth_tenant_id'' = Some (CStr t)"
    using AuthRequired_cases[where parse = parse and header = header] by (auto simp: bearerTenants_def)
  have roles: "RequireRoles roles c = Inr c' \<Longrightarrow> c' = c" for roles c' by (auto simp: RequireRoles_def split: option.splits ctxval.splits if_splits)
  have "E t s (fst (org_serve st parse pt header s call))"
    using handlers_only[where c = c and t = t, OF t(2)] Inr
    by (cases call) (auto simp: authed_def adminOrManager_def still split: sum.split dest!: roles)
  then show ?thesis using t(1) assms by auto
qed

end


text \<open>A login reads.\<close>

lemma loginAuth_fst:
  "fst (loginAuth st lib auth now s bind) = (case bind of Inl _ \<Rightarrow> s | Inr req \<Rightarrow> fst (os_auth st s (lq_TenantID req) (lq_Email req) (lq_Password req)))"
  by (auto simp: loginAuth_def withBody_def split: sum.split prod.split)

context reading_services
begin

lemma login_only: "E t s (fst (os_auth (remoteUsers sv ep) s t em pw))"
proof -
  let ?body = "JObj (jfields [(''tenant_id'', t), (''email'', em), (''password'', pw)])"
  have "namedTenant ?body = Inr t" by (simp add: jfields_def field_defs)
  then have "confined (E t) (V t) (\<lambda>r. dbman_post sv r (BasePath @ ''/users/authenticate'') (Inr ?body))"
    by (intro post_confined[OF still reading_confined]) (auto simp: readingRoutes_def)
  then show ?thesis by (auto simp: confined_def remoteUsers_def rc_AuthenticateUser_def rpost_def split: prod.split) (metis fst_conv)
qed

end

section \<open>The file server and the tenant server\<close>

context confined_services
begin

lemma file_only:
  assumes "c ''auth_tenant_id'' = Some (CStr t)" "file_serve lib env (rc_CreateFile sv ep) s rt c call = (s', rt', resp, touched)"
  shows "E t s s'"
proof -
  have create: "E (fo_TenantID f) s (fst (rc_CreateFile sv ep s f))" for f
    by (auto simp: rc_CreateFile_def tenantRoutes_def intro!: rpost_only)
  have reg: "E (fo_TenantID f) s (fst (RegisterAndMaybeThumbnail lib env (rc_CreateFile sv ep) s rt f))" for f
    using create[of "f\<lparr>fo_ObjectKey := k, fo_ThumbnailKey := h\<rparr>" for k h] create[of "f\<lparr>fo_ObjectKey := k\<rparr>" for k]
    by (auto simp: RegisterAndMaybeThumbnail_def still Let_def split: prod.split sum.split) (metis fst_conv)+
  have "E t s (fst (api_registerFile lib env (rc_CreateFile sv ep) s rt c b))" for b
    using reg[of "\<lparr>fo_TenantID = t, fo_ID = '''', fo_RoomID = a1, fo_UploaderID = a2, fo_ObjectKey = a3, fo_ContentType = a4, fo_SizeBytes = a5,
        fo_ThumbnailKey = '''', fo_OriginalName = a6, fo_CreatedAt = 0\<rparr>" for a1 a2 a3 a4 a5 a6] assms(1)
    by (auto simp: api_registerFile_def file_tenantFromContext_def still split: option.split sum.split prod.split) (metis fst_conv)+
  moreover have "fst (api_presign f s rt c b) = s" for f :: "string \<Rightarrow> string \<Rightarrow> 'b TenantMinIORouter \<times> string result \<times> 'b touch list" and b
    by (auto simp: api_presign_def split: option.split sum.split prod.split)
  ultimately have "E t s (fst (file_serve lib env (rc_CreateFile sv ep) s rt c call))" by (cases call) (simp_all add: still)
  then show ?thesis using assms(2) by simp
qed

end


fun managedTenants :: "tenantCall \<Rightarrow> string set" where
  "managedTenants TList = {}"
| "managedTenants (TCreate (Inl _)) = {}"
| "managedTenants (TCreate (Inr (item, _))) = {tn_TenantID item}"
| "managedTenants (TUpdate t _) = {t}"

lemma tenant_statements [owning]:
  "tn_TenantID item = t \<Longrightarrow> ownRows t (sql_insertTenant env item)"
  "tn_TenantID item = t \<Longrightarrow> ownRows t (sql_updateTenant env item)"
proof -
  show "ownRows t (sql_insertTenant env item)" if "tn_TenantID item = t"
    by (rule ownRowsI) (use that in \<open>simp_all add: sql_insertTenant_def Let_def rows_frame\<close>)
  have same: "filter (\<lambda>y. tn_TenantID y = t') (map (\<lambda>y. if tn_TenantID y = t then item\<lparr>tn_TenantID := tn_TenantID y, tn_CreatedAt := tn_CreatedAt y, tn_UpdatedAt := at\<rparr> else y) ys)
      = filter (\<lambda>y. tn_TenantID y = t') ys" if "t' \<noteq> t" for t' ys at
    by (rule filter_map_update) (use that in simp)
  show "ownRows t (sql_updateTenant env item)" if "tn_TenantID item = t"
    by (rule ownRowsI) (use that in \<open>simp_all add: sql_updateTenant_def Let_def rows_frame same split: list.split\<close>)
qed

lemma rowsApart_onShared:
  assumes "ownRows t st"
  shows "rowsApart t r (fst (onShared r st))"
  using assms by (auto simp: rowsApart_def onShared_def Let_def ownRows_def rowEffect_def split: prod.split) (metis fst_conv)+

lemma rowsApart_tsvc:
  assumes "\<And>x. tn_TenantID x = tn_TenantID item \<Longrightarrow> rowsApart (tn_TenantID item) r (fst (repo r env x))"
  shows "rowsApart (tn_TenantID item) r (fst (tsvc_write repo r env item))"
proof -
  let ?item = "item\<lparr>tn_DeploymentMode := ToLower (TrimSpace (tn_DeploymentMode item))\<rparr>"
  have "pools (fst (tsvc_write repo r env item)) = (if is_ok (validateTenant ?item) then pools (fst (repo r env ?item)) else pools r)"
    by (auto simp: tsvc_write_def tsvc_invalidateTenant_def Let_def is_ok_iff split: sum.split prod.split)
  then show ?thesis using assms[of ?item] by (auto simp: rowsApart_def)
qed

lemma remote_tenants_rows:
  "rowsApart (tn_TenantID item) r (fst (ts_create (remoteTenants (dbman bc um penv env pg ready) ep) r item))"
  "rowsApart (tn_TenantID item) r (fst (ts_update (remoteTenants (dbman bc um penv env pg ready) ep) r item))"
proof -
  have fst3: "fst (case out of (a, b, c) \<Rightarrow> (a, b)) = fst out" for out :: "'x \<times> 'y \<times> 'z" by (simp split: prod.split)
  have "rowsApart (tn_TenantID item) r (fst (tsvc_Create r env item))"
    unfolding tsvc_Create_def by (rule rowsApart_tsvc) (auto simp: tenant_Create_def intro!: rowsApart_onShared owning)
  then show "rowsApart (tn_TenantID item) r (fst (ts_create (remoteTenants (dbman bc um penv env pg ready) ep) r item))"
    by (simp add: remoteTenants_def remote_createTenant repoTenants_def fst3)
  have "rowsApart (tn_TenantID item) r (fst (tsvc_UpdateConfig r env item))"
    unfolding tsvc_UpdateConfig_def by (rule rowsApart_tsvc) (auto simp: tenant_UpdateConfig_def intro!: rowsApart_onShared owning)
  then show "rowsApart (tn_TenantID item) r (fst (ts_update (remoteTenants (dbman bc um penv env pg ready) ep) r item))"
    by (simp add: remoteTenants_def remote_updateTenant repoTenants_def fst3)
qed

lemma remote_list_pools: "pools (fst (ts_list (remoteTenants (dbman bc um penv env pg ready) ep) r)) = pools r"
  by (auto simp: remoteTenants_def remote_listTenants repoTenants_def tenant_List_def onShared_def exec_def sql_listTenants_def Let_def split: option.split)

lemma tenant_only:
  assumes "th_serve (remoteTenants (dbman bc um penv env pg ready) ep) n parse header r call = (r', resp)"
  shows "pools r' = pools r \<or> (\<exists>t \<in> managedTenants call. rowsApart t r r')"
proof -
  let ?st = "remoteTenants (dbman bc um penv env pg ready) ep"
  have saved: "fst (th_write op n r item) = fst (op r item)" for op :: "'a Repo \<Rightarrow> Tenant \<Rightarrow> 'a Repo \<times> Tenant result" and item
    by (simp add: th_write_def split: prod.split sum.split)
  have out: "fst (case x of (s', y, _) \<Rightarrow> answer a b js (s', y)) = fst x" for x :: "'a Repo \<times> Tenant result \<times> string list" and a b js
    by (simp split: prod.split)
  have gate: "fst (adminOrManager parse header r f) = r \<or> (\<exists>c. fst (adminOrManager parse header r f) = fst (f c))" for f
    by (auto simp: adminOrManager_def authed_def split: sum.split)
  show ?thesis
  proof (cases call rule: managedTenants.cases)
    case 1
    have "fst (th_listTenants ?st r) = fst (ts_list ?st r)" by (simp add: th_listTenants_def)
    then show ?thesis using assms 1 gate[of "\<lambda>_. th_listTenants ?st r"] remote_list_pools by (auto dest: arg_cong[where f = fst])
  next
    case (2 e)
    then show ?thesis using assms gate[of "\<lambda>_. th_createTenant ?st n r (Inl e)"] by (auto simp: th_createTenant_def withBody_def)
  next
    case (3 item act)
    let ?x = "item\<lparr>tn_UserCountThreshold := if tn_UserCountThreshold item = 0 then 200 else tn_UserCountThreshold item,
        tn_IsActive := (case act of Some b \<Rightarrow> b | None \<Rightarrow> True), tn_CreatedAt := 0, tn_UpdatedAt := 0\<rparr>"
    have "fst (th_createTenant ?st n r (Inr (item, act))) = fst (ts_create ?st r ?x)"
      by (simp add: th_createTenant_def withBody_def th_Create_def Let_def saved out)
    then have "rowsApart (tn_TenantID item) r (fst (th_createTenant ?st n r (Inr (item, act))))"
      using remote_tenants_rows(1)[of ?x r bc um penv env pg ready ep] by simp
    then show ?thesis using assms 3 gate[of "\<lambda>_. th_createTenant ?st n r (Inr (item, act))"] by auto
  next
    case (4 t bind)
    have "fst (th_updateTenant ?st n r t (Inr req)) = fst (ts_update ?st r (req\<lparr>tn_TenantID := t, tn_CreatedAt := 0, tn_UpdatedAt := 0\<rparr>))" for req
      by (simp add: th_updateTenant_def withBody_def th_UpdateConfig_def saved out)
    then have "rowsApart t r (fst (th_updateTenant ?st n r t (Inr req)))" for req
      using remote_tenants_rows(2)[of "req\<lparr>tn_TenantID := t, tn_CreatedAt := 0, tn_UpdatedAt := 0\<rparr>" r bc um penv env pg ready ep] by simp
    then have "rowsApart t r (fst (th_updateTenant ?st n r t bind))" by (cases bind) (simp_all add: th_updateTenant_def withBody_def)
    then show ?thesis using assms 4 gate[of "\<lambda>_. th_updateTenant ?st n r t bind"] by auto
  qed
qed


section \<open>The system\<close>

text \<open>
  The state of the system: the data bases behind the data base server, the rooms and the Redis router of the chat server, the keys in Redis, the hub of the session server,
  the MinIO router of the file server. One step is one request to one of the servers, or one frame on an open web socket; requests come in any order, and time, faults of
  the data base, the network, Redis and the random numbers may be different in every step. The label of a step is the set of tenants that the request has a token of, and for
  the tenant server, which is for operators, the tenant that is managed.
\<close>

record ('p, 'c, 'm, 'q) servers =
  sv_data :: "'p Repo"
  sv_rooms :: "'c rooms"
  sv_redis :: "'c TenantRedisRouter"
  sv_keys :: 'q
  sv_hub :: Hub
  sv_minio :: "'m TenantMinIORouter"

inductive sys_step ::
  "(string \<Rightarrow> (string \<times> string \<times> string) result) \<Rightarrow> ('m, 'o) objectLib \<Rightarrow> string set \<Rightarrow> ('p, 'c, 'm, 'q) servers \<Rightarrow> ('p, 'c, 'm, 'q) servers \<Rightarrow> bool"
  for parse lib where
  chat: "gin_ok g \<Longrightarrow> ch_store svc = remoteChat (dbman bc um penv env pg ready) ep \<Longrightarrow>
     chat_serve g svc parse renv pubErr http req (sv_data y, sv_rooms y, sv_redis y) = ((r', rs', rt'), out) \<Longrightarrow>
     sys_step parse lib (chat_reqTenants parse req) y (y\<lparr>sv_data := r', sv_rooms := rs', sv_redis := rt'\<rparr>)"
| chat_frame: "ch_store svc = remoteChat (dbman bc um penv env pg ready) ep \<Longrightarrow>
     ws_create svc ops c (sv_keys y) (sv_data y) frame msgIn key = (q', r', task, effs) \<Longrightarrow>
     sys_step parse lib {wc_tenantID c} y (y\<lparr>sv_data := r', sv_keys := q'\<rparr>)"
| session: "gin_ok g \<Longrightarrow>
     session_serve g (remoteSessions (dbman bc um penv env pg ready) ep) parse rnd pubErr1 now clock req (sv_data y, sv_hub y) = ((r', hub'), sout) \<Longrightarrow>
     sys_step parse lib (session_reqTenants parse req) y (y\<lparr>sv_data := r', sv_hub := hub'\<rparr>)"
| session_frame: "sys_step parse lib {TrimSpace (wq_tenant q)} y
     (y\<lparr>sv_data := handleSessionWS_message (remoteSessions (dbman bc um penv env pg ready) ep) (sv_data y) q\<rparr>)"
| org: "org_serve (remoteUsers (dbman bc um penv env pg ready) ep) parse pt header (sv_data y) call = (r', resp) \<Longrightarrow>
     sys_step parse lib (bearerTenants parse header) y (y\<lparr>sv_data := r'\<rparr>)"
| org_login: "loginAuth (remoteUsers (dbman bc um penv env pg ready) ep) jwt auth now (sv_data y) cred = (r', resp) \<Longrightarrow>
     sys_step parse lib {} y (y\<lparr>sv_data := r'\<rparr>)"
| files: "AuthRequired parse header Map.empty = Inr cx \<Longrightarrow>
     file_serve lib menv (rc_CreateFile (dbman bc um penv env pg ready) ep) (sv_data y) (sv_minio y) cx fcall = (r', mo', resp, touched) \<Longrightarrow>
     sys_step parse lib (bearerTenants parse header) y (y\<lparr>sv_data := r', sv_minio := mo'\<rparr>)"
| tenants: "th_serve (remoteTenants (dbman bc um penv env pg ready) ep) n parse header (sv_data y) tcall = (r', resp) \<Longrightarrow>
     sys_step parse lib (managedTenants tcall) y (y\<lparr>sv_data := r'\<rparr>)"

text \<open>Any number of steps for the tenants in \<open>T\<close>.\<close>

inductive sys_run ::
  "(string \<Rightarrow> (string \<times> string \<times> string) result) \<Rightarrow> ('m, 'o) objectLib \<Rightarrow> string set \<Rightarrow> ('p, 'c, 'm, 'q) servers \<Rightarrow> ('p, 'c, 'm, 'q) servers \<Rightarrow> bool"
  for parse lib T y where
  start: "sys_run parse lib T y y"
| more: "sys_run parse lib T y y1 \<Longrightarrow> sys_step parse lib L y1 y2 \<Longrightarrow> L \<subseteq> T \<Longrightarrow> sys_run parse lib T y y2"

text \<open>What a step may do to the data bases.\<close>

definition rowsOutside :: "string set \<Rightarrow> 'p Repo \<Rightarrow> 'p Repo \<Rightarrow> bool" where
  "rowsOutside T r r' \<longleftrightarrow>
     ((\<forall>p. readsOK (pools r p)) \<longrightarrow> (\<forall>p. readsOK (pools r' p)) \<and> (\<forall>p t. t \<notin> T \<longrightarrow> tenantRows t (pools r' p) = tenantRows t (pools r p)))"

lemma rowsOutsideI: "r' = r \<or> pools r' = pools r \<or> (\<exists>t \<in> T. rowsApart t r r') \<Longrightarrow> rowsOutside T r r'"
  unfolding rowsOutside_def rowsApart_def by (elim disjE bexE) (simp, simp, metis)

lemma sys_step_rows: "sys_step parse lib L y y' \<Longrightarrow> rowsOutside L (sv_data y) (sv_data y')"
proof (induction rule: sys_step.induct)
  case (chat g svc bc um penv env pg ready ep renv pubErr http req y r' rs' rt' out)
  from system_rows.remote_chat.http_only[OF chat(1,2) TrueI chat(3)] show ?case
    by (intro rowsOutsideI) auto
next
  case (chat_frame svc bc um penv env pg ready ep ops c y frame msgIn key q' r' task effs)
  have "r' = fst (snd (ws_create svc ops c (sv_keys y) (sv_data y) frame msgIn key))" using chat_frame(2) by simp
  also have "\<dots> = fst (svc_CreateMessage svc (sv_data y) \<lparr>ms_TenantID = wc_tenantID c, ms_ID = '''', ms_RoomID = wc_roomID c, ms_SenderID = ev_UserID frame,
         ms_Body = wp_Body msgIn,
         ms_MetaJSON = Text (BuildMessageMeta (wp_FileID msgIn) (case wp_FileIDs msgIn of None \<Rightarrow> [] | Some ids \<Rightarrow> ids) (wp_Emojis msgIn)),
         ms_CreatedAt = 0\<rparr>)"
    by (auto simp: ws_create_def split: prod.splits sum.splits)
  also have "rowsApart (wc_tenantID c) (sv_data y) \<dots>"
    using system_rows.remote_chat.create_only[OF chat_frame(1) TrueI, where s = "sv_data y" and msg = "\<lparr>ms_TenantID = wc_tenantID c, ms_ID = '''', ms_RoomID = wc_roomID c,
         ms_SenderID = ev_UserID frame, ms_Body = wp_Body msgIn,
         ms_MetaJSON = Text (BuildMessageMeta (wp_FileID msgIn) (case wp_FileIDs msgIn of None \<Rightarrow> [] | Some ids \<Rightarrow> ids) (wp_Emojis msgIn)),
         ms_CreatedAt = 0\<rparr>"] by simp
  finally show ?case by (intro rowsOutsideI) simp
next
  case (session g bc um penv env pg ready ep rnd pubErr1 now clock req y r' hub' sout)
  from by_rows.remote_sessions.http_only[OF session(1,2)] show ?case by (intro rowsOutsideI) auto
next
  case (session_frame q y bc um penv env pg ready ep)
  then show ?case by (intro rowsOutsideI) (auto simp: handleSessionWS_message_def intro: by_rows.remote_sessions.services_only)
next
  case (org bc um penv env pg ready ep pt header y call r' resp)
  from by_rows.remote_users.serve_only[OF org(1)] show ?case by (intro rowsOutsideI) auto
next
  case (org_login bc um penv env pg ready ep jwt auth now y cred r' resp)
  have "samePools t (sv_data y) (fst (os_auth (remoteUsers (dbman bc um penv env pg ready) ep) (sv_data y) t em pw))" for t em pw by (rule by_query.login_only)
  then have "pools r' = pools (sv_data y)"
    using loginAuth_fst[of "remoteUsers (dbman bc um penv env pg ready) ep" jwt auth now "sv_data y" cred] org_login(1) by (auto simp: samePools_def split: sum.splits)
  then show ?case by (intro rowsOutsideI) simp
next
  case (files header cx menv bc um penv env pg ready ep y fcall r' mo' resp touched)
  then obtain t where t: "t \<in> bearerTenants parse header" "cx ''auth_tenant_id'' = Some (CStr t)"
    using AuthRequired_cases[where parse = parse and header = header] by (auto simp: bearerTenants_def)
  have "rowsApart t (sv_data y) r'" by (rule by_rows.file_only[where c = cx and t = t, OF t(2) files(2)])
  then show ?case using t(1) by (intro rowsOutsideI) auto
next
  case (tenants bc um penv env pg ready ep n header y tcall r' resp)
  from tenant_only[OF tenants(1)] show ?case by (intro rowsOutsideI) auto
qed


section \<open>Properties\<close>


definition busyReq :: httpReq where
  "busyReq = \<lparr>hq_method = ''PATCH'', hq_path = ''/api/v1/session/status'', hq_authorization = ''Bearer tok'', hq_query = (\<lambda>_. None),
     hq_body = Inr (JObj [(''status'', JStr ''busy'')]), hq_upgrade = Inl ''no''\<rparr>"


text \<open>
  C3: Tenants are safe from each other in the whole system. Take any sequence of requests to the chat, session, organisation, file and tenant servers and of
  frames on open web sockets, in any order, with any failures of the data base and of the other services, in which no request has an accepted token (or names a session) of a tenant, no
  web socket of this tenant gets a frame, and no request manages this tenant. Then every row of this tenant, in every table of every data base, shared or dedicated, is at the end what it was at the begin.
\<close>

theorem system_tenants_safe:
  assumes "sys_run parse lib T y y'" and "\<forall>p. readsOK (pools (sv_data y) p)" and "t \<notin> T"
  shows "tenantRows t (pools (sv_data y') p) = tenantRows t (pools (sv_data y) p) \<and> readsOK (pools (sv_data y') p)"
proof -
  have "rowsOutside T (sv_data y) (sv_data y')"
    using assms(1)
  proof (induction rule: sys_run.induct)
    case start
    show ?case by (simp add: rowsOutside_def)
  next
    case (more y1 L y2)
    then show ?case using sys_step_rows[OF more(2)] unfolding rowsOutside_def by (metis subsetD)
  qed
  then show ?thesis using assms(2,3) by (simp add: rowsOutside_def)
qed

text \<open>The last condition is needed: the tenant server does not look at the tenant of the token. An administrator or manager of any tenant can change the configuration of every other.\<close>

lemma tenants_managed_by_any:
  assumes "HasPrefix header ''Bearer ''" "parse (TrimPrefix header ''Bearer '') = Inr (u, t, role)" "role \<in> {''admin'', ''manager''}"
  shows "th_serve st n parse header s (TUpdate t' bind) = th_updateTenant st n s t' bind \<and> th_serve st n parse header s TList = th_listTenants st s"
  using assms by (auto simp: adminOrManager_def authed_def AuthRequired_def RequireRoles_def Let_def TrimSpace_eval)

definition systemEx :: "(string, string, string, unit) servers" where
  "systemEx = \<lparr>sv_data = chatRepoEx mixedDB, sv_rooms = [], sv_redis = NewTenantRedisRouter ''redis'' False, sv_keys = (), sv_hub = NewHub,
     sv_minio = NewTenantMinIORouter ''m'' ''files''\<rparr>"

theorem system_tenants_safe_witness:
  "\<exists>y'. sys_run acceptTok objLib {''acme''} systemEx y'
     \<and> sv_data y' = fst (fst (chat_serve (firstMatch 0) remoteSvc acceptTok redisEnvEx (\<lambda>_. None) (\<lambda>_ _. DoErr ''down'') addBob
         (chatRepoEx mixedDB, [], NewTenantRedisRouter ''redis'' False)))
     \<and> tenantRows ''bee'' (pools (sv_data y') ''pg://acme'') = tenantRows ''bee'' mixedDB"
proof -
  let ?serve = "chat_serve (firstMatch 0) remoteSvc acceptTok redisEnvEx (\<lambda>_. None) (\<lambda>_ _. DoErr ''down'') addBob
    (sv_data systemEx, sv_rooms systemEx, sv_redis systemEx)"
  obtain r' rs' rt' out where serve: "?serve = ((r', rs', rt'), out)" by (metis prod.collapse)
  let ?y = "systemEx\<lparr>sv_data := r', sv_rooms := rs', sv_redis := rt'\<rparr>"
  have st: "ch_store remoteSvc = remoteChat (dbman bcEx (\<lambda>q u. us_Name u = q) acmeEnv chatEnv plainText (\<lambda>_. Inr ())) ''http://dbman:8082''" by (simp add: remoteSvc_def)
  have L: "chat_reqTenants acceptTok addBob \<subseteq> {''acme''}" by (auto simp: chat_reqTenants_def acceptTok_def split: if_splits)
  have run: "sys_run acceptTok objLib {''acme''} systemEx ?y"
    by (rule sys_run.more[OF sys_run.start sys_step.chat[OF gin_firstMatch st serve] L])
  have "\<forall>p. readsOK (pools (sv_data systemEx) p)" by (simp add: systemEx_def mixedDB_ok)
  from system_tenants_safe[OF run this, of "''bee''" "''pg://acme''"]
  have "tenantRows ''bee'' (pools (sv_data ?y) ''pg://acme'') = tenantRows ''bee'' mixedDB" by (simp add: systemEx_def)
  moreover have "sv_data ?y = fst (fst (chat_serve (firstMatch 0) remoteSvc acceptTok redisEnvEx (\<lambda>_. None) (\<lambda>_ _. DoErr ''down'') addBob
         (chatRepoEx mixedDB, [], NewTenantRedisRouter ''redis'' False)))" using serve by (simp add: systemEx_def)
  ultimately show ?thesis using run by blast
qed

end
